(* ===== verification/Prelude.thy ===== *)
theory Prelude
  imports Main "HOL-Library.Sublist"
begin

text \<open>
  Shared vocabulary of the development: the collections of rules that evaluate the
  model's operations, and generic facts on lists, options and association lists that the
  component theories use. Nothing here is specific to the toolbox.
\<close>

named_theorems model_simps "equations that evaluate the model's operations on concrete inputs"

type_synonym argv = "string list"

subsection \<open>Lists\<close>

lemma find_Some_first:
  "find P xs = Some x \<Longrightarrow> \<exists>ys zs. xs = ys @ x # zs \<and> P x \<and> (\<forall>y\<in>set ys. \<not> P y)"
proof (induction xs)
  case Nil
  then show ?case by simp
next
  case (Cons a xs)
  show ?case
  proof (cases "P a")
    case True
    with Cons.prems show ?thesis by (intro exI[of _ "[]"] exI[of _ xs]) auto
  next
    case False
    with Cons.prems have "find P xs = Some x" by simp
    then obtain ys zs where "xs = ys @ x # zs" "P x" "\<forall>y\<in>set ys. \<not> P y"
      using Cons.IH by blast
    with False show ?thesis by (intro exI[of _ "a # ys"] exI[of _ zs]) simp
  qed
qed

lemma find_None_iff2: "find P xs = None \<longleftrightarrow> (\<forall>x\<in>set xs. \<not> P x)"
  by (induction xs) auto

lemma find_map: "find P (map f xs) = map_option f (find (P \<circ> f) xs)"
  by (induction xs) auto

lemma find_append_left:
  "\<forall>y\<in>set ys. \<not> P y \<Longrightarrow> find P (ys @ zs) = find P zs"
  by (induction ys) auto

lemma find_append_hit:
  "P x \<Longrightarrow> \<forall>y\<in>set ys. \<not> P y \<Longrightarrow> find P (ys @ x # zs) = Some x"
  by (simp add: find_append_left)

lemma rotate_as_map_nth:
  "xs \<noteq> [] \<Longrightarrow> rotate n xs = map (\<lambda>i. xs ! ((n + i) mod length xs)) [0..<length xs]"
  by (rule nth_equalityI) (simp_all add: nth_rotate)

lemma map_upt_shift:
  "map f [Suc a..<Suc b] = map (\<lambda>i. f (Suc i)) [a..<b]"
  by (simp only: map_Suc_upt[symmetric] map_map comp_def)

lemma nth_mem_filter:
  "i < length xs \<Longrightarrow> P (xs ! i) \<Longrightarrow> xs ! i \<in> set (filter P xs)"
  by simp

subsection \<open>Remainders\<close>

lemma mod_plus_sub_eq:
  assumes "b \<le> (T::nat)"
  shows "(a mod T + T - b) mod T = (a + T - b) mod T"
proof -
  have "a mod T + T - b = a mod T + (T - b)" "a + T - b = a + (T - b)"
    using assms by simp_all
  then show ?thesis by (simp only: mod_add_left_eq)
qed

subsection \<open>Splitting into words\<close>

text \<open>The maximal runs of characters outside a separator class, scanned character by
  character; the common core of Python's \<open>str.split()\<close>, awk's field splitting and the
  shell's word splitting, which differ only in the separator class.\<close>

fun words_by :: "(char \<Rightarrow> bool) \<Rightarrow> string \<Rightarrow> string \<Rightarrow> string list" where
  "words_by sep cur [] = (if cur = [] then [] else [cur])"
| "words_by sep cur (c # s) =
     (if sep c then (if cur = [] then words_by sep [] s else cur # words_by sep [] s)
      else words_by sep (cur @ [c]) s)"

lemma words_by_no_sep:
  "\<forall>c\<in>set s. \<not> sep c \<Longrightarrow> words_by sep cur s = (if cur @ s = [] then [] else [cur @ s])"
  by (induction s arbitrary: cur) auto

lemma words_by_append_sep:
  assumes "\<forall>c\<in>set a. \<not> sep c" and "sep d"
  shows "words_by sep [] (a @ d # s) = (if a = [] then [] else [a]) @ words_by sep [] s"
proof -
  have "words_by sep cur (a @ d # s) =
          (if cur @ a = [] then [] else [cur @ a]) @ words_by sep [] s" for cur
    using assms by (induction a arbitrary: cur) auto
  then show ?thesis by simp
qed

lemma words_by_words:
  assumes "\<forall>c\<in>set cur. \<not> sep c" and "x \<in> set (words_by sep cur s)"
  shows "x \<noteq> [] \<and> (\<forall>c\<in>set x. \<not> sep c) \<and> set x \<subseteq> set cur \<union> set s"
  using assms
proof (induction s arbitrary: cur)
  case Nil
  then show ?case by (auto split: if_splits)
next
  case (Cons a s)
  show ?case
  proof (cases "sep a")
    case True
    from Cons.prems True have "x = cur \<and> cur \<noteq> [] \<or> x \<in> set (words_by sep [] s)"
      by (auto split: if_splits)
    then show ?thesis using Cons.IH[of "[]"] Cons.prems(1) by auto
  next
    case False
    from Cons.prems False have "x \<in> set (words_by sep (cur @ [a]) s)" by simp
    with Cons.IH[of "cur @ [a]"] Cons.prems(1) False show ?thesis by auto
  qed
qed

subsection \<open>Decimal numerals\<close>

text \<open>Decimal printing of numbers (Python's \<open>str(n)\<close>, bash's \<open>echo $N\<close>) and
  reading of a digit string.\<close>

definition digit_char :: "nat \<Rightarrow> char" where
  "digit_char d = char_of (48 + d)"

definition char_digit :: "char \<Rightarrow> nat" where
  "char_digit c = of_char c - 48"

definition is_digit :: "char \<Rightarrow> bool" where
  "is_digit c \<longleftrightarrow> 48 \<le> (of_char c :: nat) \<and> (of_char c :: nat) \<le> 57"

fun dec_nat :: "nat \<Rightarrow> string" where
  "dec_nat n = (if n < 10 then [digit_char n] else dec_nat (n div 10) @ [digit_char (n mod 10)])"

declare dec_nat.simps [simp del]

definition dec_int :: "int \<Rightarrow> string" where
  "dec_int i = (if i < 0 then CHR ''-'' # dec_nat (nat (- i)) else dec_nat (nat i))"

definition digits_value :: "string \<Rightarrow> nat" where
  "digits_value s = foldl (\<lambda>acc c. 10 * acc + char_digit c) 0 s"

lemma char_digit_digit_char [simp]: "d < 10 \<Longrightarrow> char_digit (digit_char d) = d"
  by (simp add: char_digit_def digit_char_def)

lemma is_digit_digit_char [simp]: "d < 10 \<Longrightarrow> is_digit (digit_char d)"
  by (simp add: is_digit_def digit_char_def)

lemma dec_nat_digits: "\<forall>c\<in>set (dec_nat n). is_digit c"
  by (induction n rule: dec_nat.induct) (subst dec_nat.simps, simp)

lemma dec_nat_nonempty [simp]: "dec_nat n \<noteq> []"
  by (subst dec_nat.simps) simp

lemma dec_nat_value [simp]: "digits_value (dec_nat n) = n"
proof (induction n rule: dec_nat.induct)
  case (1 n)
  show ?case
  proof (cases "n < 10")
    case True
    then show ?thesis by (subst dec_nat.simps) (simp add: digits_value_def)
  next
    case False
    with "1.IH" have "digits_value (dec_nat (n div 10)) = n div 10" by simp
    with False show ?thesis
      by (subst dec_nat.simps) (simp add: digits_value_def)
  qed
qed

lemma dec_nat_hd: "hd (dec_nat n) = CHR ''0'' \<Longrightarrow> n = 0"
proof (induction n rule: dec_nat.induct)
  case (1 n)
  show ?case
  proof (cases "n < 10")
    case True
    with "1.prems" have "digit_char n = CHR ''0''" by (subst (asm) dec_nat.simps) simp
    then have "char_digit (digit_char n) = char_digit (CHR ''0'')" by simp
    with True have "n = char_digit (CHR ''0'')" by simp
    then show ?thesis by (simp add: char_digit_def)
  next
    case False
    with "1.prems" have "hd (dec_nat (n div 10)) = CHR ''0''"
      by (subst (asm) dec_nat.simps) simp
    with False "1.IH" show ?thesis by simp
  qed
qed

subsection \<open>Association lists with distinct keys\<close>

text \<open>
  A Python dictionary keeps its keys in insertion order and holds each key once; it is an
  association list whose keys are distinct. Assignment to a present key replaces the value
  in place, assignment to a new key appends it.
\<close>

fun alist_set :: "('k \<times> 'v) list \<Rightarrow> 'k \<Rightarrow> 'v \<Rightarrow> ('k \<times> 'v) list" where
  "alist_set [] k v = [(k, v)]"
| "alist_set ((k', v') # ps) k v =
     (if k' = k then (k, v) # ps else (k', v') # alist_set ps k v)"

lemma map_of_alist_set: "map_of (alist_set ps k v) = (map_of ps)(k \<mapsto> v)"
  by (induction ps) (auto simp: fun_eq_iff)

lemma keys_alist_set: "map fst (alist_set ps k v) =
    (if k \<in> set (map fst ps) then map fst ps else map fst ps @ [k])"
  by (induction ps) (auto simp: rev_image_eqI)

lemma distinct_alist_set: "distinct (map fst ps) \<Longrightarrow> distinct (map fst (alist_set ps k v))"
  by (simp add: keys_alist_set)

lemmas alist_set_facts [simp] = map_of_alist_set keys_alist_set distinct_alist_set

end
