(* ===== verification/PyStr.thy ===== *)
theory PyStr
  imports Prelude
begin

text \<open>
  The Python \<open>str\<close> methods the toolbox calls (\<open>strip\<close>, \<open>split\<close>, \<open>splitlines\<close>,
  \<open>startswith\<close>, \<open>in\<close>, \<open>find\<close>, \<open>lower\<close>, \<open>join\<close>, \<open>replace\<close>), written after
  CPython's algorithms for the ASCII range. A string is a list of 8-bit characters, so a
  non-ASCII code point is several characters (its UTF-8 bytes); \<open>lower\<close>, the whitespace
  and the line-break classes are those of the ASCII range.
\<close>

definition py_isspace :: "char \<Rightarrow> bool" where
  "py_isspace c \<longleftrightarrow> c \<in> set [CHR 0x20, CHR 0x09, CHR 0x0A, CHR 0x0B, CHR 0x0C, CHR 0x0D,
                              CHR 0x1C, CHR 0x1D, CHR 0x1E, CHR 0x1F]"

definition py_is_linebreak :: "char \<Rightarrow> bool" where
  "py_is_linebreak c \<longleftrightarrow> c \<in> set [CHR 0x0A, CHR 0x0D, CHR 0x0B, CHR 0x0C,
                                    CHR 0x1C, CHR 0x1D, CHR 0x1E]"

definition py_lstrip :: "string \<Rightarrow> string" where
  "py_lstrip s = dropWhile py_isspace s"

definition py_rstrip :: "string \<Rightarrow> string" where
  "py_rstrip s = rev (dropWhile py_isspace (rev s))"

definition py_strip :: "string \<Rightarrow> string" where
  "py_strip s = py_rstrip (py_lstrip s)"

text \<open>\<open>s.split(None, n)\<close>: at most \<open>n\<close> words, then the rest with its leading
  whitespace removed and its trailing whitespace kept.\<close>

fun py_split_ws :: "nat \<Rightarrow> string \<Rightarrow> string list" where
  "py_split_ws 0 s = (let r = dropWhile py_isspace s in if r = [] then [] else [r])"
| "py_split_ws (Suc n) s =
     (let r = dropWhile py_isspace s in
      if r = [] then []
      else takeWhile (\<lambda>c. \<not> py_isspace c) r # py_split_ws n (dropWhile (\<lambda>c. \<not> py_isspace c) r))"

text \<open>\<open>s.split()\<close>: every maximal run of non-whitespace characters, scanned
  character by character.\<close>

definition py_words :: "string \<Rightarrow> string list" where
  "py_words s = words_by py_isspace [] s"

text \<open>\<open>s.splitlines()\<close>: \<open>\r\n\<close> is one break; a final break opens no empty line.\<close>

fun py_splitlines_aux :: "string \<Rightarrow> string \<Rightarrow> string list" where
  "py_splitlines_aux cur [] = (if cur = [] then [] else [cur])"
| "py_splitlines_aux cur (c # s) =
     (if c = CHR 0x0D \<and> s \<noteq> [] \<and> hd s = CHR 0x0A then cur # py_splitlines_aux [] (tl s)
      else if py_is_linebreak c then cur # py_splitlines_aux [] s
      else py_splitlines_aux (cur @ [c]) s)"

definition py_splitlines :: "string \<Rightarrow> string list" where
  "py_splitlines s = py_splitlines_aux [] s"

definition py_startswith :: "string \<Rightarrow> string \<Rightarrow> bool" where
  "py_startswith s p \<longleftrightarrow> take (length p) s = p"

text \<open>\<open>n in h\<close> for strings: \<open>n\<close> occurs in \<open>h\<close> as a contiguous piece.\<close>

fun py_in :: "string \<Rightarrow> string \<Rightarrow> bool" where
  "py_in n [] \<longleftrightarrow> n = []"
| "py_in n (c # h) \<longleftrightarrow> py_startswith (c # h) n \<or> py_in n h"

text \<open>\<open>h.find(n)\<close>: the index of the first occurrence, or \<open>-1\<close>.\<close>

fun py_find_from :: "string \<Rightarrow> string \<Rightarrow> nat \<Rightarrow> int" where
  "py_find_from n [] k = (if n = [] then int k else -1)"
| "py_find_from n (c # h) k =
     (if py_startswith (c # h) n then int k else py_find_from n h (Suc k))"

definition py_find :: "string \<Rightarrow> string \<Rightarrow> int" where
  "py_find h n = py_find_from n h 0"

definition py_lower_char :: "char \<Rightarrow> char" where
  "py_lower_char c =
     (let n = (of_char c :: nat) in if 65 \<le> n \<and> n \<le> 90 then char_of (n + 32) else c)"

definition py_lower :: "string \<Rightarrow> string" where
  "py_lower s = map py_lower_char s"

text \<open>\<open>sep.join(xs)\<close> on a list of strings.\<close>

fun py_join :: "string \<Rightarrow> string list \<Rightarrow> string" where
  "py_join sep [] = []"
| "py_join sep [x] = x"
| "py_join sep (x # y # xs) = x @ sep @ py_join sep (y # xs)"

text \<open>\<open>s.split(d)\<close> for a one-character separator \<open>d\<close>.\<close>

fun py_split_char :: "char \<Rightarrow> string \<Rightarrow> string list" where
  "py_split_char d [] = [[]]"
| "py_split_char d (c # s) =
     (let r = py_split_char d s in
      if c = d then [] # r else (c # hd r) # tl r)"

text \<open>\<open>s.replace(old, new)\<close>: non-overlapping occurrences, left to right.\<close>

fun py_replace_ne :: "string \<Rightarrow> string \<Rightarrow> string \<Rightarrow> string" where
  "py_replace_ne old new [] = []"
| "py_replace_ne old new (c # s) =
     (if py_startswith (c # s) old
      then new @ py_replace_ne old new (drop (length old - 1) s)
      else c # py_replace_ne old new s)"

definition py_replace :: "string \<Rightarrow> string \<Rightarrow> string \<Rightarrow> string" where
  "py_replace s old new =
     (if old = [] then new @ concat (map (\<lambda>c. c # new) s) else py_replace_ne old new s)"

lemmas py_str_defs [model_simps] =
  py_isspace_def py_is_linebreak_def py_lstrip_def py_rstrip_def py_strip_def
  py_splitlines_def py_words_def py_startswith_def py_find_def py_lower_def py_lower_char_def
  py_replace_def

text \<open>A field of a tool's output: non-empty and free of whitespace.\<close>

definition wf_field :: "string \<Rightarrow> bool" where
  "wf_field s \<longleftrightarrow> s \<noteq> [] \<and> (\<forall>c\<in>set s. \<not> py_isspace c)"

subsection \<open>Facts about the string methods\<close>

lemma py_startswith_append [simp]: "py_startswith (p @ s) p"
  by (simp add: py_startswith_def)

lemma py_startswith_iff_prefix: "py_startswith s p \<longleftrightarrow> prefix p s"
  by (simp add: py_startswith_def prefix_def) (metis append_take_drop_id append_eq_conv_conj)

lemma py_in_iff_sublist: "py_in n h \<longleftrightarrow> sublist n h"
proof (induction h)
  case Nil
  then show ?case by simp
next
  case (Cons c h)
  then show ?case
    by (simp add: py_startswith_iff_prefix sublist_Cons_right)
qed

lemma py_find_from_nonneg_iff: "0 \<le> py_find_from n h k \<longleftrightarrow> py_in n h"
  by (induction n h k rule: py_find_from.induct) auto

lemma py_find_nonneg_iff [simp]: "0 \<le> py_find h n \<longleftrightarrow> py_in n h"
  by (simp add: py_find_def py_find_from_nonneg_iff)

lemma py_in_append [simp]: "py_in n (a @ n @ b)"
  by (simp add: py_in_iff_sublist)

lemma py_lower_length [simp]: "length (py_lower s) = length s"
  by (simp add: py_lower_def)

lemma py_split_char_length: "length (py_split_char d s) = Suc (length (filter ((=) d) s))"
  by (induction s) (auto simp: Let_def)

lemma py_split_char_fields: "f \<in> set (py_split_char d s) \<Longrightarrow> d \<notin> set f"
proof (induction s arbitrary: f)
  case Nil
  then show ?case by simp
next
  case (Cons c s)
  have ne: "py_split_char d s \<noteq> []"
    using py_split_char_length[of d s] by auto
  then have "hd (py_split_char d s) \<in> set (py_split_char d s)"
    "set (tl (py_split_char d s)) \<subseteq> set (py_split_char d s)"
    by (auto simp: list.set_sel)
  with Cons show ?case by (auto simp: Let_def split: if_splits)
qed

lemma py_join_Cons: "xs \<noteq> [] \<Longrightarrow> py_join sep (x # xs) = x @ sep @ py_join sep xs"
  by (cases xs) auto

lemma linebreak_isspace: "py_is_linebreak c \<Longrightarrow> py_isspace c"
  by (auto simp: py_is_linebreak_def py_isspace_def)

lemma wf_field_no_linebreak: "wf_field s \<Longrightarrow> \<forall>c\<in>set s. \<not> py_is_linebreak c"
  by (auto simp: wf_field_def dest: linebreak_isspace)

lemma py_split_ws_space: "py_isspace c \<Longrightarrow> py_split_ws n (c # s) = py_split_ws n s"
  by (cases n) simp_all

lemma py_split_ws_field:
  assumes "wf_field a" "py_isspace c"
  shows "py_split_ws (Suc n) (a @ c # s) = a # py_split_ws n s"
proof -
  from assms(1) obtain a0 as where a: "a = a0 # as" "\<not> py_isspace a0"
    by (cases a) (auto simp: wf_field_def)
  from assms have "takeWhile (\<lambda>c. \<not> py_isspace c) (a @ c # s) = a"
    "dropWhile (\<lambda>c. \<not> py_isspace c) (a @ c # s) = c # s"
    by (simp_all add: wf_field_def takeWhile_append2 dropWhile_append2)
  with a assms(2) show ?thesis by (simp add: py_split_ws_space)
qed

lemma py_split_ws_rest:
  "t \<noteq> [] \<Longrightarrow> \<not> py_isspace (hd t) \<Longrightarrow> py_split_ws 0 t = [t]"
  by (cases t) simp_all

lemma dec_nat_field: "wf_field (dec_nat n)"
  using dec_nat_digits[of n] by (auto simp: wf_field_def is_digit_def py_isspace_def)

lemma dec_int_field: "wf_field (dec_int i)"
  using dec_nat_field by (auto simp: wf_field_def dec_int_def py_isspace_def)

lemma py_splitlines_aux_plain:
  "\<forall>c\<in>set l. \<not> py_is_linebreak c \<Longrightarrow>
   py_splitlines_aux cur l = (if cur @ l = [] then [] else [cur @ l])"
  by (induction l arbitrary: cur) (auto simp: py_is_linebreak_def)

lemma py_splitlines_aux_line:
  "\<forall>c\<in>set l. \<not> py_is_linebreak c \<Longrightarrow>
   py_splitlines_aux cur (l @ CHR 0x0A # r) = (cur @ l) # py_splitlines_aux [] r"
  by (induction l arbitrary: cur) (auto simp: py_is_linebreak_def)

lemma py_strip_id:
  assumes "s \<noteq> []" "\<not> py_isspace (hd s)" "\<not> py_isspace (last s)"
  shows "py_strip s = s"
proof -
  have r: "rev s = last s # rev (butlast s)" using assms(1) by (cases s rule: rev_cases) auto
  have "dropWhile py_isspace (rev s) = rev s" unfolding r using assms(3) by simp
  moreover have "py_lstrip s = s" using assms(1,2) by (cases s) (simp_all add: py_lstrip_def)
  ultimately show ?thesis by (simp add: py_strip_def py_rstrip_def)
qed

lemma py_strip_Cons_space: "py_isspace c \<Longrightarrow> py_strip (c # s) = py_strip s"
  by (simp add: py_strip_def py_lstrip_def)

lemma dec_nat_strip [simp]: "py_strip (dec_nat p) = dec_nat p"
  using dec_nat_field[of p] by (intro py_strip_id) (auto simp: wf_field_def)

lemma py_split_char_absent: "d \<notin> set s \<Longrightarrow> py_split_char d s = [s]"
  by (induction s) (auto simp: Let_def)

end
