(* ===== verification/Values.thy ===== *)
theory Values
  imports PyStr
begin

text \<open>
  The Python values the toolbox handles: what \<open>json.load\<close> returns for the profile file
  (\<open>None\<close>, booleans, integers, strings, lists and dictionaries), the exceptions its code
  can raise on them, and the Python operations it applies (truthiness, \<open>dict.get\<close>,
  iteration, \<open>len\<close>, indexing, \<open>str\<close>, \<open>sep.join\<close>). A raised exception is an
  \<open>Inl\<close> value. JSON numbers with a fraction (Python floats) are not modelled.
  Then the one piece of repository code at this level: reading the window list and the
  character list out of a profile entry, a block repeated in four functions of
  \<open>src/dofus_control_gui.py\<close>.
\<close>

datatype pyval =
    PNone
  | PBool bool
  | PInt int
  | PStr string
  | PList "pyval list"
  | PDict "(string \<times> pyval) list"

datatype py_error =
    AttributeError
  | TypeError
  | KeyError
  | IndexError
  | FileNotFoundError
  | JSONDecodeError

type_synonym 'a py = "py_error + 'a"

subsection \<open>Python operations on values\<close>

fun py_truthy :: "pyval \<Rightarrow> bool" where
  "py_truthy PNone \<longleftrightarrow> False"
| "py_truthy (PBool b) \<longleftrightarrow> b"
| "py_truthy (PInt i) \<longleftrightarrow> i \<noteq> 0"
| "py_truthy (PStr s) \<longleftrightarrow> s \<noteq> []"
| "py_truthy (PList xs) \<longleftrightarrow> xs \<noteq> []"
| "py_truthy (PDict d) \<longleftrightarrow> d \<noteq> []"

text \<open>\<open>d.get(k, default)\<close>: only a dictionary has \<open>get\<close>.\<close>

fun py_get :: "pyval \<Rightarrow> string \<Rightarrow> pyval \<Rightarrow> pyval py" where
  "py_get (PDict d) k dflt = Inr (case map_of d k of Some v \<Rightarrow> v | None \<Rightarrow> dflt)"
| "py_get _ k dflt = Inl AttributeError"

text \<open>\<open>d[k] = v\<close> on a dictionary.\<close>

fun py_setitem :: "pyval \<Rightarrow> string \<Rightarrow> pyval \<Rightarrow> pyval py" where
  "py_setitem (PDict d) k v = Inr (PDict (alist_set d k v))"
| "py_setitem PNone k v = Inl TypeError"
| "py_setitem (PList xs) k v = Inl TypeError"
| "py_setitem (PStr s) k v = Inl TypeError"
| "py_setitem (PInt i) k v = Inl TypeError"
| "py_setitem (PBool b) k v = Inl TypeError"

text \<open>Iteration: a string yields its characters, a dictionary its keys.\<close>

fun py_iter :: "pyval \<Rightarrow> pyval list py" where
  "py_iter (PStr s) = Inr (map (\<lambda>c. PStr [c]) s)"
| "py_iter (PList xs) = Inr xs"
| "py_iter (PDict d) = Inr (map (PStr \<circ> fst) d)"
| "py_iter _ = Inl TypeError"

fun py_len :: "pyval \<Rightarrow> nat py" where
  "py_len (PStr s) = Inr (length s)"
| "py_len (PList xs) = Inr (length xs)"
| "py_len (PDict d) = Inr (length d)"
| "py_len _ = Inl TypeError"

text \<open>\<open>v[i]\<close> with a non-negative integer index.\<close>

fun py_index :: "pyval \<Rightarrow> nat \<Rightarrow> pyval py" where
  "py_index (PStr s) i = (if i < length s then Inr (PStr [s ! i]) else Inl IndexError)"
| "py_index (PList xs) i = (if i < length xs then Inr (xs ! i) else Inl IndexError)"
| "py_index (PDict d) i = Inl KeyError"
| "py_index _ i = Inl TypeError"

fun the_strs :: "pyval list \<Rightarrow> string list py" where
  "the_strs [] = Inr []"
| "the_strs (PStr s # vs) = (case the_strs vs of Inl e \<Rightarrow> Inl e | Inr ss \<Rightarrow> Inr (s # ss))"
| "the_strs (_ # vs) = Inl TypeError"

text \<open>\<open>sep.join(v)\<close>: every item of the iteration must be a string.\<close>

definition py_str_join :: "string \<Rightarrow> pyval \<Rightarrow> string py" where
  "py_str_join sep v =
     (case py_iter v of Inl e \<Rightarrow> Inl e
      | Inr items \<Rightarrow> (case the_strs items of Inl e \<Rightarrow> Inl e | Inr ss \<Rightarrow> Inr (py_join sep ss)))"

subsection \<open>\<open>str\<close> and \<open>repr\<close>\<close>

definition hex_char :: "nat \<Rightarrow> char" where
  "hex_char d = (if d < 10 then digit_char d else char_of (87 + d))"

definition py_repr_char :: "char \<Rightarrow> char \<Rightarrow> string" where
  "py_repr_char q c =
     (let n = (of_char c :: nat) in
      if c = q \<or> c = CHR 0x5C then [CHR 0x5C, c]
      else if c = CHR 0x0A then [CHR 0x5C, CHR ''n'']
      else if c = CHR 0x0D then [CHR 0x5C, CHR ''r'']
      else if c = CHR 0x09 then [CHR 0x5C, CHR ''t'']
      else if n < 32 \<or> n = 127 then [CHR 0x5C, CHR ''x'', hex_char (n div 16), hex_char (n mod 16)]
      else [c])"

definition py_repr_str :: "string \<Rightarrow> string" where
  "py_repr_str s =
     (let q = (if CHR 0x27 \<in> set s \<and> CHR 0x22 \<notin> set s then CHR 0x22 else CHR 0x27)
      in q # concat (map (py_repr_char q) s) @ [q])"

fun py_repr :: "pyval \<Rightarrow> string" where
  "py_repr PNone = ''None''"
| "py_repr (PBool b) = (if b then ''True'' else ''False'')"
| "py_repr (PInt i) = dec_int i"
| "py_repr (PStr s) = py_repr_str s"
| "py_repr (PList xs) = CHR ''['' # py_join '', '' (map py_repr xs) @ '']''"
| "py_repr (PDict d) =
     CHR ''{'' # py_join '', '' (map (\<lambda>(k, v). py_repr_str k @ '': '' @ py_repr v) d) @ ''}''"

text \<open>\<open>str(v)\<close>, which an f-string field \<open>{v}\<close> applies.\<close>

fun py_str :: "pyval \<Rightarrow> string" where
  "py_str (PStr s) = s"
| "py_str v = py_repr v"

lemmas py_value_defs [model_simps] = py_str_join_def py_repr_str_def py_repr_char_def hex_char_def

subsection \<open>Profile entries\<close>

text \<open>
  A profile entry is either a dictionary with keys \<open>windows\<close> and \<open>characters\<close>
  or, in the older format, the window list itself:
  \<^verbatim>\<open>
    if isinstance(profile_data, dict):
        initiative = profile_data.get("windows", [])
    else:
        initiative = profile_data
  \<close>
\<close>

definition profile_windows :: "pyval \<Rightarrow> pyval py" where
  "profile_windows pd =
     (case pd of PDict _ \<Rightarrow> py_get pd ''windows'' (PList []) | _ \<Rightarrow> Inr pd)"

text \<open>\<open>characters\<close> exists only in the dictionary format.\<close>

definition profile_characters :: "pyval \<Rightarrow> pyval py" where
  "profile_characters pd =
     (case pd of PDict _ \<Rightarrow> py_get pd ''characters'' (PList []) | _ \<Rightarrow> Inr (PList []))"

text \<open>\<open>profiles.get(profile_name, {})\<close>\<close>

definition profile_entry :: "pyval \<Rightarrow> string \<Rightarrow> pyval py" where
  "profile_entry profiles name = py_get profiles name (PDict [])"

lemmas profile_access_defs [model_simps] =
  profile_windows_def profile_characters_def profile_entry_def

subsection \<open>Facts\<close>

lemma py_str_join_strs [simp]: "py_str_join sep (PList (map PStr ss)) = Inr (py_join sep ss)"
proof -
  have "the_strs (map PStr ss) = Inr ss" by (induction ss) auto
  then show ?thesis by (simp add: py_str_join_def)
qed

lemma the_strs_eq:
  "the_strs xs = (if \<forall>x\<in>set xs. \<exists>s. x = PStr s then Inr (map py_str xs) else Inl TypeError)"
  by (induction xs rule: the_strs.induct) auto

lemma py_iter_Inr_len: "py_iter v = Inr xs \<Longrightarrow> py_len v = Inr (length xs)"
  by (cases v) auto

lemma profile_windows_dict:
  "profile_windows (PDict d) = Inr (case map_of d ''windows'' of Some v \<Rightarrow> v | None \<Rightarrow> PList [])"
  by (simp add: profile_windows_def)

lemma profile_windows_never_fails: "\<exists>v. profile_windows pd = Inr v"
  by (cases pd) (simp_all add: profile_windows_def)

end
