(* ===== verification/World.thy ===== *)
theory World
  imports Values
begin

text \<open>
  The environment the toolbox drives: the file system, the X desktop as the window manager
  reports it, the audio sink inputs, the keystrokes sent to the focused window, and the
  command-line tools (\<open>wmctrl\<close>, \<open>xprop\<close>, \<open>xdotool\<close>) with the effects and outputs the
  program relies on. None of this is repository code; it is written from the tools'
  documented behaviour so that the repository's functions can be run against it. Every
  command the program starts is appended to \<open>cmd_log\<close>, so that the order of the
  program's actions is part of the state.
\<close>

subsection \<open>Paths\<close>

text \<open>A \<open>pathlib.Path\<close>: absolute or relative, and its components, with empty and
  \<open>.\<close> components dropped as \<open>Path(str)\<close> does. (POSIX's special leading
  \<open>//\<close> is not modelled.)\<close>

datatype path = Path bool "string list"

definition path_of_str :: "string \<Rightarrow> path" where
  "path_of_str s =
     Path (s \<noteq> [] \<and> hd s = CHR ''/'')
          (filter (\<lambda>c. c \<noteq> [] \<and> c \<noteq> ''.'') (py_split_char (CHR ''/'') s))"

fun str_of_path :: "path \<Rightarrow> string" where
  "str_of_path (Path True cs) = CHR ''/'' # py_join ''/'' cs"
| "str_of_path (Path False cs) = (if cs = [] then ''.'' else py_join ''/'' cs)"

fun path_parent :: "path \<Rightarrow> path" where
  "path_parent (Path a cs) = Path a (butlast cs)"

fun path_join :: "path \<Rightarrow> string \<Rightarrow> path" where
  "path_join (Path a cs) n = Path a (cs @ [n])"

subsection \<open>Files\<close>

text \<open>A file holds text, or a JSON document: \<open>Json v\<close> is the text \<open>json.dump\<close>
  writes for \<open>v\<close>, which \<open>json.load\<close> reads back as \<open>v\<close>; \<open>Text s\<close> is text that is
  not a JSON document.\<close>

datatype fcontent = Text string | Json pyval

subsection \<open>The desktop\<close>

record xwin =
  wid :: string
  desk :: int
  wpid :: nat
  host :: string
  title :: string
  max_vert :: bool
  max_horz :: bool

record sink_input =
  si_index :: nat
  si_pid :: nat
  si_muted :: bool

record world =
  files :: "path \<Rightarrow> fcontent option"
  modes :: "path \<Rightarrow> nat"
  wins :: "xwin list"
  desk_names :: "string list"
  cur_desk :: nat
  active_win :: "string option"
  sinks :: "sink_input list"
  typed :: string
  tools :: "string list"
  cmd_log :: "argv list"

definition find_win :: "string \<Rightarrow> xwin list \<Rightarrow> xwin option" where
  "find_win i ws = find (\<lambda>x. wid x = i) ws"

definition upd_win :: "string \<Rightarrow> (xwin \<Rightarrow> xwin) \<Rightarrow> xwin list \<Rightarrow> xwin list" where
  "upd_win i f ws = map (\<lambda>x. if wid x = i then f x else x) ws"

subsection \<open>Tool outputs\<close>

text \<open>\<open>wmctrl -l -p\<close>: id, desktop, pid (0 when unknown), client machine, title.
  \<open>wmctrl -l\<close>: the same without the pid. \<open>wmctrl -d\<close>: one line per desktop with
  \<open>*\<close> on the current one. The column padding wmctrl adds is left out: the readers
  below split on runs of blanks.\<close>

definition wmctrl_lp_line :: "xwin \<Rightarrow> string" where
  "wmctrl_lp_line x =
     wid x @ '' '' @ dec_int (desk x) @ '' '' @ dec_nat (wpid x) @ '' '' @ host x @ '' '' @ title x"

definition wmctrl_l_line :: "xwin \<Rightarrow> string" where
  "wmctrl_l_line x = wid x @ '' '' @ dec_int (desk x) @ '' '' @ host x @ '' '' @ title x"

definition wmctrl_d_line :: "nat \<Rightarrow> nat \<Rightarrow> string \<Rightarrow> string" where
  "wmctrl_d_line cur i name =
     dec_nat i @ ''  '' @ (if i = cur then ''*'' else ''-'') @ '' DG: N/A  VP: N/A  WA: N/A  '' @ name"

definition lines_out :: "string list \<Rightarrow> string" where
  "lines_out ls = concat (map (\<lambda>l. l @ ''\<newline>'') ls)"

definition wmctrl_list_p :: "world \<Rightarrow> string" where
  "wmctrl_list_p w = lines_out (map wmctrl_lp_line (wins w))"

definition wmctrl_list :: "world \<Rightarrow> string" where
  "wmctrl_list w = lines_out (map wmctrl_l_line (wins w))"

definition wmctrl_desktops :: "world \<Rightarrow> string" where
  "wmctrl_desktops w =
     lines_out (map (\<lambda>(i, n). wmctrl_d_line (cur_desk w) i n) (zip [0..<length (desk_names w)] (desk_names w)))"

definition xprop_pid :: "xwin \<Rightarrow> string" where
  "xprop_pid x =
     (if wpid x = 0 then ''_NET_WM_PID:  not found.'' else ''_NET_WM_PID(CARDINAL) = '' @ dec_nat (wpid x))"

subsection \<open>Tool effects\<close>

text \<open>\<open>wmctrl -a name\<close> activates the first window whose title contains \<open>name\<close>,
  compared without case, and switches to its desktop.\<close>

definition wm_activate :: "string \<Rightarrow> world \<Rightarrow> (string \<times> int) \<times> world" where
  "wm_activate name w =
     (case find (\<lambda>x. py_in (py_lower name) (py_lower (title x))) (wins w) of
        None \<Rightarrow> (('''', 1), w)
      | Some x \<Rightarrow> (('''', 0), w\<lparr>active_win := Some (wid x),
                               cur_desk := (if 0 \<le> desk x then nat (desk x) else cur_desk w)\<rparr>))"

text \<open>\<open>wmctrl -i -r id ACTION\<close> changes the window with that id; an unknown id fails.\<close>

definition wm_on_win :: "string \<Rightarrow> (xwin \<Rightarrow> xwin) \<Rightarrow> world \<Rightarrow> (string \<times> int) \<times> world" where
  "wm_on_win i f w =
     (case find_win i (wins w) of
        None \<Rightarrow> (('''', 1), w)
      | Some _ \<Rightarrow> (('''', 0), w\<lparr>wins := upd_win i f (wins w)\<rparr>))"

definition exec_tool :: "argv \<Rightarrow> world \<Rightarrow> (string \<times> int) \<times> world" where
  "exec_tool argv w =
     (case argv of
        [a, b] \<Rightarrow>
          if a = ''wmctrl'' \<and> b = ''-l'' then ((wmctrl_list w, 0), w)
          else if a = ''wmctrl'' \<and> b = ''-d'' then ((wmctrl_desktops w, 0), w)
          else (('''', 1), w)
      | [a, b, c] \<Rightarrow>
          if a = ''wmctrl'' \<and> b = ''-l'' \<and> c = ''-p'' then ((wmctrl_list_p w, 0), w)
          else if a = ''wmctrl'' \<and> b = ''-a'' then wm_activate c w
          else if a = ''xdotool'' \<and> b = ''key'' \<and> c = ''Return''
            then (('''', 0), w\<lparr>typed := typed w @ ''\<newline>''\<rparr>)
          else (('''', 1), w)
      | [a, b, c, d] \<Rightarrow>
          if a = ''xprop'' \<and> b = ''-id'' \<and> d = ''_NET_WM_PID''
            then (case find_win c (wins w) of
                    None \<Rightarrow> (('''', 1), w)
                  | Some x \<Rightarrow> ((xprop_pid x, 0), w))
          else if a = ''xdotool'' \<and> b = ''type'' \<and> c = ''--clearmodifiers''
            then (('''', 0), w\<lparr>typed := typed w @ d\<rparr>)
          else (('''', 1), w)
      | [a, b, c, d, e] \<Rightarrow>
          if a = ''wmctrl'' \<and> b = ''-ir'' \<and> d = ''-N''
            then wm_on_win c (\<lambda>x. x\<lparr>title := e\<rparr>) w
          else if a = ''wmctrl'' \<and> b = ''-ir'' \<and> d = ''-b'' \<and> e = ''remove,maximized_vert,maximized_horz''
            then wm_on_win c (\<lambda>x. x\<lparr>max_vert := False, max_horz := False\<rparr>) w
          else if a = ''wmctrl'' \<and> b = ''-ir'' \<and> d = ''-t'' \<and> e \<noteq> [] \<and> (\<forall>ch\<in>set e. is_digit ch)
            then wm_on_win c (\<lambda>x. x\<lparr>desk := int (digits_value e)\<rparr>) w
          else (('''', 1), w)
      | _ \<Rightarrow> (('''', 1), w))"

subsection \<open>\<open>run_cmd\<close>\<close>

text \<open>
  \<^verbatim>\<open>
  def run_cmd(cmd, timeout=5):
      try:
          result = subprocess.run(cmd, capture_output=True, text=True, timeout=timeout)
          return result.stdout.strip(), result.returncode
      except:
          return "", 1
  \<close>
  A program that is not installed raises \<open>FileNotFoundError\<close>, caught as \<open>("", 1)\<close>.
  The tools answer well within the timeout, which is therefore not modelled.
\<close>

definition run_cmd :: "argv \<Rightarrow> world \<Rightarrow> (string \<times> int) \<times> world" where
  "run_cmd cmd w =
     (let w1 = w\<lparr>cmd_log := cmd_log w @ [cmd]\<rparr> in
      if cmd \<noteq> [] \<and> hd cmd \<in> set (tools w)
      then (case exec_tool cmd w1 of ((out, rc), w2) \<Rightarrow> ((py_strip out, rc), w2))
      else (('''', 1), w1))"

text \<open>A command started by a shell script: logged, and a missing program exits with
  status 127; the output is not stripped.\<close>

definition sh_exec :: "argv \<Rightarrow> world \<Rightarrow> (string \<times> int) \<times> world" where
  "sh_exec cmd w =
     (let w1 = w\<lparr>cmd_log := cmd_log w @ [cmd]\<rparr> in
      if cmd \<noteq> [] \<and> hd cmd \<in> set (tools w) then exec_tool cmd w1 else (('''', 127), w1))"

lemmas world_defs [model_simps] =
  find_win_def upd_win_def wmctrl_lp_line_def wmctrl_l_line_def wmctrl_d_line_def lines_out_def
  wmctrl_list_p_def wmctrl_list_def wmctrl_desktops_def xprop_pid_def wm_activate_def
  wm_on_win_def exec_tool_def run_cmd_def sh_exec_def path_of_str_def

subsection \<open>Facts\<close>

lemma wm_activate_files [simp]: "files (snd (wm_activate n w)) = files w"
  by (simp add: wm_activate_def split: option.splits)

lemma wm_on_win_files [simp]: "files (snd (wm_on_win i f w)) = files w"
  by (simp add: wm_on_win_def split: option.splits)

lemma exec_tool_files [simp]: "files (snd (exec_tool c w)) = files w"
  by (simp add: exec_tool_def split: list.splits option.splits)

lemma wm_activate_wins [simp]: "wins (snd (wm_activate n w)) = wins w"
  by (simp add: wm_activate_def split: option.splits)

lemma py_splitlines_lines_out:
  "\<forall>l\<in>set ls. \<forall>c\<in>set l. \<not> py_is_linebreak c \<Longrightarrow>
   py_splitlines_aux [] (lines_out ls @ r) = ls @ py_splitlines_aux [] r"
  by (induction ls) (simp_all add: lines_out_def py_splitlines_aux_line)

text \<open>Stripping the printed lines removes the final newline and nothing else when the
  first line does not start and the last does not end with whitespace.\<close>

lemma py_strip_lines_out:
  assumes "ls \<noteq> []" "\<forall>l\<in>set ls. l \<noteq> [] \<and> \<not> py_isspace (hd l) \<and> \<not> py_isspace (last l)"
  shows "py_strip (lines_out ls) = lines_out (butlast ls) @ last ls"
proof -
  have ls: "ls = butlast ls @ [last ls]" using assms(1) by simp
  have l: "last ls \<noteq> []" "\<not> py_isspace (last (last ls))" "\<not> py_isspace (hd (hd ls))"
    using assms by simp_all
  have out: "lines_out ls = lines_out (butlast ls) @ last ls @ ''\<newline>''"
    by (subst ls) (simp add: lines_out_def)
  have "py_lstrip (lines_out ls) = lines_out ls"
  proof -
    obtain a as b bs where "ls = a # as" "a = b # bs" "\<not> py_isspace b"
      using assms by (cases ls; cases "hd ls") auto
    then show ?thesis by (simp add: lines_out_def py_lstrip_def)
  qed
  moreover have "py_rstrip (lines_out (butlast ls) @ last ls @ ''\<newline>'') = lines_out (butlast ls) @ last ls"
  proof -
    obtain y ys where "rev (last ls) = y # ys" "\<not> py_isspace y" using l(1,2)
      by (cases "rev (last ls)") (auto simp: last_rev[symmetric] hd_rev)
    then show ?thesis by (simp add: py_rstrip_def py_isspace_def rev_swap[symmetric])
  qed
  ultimately show ?thesis using out by (simp add: py_strip_def)
qed

lemma py_splitlines_strip_lines_out:
  assumes "\<forall>l\<in>set ls. l \<noteq> [] \<and> (\<forall>c\<in>set l. \<not> py_is_linebreak c) \<and>
                      \<not> py_isspace (hd l) \<and> \<not> py_isspace (last l)"
  shows "py_splitlines (py_strip (lines_out ls)) = ls"
proof (cases "ls = []")
  case True
  then show ?thesis by (simp add: lines_out_def py_strip_def py_lstrip_def py_rstrip_def py_splitlines_def)
next
  case False
  then have ls: "ls = butlast ls @ [last ls]" by simp
  have "\<forall>l\<in>set (butlast ls). \<forall>c\<in>set l. \<not> py_is_linebreak c" "last ls \<noteq> []"
    "\<forall>c\<in>set (last ls). \<not> py_is_linebreak c"
    using assms False by (auto dest: in_set_butlastD)
  with False assms show ?thesis
    by (subst (2) ls) (simp add: py_strip_lines_out py_splitlines_def py_splitlines_lines_out
                       py_splitlines_aux_plain)
qed

lemma upd_win_absent: "find_win i ws = None \<Longrightarrow> upd_win i f ws = ws"
  by (induction ws) (auto simp: find_win_def upd_win_def)

lemma wm_on_win_wins [simp]: "wins (snd (wm_on_win i f w)) = upd_win i f (wins w)"
  by (simp add: wm_on_win_def upd_win_absent split: option.splits)

lemma wm_on_win_keeps [simp]:
  "tools (snd (wm_on_win i f w)) = tools w" "sinks (snd (wm_on_win i f w)) = sinks w"
  by (simp_all add: wm_on_win_def split: option.splits)

lemma exec_tool_sinks [simp]: "sinks (snd (exec_tool c w)) = sinks w"
  by (simp add: exec_tool_def wm_activate_def wm_on_win_def split: list.splits option.splits)

lemma run_cmd_sinks [simp]: "sinks (snd (run_cmd c w)) = sinks w"
  by (simp add: run_cmd_def Let_def split_def)

lemma run_cmd_wmctrl_ir:
  assumes "''wmctrl'' \<in> set (tools w)"
  shows "snd (run_cmd [''wmctrl'', ''-ir'', i, ''-b'', ''remove,maximized_vert,maximized_horz''] w) =
           snd (wm_on_win i (\<lambda>x. x\<lparr>max_vert := False, max_horz := False\<rparr>)
                  (w\<lparr>cmd_log := cmd_log w @ [[''wmctrl'', ''-ir'', i, ''-b'', ''remove,maximized_vert,maximized_horz'']]\<rparr>))"
    and "snd (run_cmd [''wmctrl'', ''-ir'', i, ''-N'', n] w) =
           snd (wm_on_win i (\<lambda>x. x\<lparr>title := n\<rparr>) (w\<lparr>cmd_log := cmd_log w @ [[''wmctrl'', ''-ir'', i, ''-N'', n]]\<rparr>))"
  using assms by (simp_all add: run_cmd_def exec_tool_def split: prod.splits)

lemma run_cmd_xprop:
  assumes "''xprop'' \<in> set (tools w)"
  shows "run_cmd [''xprop'', ''-id'', i, ''_NET_WM_PID''] w =
           ((case find_win i (wins w) of None \<Rightarrow> [] | Some x \<Rightarrow> py_strip (xprop_pid x),
             if find_win i (wins w) = None then 1 else 0),
            w\<lparr>cmd_log := cmd_log w @ [[''xprop'', ''-id'', i, ''_NET_WM_PID'']]\<rparr>)"
  using assms by (simp add: run_cmd_def exec_tool_def py_strip_def py_lstrip_def py_rstrip_def
                  split: option.splits)

lemma run_cmd_xprop_state:
  "snd (run_cmd [''xprop'', ''-id'', i, ''_NET_WM_PID''] w) =
     w\<lparr>cmd_log := cmd_log w @ [[''xprop'', ''-id'', i, ''_NET_WM_PID'']]\<rparr>"
  by (simp add: run_cmd_def Let_def split_def exec_tool_def split: option.splits)

end
