(* ===== verification/Store.thy ===== *)
theory Store
  imports World
begin

text \<open>
  The profile store of \<open>src/dofus_control_gui.py\<close> (lines 37--55): the JSON file at the
  module global \<open>PROFILES_FILE\<close>, holding an object with a \<open>profiles\<close> dictionary
  (profile name to profile entry) and the name of the \<open>active\<close> profile. The global is
  passed explicitly; it is \<open>None\<close> until a profile file has been chosen.
\<close>

text \<open>
  \<^verbatim>\<open>
  def load_data() -> Dict:
      try:
          with open(PROFILES_FILE, 'r') as f:
              return json.load(f)
      except:
          return {}
  \<close>
  \<open>open(None)\<close>, a missing file and text that is not JSON all end in \<open>{}\<close>; a JSON
  document is returned whatever its top-level value.
\<close>

definition load_data :: "path option \<Rightarrow> world \<Rightarrow> pyval" where
  "load_data pf w =
     (case pf of
        None \<Rightarrow> PDict []
      | Some p \<Rightarrow> (case files w p of Some (Json v) \<Rightarrow> v | _ \<Rightarrow> PDict []))"

text \<open>\<open>save_data(data)\<close>: nothing catches \<open>open(None, 'w')\<close>, a \<open>TypeError\<close>.\<close>

definition save_data :: "path option \<Rightarrow> pyval \<Rightarrow> world \<Rightarrow> world py" where
  "save_data pf v w =
     (case pf of
        None \<Rightarrow> Inl TypeError
      | Some p \<Rightarrow> Inr (w\<lparr>files := (files w)(p \<mapsto> Json v)\<rparr>))"

text \<open>\<open>load_profiles()\<close>: \<open>data.get("profiles", {}), data.get("active", "")\<close>, which
  raises \<open>AttributeError\<close> when the document is not an object.\<close>

definition load_profiles :: "path option \<Rightarrow> world \<Rightarrow> (pyval \<times> pyval) py" where
  "load_profiles pf w =
     (let data = load_data pf w in
      case py_get data ''profiles'' (PDict []) of
        Inl e \<Rightarrow> Inl e
      | Inr ps \<Rightarrow> (case py_get data ''active'' (PStr []) of
                   Inl e \<Rightarrow> Inl e
                 | Inr a \<Rightarrow> Inr (ps, a)))"

text \<open>\<open>save_initiative(name)\<close>: \<open>data["active"] = name\<close> on the loaded document, then
  \<open>save_data(data)\<close>.\<close>

definition save_initiative :: "path option \<Rightarrow> string \<Rightarrow> world \<Rightarrow> world py" where
  "save_initiative pf name w =
     (case py_setitem (load_data pf w) ''active'' (PStr name) of
        Inl e \<Rightarrow> Inl e
      | Inr data \<Rightarrow> save_data pf data w)"

lemmas store_defs [model_simps] = load_data_def save_data_def load_profiles_def save_initiative_def

subsection \<open>Facts\<close>

lemma load_data_saved: "load_data (Some p) (w\<lparr>files := (files w)(p \<mapsto> Json v)\<rparr>) = v"
  by (simp add: load_data_def)

lemma save_data_other_files:
  "save_data (Some p) v w = Inr w' \<Longrightarrow> q \<noteq> p \<Longrightarrow> files w' q = files w q"
  by (auto simp: save_data_def)

lemma load_profiles_dict:
  "load_data pf w = PDict d \<Longrightarrow>
   load_profiles pf w = Inr (case map_of d ''profiles'' of Some v \<Rightarrow> v | None \<Rightarrow> PDict [],
                              case map_of d ''active'' of Some v \<Rightarrow> v | None \<Rightarrow> PStr [])"
  by (simp add: load_profiles_def)

end
