(* ===== verification/Shell.thy ===== *)
theory Shell
  imports World
begin

text \<open>
  The parts of bash and of the text tools that the program's shell code uses: integer
  remainder, array subscripts, word splitting, command substitution and the value of a
  variable in arithmetic (the cycle scripts); the quoting of an array literal (their
  \<open>CLASS_INI\<close> line); and a reader and runner for the \<open>bash -c\<close> script of
  \<open>&&\<close>-chained pipelines of \<open>pactl\<close>, \<open>grep\<close>, \<open>awk\<close>, \<open>cut\<close> and \<open>xargs\<close> that
  \<open>rename_windows\<close> starts. Written from the bash and POSIX manuals; like \<open>World\<close>,
  this is the environment, not repository code.
\<close>

text \<open>bash's \<open>%\<close> is C's: the remainder takes the sign of the dividend.\<close>

definition bash_mod :: "int \<Rightarrow> int \<Rightarrow> int" where
  "bash_mod a b = sgn a * (\<bar>a\<bar> mod \<bar>b\<bar>)"

text \<open>\<open>${A[k]}\<close>: a negative subscript counts from the end; an unset element expands to
  the empty word.\<close>

definition bash_array_get :: "string list \<Rightarrow> int \<Rightarrow> string" where
  "bash_array_get xs k =
     (let n = int (length xs); j = (if k < 0 then n + k else k) in
      if 0 \<le> j \<and> j < n then xs ! nat j else [])"

definition is_blank :: "char \<Rightarrow> bool" where
  "is_blank c \<longleftrightarrow> c = CHR '' '' \<or> c = CHR 0x09 \<or> c = CHR 0x0A"

text \<open>Word splitting with the default \<open>IFS\<close>, and awk's default field splitting.\<close>

definition bash_words :: "string \<Rightarrow> string list" where
  "bash_words s = words_by is_blank [] s"

definition awk_field :: "nat \<Rightarrow> string \<Rightarrow> string" where
  "awk_field n l = (let fs = words_by is_blank [] l in if 0 < n \<and> n \<le> length fs then fs ! (n - 1) else [])"

text \<open>\<open>cut -d D -f2\<close>: a line without the delimiter is printed whole.\<close>

definition cut_f2 :: "char \<Rightarrow> string \<Rightarrow> string" where
  "cut_f2 d l = (if d \<notin> set l then l else py_split_char d l ! 1)"

text \<open>The lines of a text, each ended by a newline as the tools print them.\<close>

definition text_lines :: "string \<Rightarrow> string list" where
  "text_lines s = (let ls = py_split_char (CHR 0x0A) s in if last ls = [] then butlast ls else ls)"

text \<open>\<open>$(cmd)\<close> removes the trailing newlines of the output.\<close>

definition bash_cmdsubst :: "string \<Rightarrow> string" where
  "bash_cmdsubst s = rev (dropWhile (\<lambda>c. c = CHR 0x0A) (rev s))"

text \<open>
  The value of a variable's content in \<open>$(( ))\<close>: bash evaluates the content as an
  arithmetic expression. Modelled are blanks around it, one sign, and then an integer
  constant (decimal; octal with a leading \<open>0\<close>; hexadecimal after \<open>0x\<close> or \<open>0X\<close>; a digit
  too large for its base is an error) or a variable name. A name the script does not set
  is taken to be unset in the environment, with value 0; the names of the script's own
  variables and every other expression (operators, several operands) are outside the
  model and read as an error. \<open>None\<close> is the arithmetic error, which stops the script
  with status 1.
\<close>

definition strip_blanks :: "string \<Rightarrow> string" where
  "strip_blanks s = rev (dropWhile is_blank (rev (dropWhile is_blank s)))"

definition is_name_start :: "char \<Rightarrow> bool" where
  "is_name_start c \<longleftrightarrow>
     c = CHR ''_'' \<or> (97 \<le> (of_char c :: nat) \<and> of_char c \<le> (122::nat)) \<or> (65 \<le> (of_char c :: nat) \<and> of_char c \<le> (90::nat))"

definition script_vars :: "string list" where
  "script_vars = [''STATE_FILE'', ''CLASS_INI'', ''AVAILABLE'', ''INDEX'', ''TOTAL'', ''i'', ''NEXT'', ''CLASS_NAME'']"

definition hex_digit :: "char \<Rightarrow> nat option" where
  "hex_digit c =
     (if is_digit c then Some (char_digit c)
      else if 97 \<le> (of_char c :: nat) \<and> of_char c \<le> (102::nat) then Some (of_char c - 87)
      else if 65 \<le> (of_char c :: nat) \<and> of_char c \<le> (70::nat) then Some (of_char c - 55)
      else None)"

definition octal_value :: "string \<Rightarrow> nat" where
  "octal_value s = foldl (\<lambda>acc c. 8 * acc + char_digit c) 0 s"

definition hex_value :: "string \<Rightarrow> nat" where
  "hex_value s = foldl (\<lambda>acc c. 16 * acc + the (hex_digit c)) 0 s"

definition bash_operand :: "string \<Rightarrow> int option" where
  "bash_operand s =
     (if s = [] then None
      else if 2 \<le> length s \<and> hd s = CHR ''0'' \<and> (s ! 1 = CHR ''x'' \<or> s ! 1 = CHR ''X'')
        then (if drop 2 s \<noteq> [] \<and> (\<forall>c\<in>set (drop 2 s). hex_digit c \<noteq> None)
              then Some (int (hex_value (drop 2 s))) else None)
      else if \<forall>c\<in>set s. is_digit c
        then (if hd s = CHR ''0'' \<and> 1 < length s
              then (if \<forall>c\<in>set s. char_digit c < 8 then Some (int (octal_value s)) else None)
              else Some (int (digits_value s)))
      else if is_name_start (hd s) \<and> (\<forall>c\<in>set s. is_name_start c \<or> is_digit c)
        then (if s \<in> set script_vars then None else Some 0)
      else None)"

definition bash_read_number :: "string \<Rightarrow> int option" where
  "bash_read_number s =
     (let t = strip_blanks s in
      if t = [] then Some 0
      else if hd t = CHR ''-'' then map_option uminus (bash_operand (strip_blanks (tl t)))
      else if hd t = CHR ''+'' then bash_operand (strip_blanks (tl t))
      else bash_operand t)"

lemmas shell_defs [model_simps] =
  bash_mod_def bash_array_get_def is_blank_def bash_words_def awk_field_def cut_f2_def
  text_lines_def bash_cmdsubst_def strip_blanks_def is_name_start_def script_vars_def hex_digit_def
  octal_value_def hex_value_def bash_operand_def bash_read_number_def

subsection \<open>Facts\<close>

lemma bash_mod_nonneg [simp]: "0 \<le> a \<Longrightarrow> 0 < b \<Longrightarrow> bash_mod a b = a mod b"
  by (cases "a = 0") (simp_all add: bash_mod_def)

lemma bash_array_get_nth [simp]:
  "0 \<le> k \<Longrightarrow> k < int (length xs) \<Longrightarrow> bash_array_get xs k = xs ! nat k"
  by (simp add: bash_array_get_def)

lemma bash_cmdsubst_newline [simp]:
  "CHR 0x0A \<notin> set s \<Longrightarrow> bash_cmdsubst (s @ ''\<newline>'') = s"
proof -
  assume "CHR 0x0A \<notin> set s"
  then have "dropWhile (\<lambda>c. c = CHR 0x0A) (rev s) = rev s"
    by (cases "rev s") auto
  then show ?thesis by (simp add: bash_cmdsubst_def)
qed

text \<open>What the scripts write with \<open>echo "$NEXT"\<close> reads back as the same number.\<close>

lemma strip_blanks_digits: "\<forall>c\<in>set s. is_digit c \<Longrightarrow> strip_blanks s = s"
proof -
  assume d: "\<forall>c\<in>set s. is_digit c"
  then have nb: "\<forall>c\<in>set s. \<not> is_blank c" by (auto simp: is_digit_def is_blank_def)
  then have "dropWhile is_blank s = s" by (cases s) auto
  moreover have "dropWhile is_blank (rev s) = rev s" using nb by (cases "rev s") auto
  ultimately show ?thesis by (simp add: strip_blanks_def)
qed

lemma bash_operand_dec:
  assumes "s \<noteq> []" "\<forall>c\<in>set s. is_digit c" "\<not> (hd s = CHR ''0'' \<and> 1 < length s)"
  shows "bash_operand s = Some (int (digits_value s))"
proof -
  have "\<not> (2 \<le> length s \<and> hd s = CHR ''0'' \<and> (s ! 1 = CHR ''x'' \<or> s ! 1 = CHR ''X''))"
    using assms(3) by auto
  then show ?thesis using assms unfolding bash_operand_def by (simp only: if_False if_True) simp
qed

lemma bash_read_dec_nat: "bash_read_number (dec_nat n) = Some (int n)"
proof -
  have digits: "\<forall>c\<in>set (dec_nat n). is_digit c" by (rule dec_nat_digits)
  have lead: "\<not> (hd (dec_nat n) = CHR ''0'' \<and> 1 < length (dec_nat n))"
  proof
    assume h: "hd (dec_nat n) = CHR ''0'' \<and> 1 < length (dec_nat n)"
    then have "n = 0" by (simp add: dec_nat_hd)
    with h show False by (simp add: dec_nat.simps)
  qed
  have "is_digit (hd (dec_nat n))" using digits dec_nat_nonempty[of n] by simp
  then have "hd (dec_nat n) \<noteq> CHR ''-''" "hd (dec_nat n) \<noteq> CHR ''+''" by (auto simp: is_digit_def)
  then show ?thesis
    using bash_operand_dec[OF dec_nat_nonempty digits lead]
    by (simp add: bash_read_number_def strip_blanks_digits[OF digits] Let_def)
qed

lemma cut_f2_no_delim: "d \<notin> set (cut_f2 d l)"
proof (cases "d \<in> set l")
  case True
  then have "filter ((=) d) l \<noteq> []" by (simp add: filter_empty_conv)
  then have "1 < length (py_split_char d l)" by (simp add: py_split_char_length)
  then have "py_split_char d l ! 1 \<in> set (py_split_char d l)" by simp
  with True show ?thesis by (simp add: cut_f2_def py_split_char_fields)
next
  case False
  then show ?thesis by (simp add: cut_f2_def)
qed

lemma lines_out_chars: "c \<in> set (lines_out ls) \<Longrightarrow> c = CHR 0x0A \<or> (\<exists>l\<in>set ls. c \<in> set l)"
  by (auto simp: lines_out_def split: if_splits)

lemma newline_not_digit: "CHR 0x0A \<notin> set (dec_nat n)"
  using dec_nat_digits[of n] by (auto simp: is_digit_def)

subsection \<open>The audio mute pipeline\<close>

text \<open>\<open>pactl list sink-inputs\<close>: a block per sink input, headed \<open>Sink Input #N\<close>, with
  the owning process id among its properties (only the lines the pipeline can react to
  are listed; pactl prints more of them between the header and the properties).\<close>

definition pactl_sink_lines :: "sink_input \<Rightarrow> string list" where
  \<open>pactl_sink_lines s =
     [''Sink Input #'' @ dec_nat (si_index s),
      CHR 0x09 # ''Driver: protocol-native.c'',
      CHR 0x09 # ''Mute: '' @ (if si_muted s then ''yes'' else ''no''),
      CHR 0x09 # ''Properties:'',
      CHR 0x09 # CHR 0x09 # ''application.process.id = '' @ CHR 0x22 # dec_nat (si_pid s) @ [CHR 0x22]]\<close>

definition pactl_listing :: "world \<Rightarrow> string list" where
  "pactl_listing w = (if ''pactl'' \<in> set (tools w) then concat (map pactl_sink_lines (sinks w)) else [])"

text \<open>\<open>grep -B n PAT\<close>: the matching lines and the \<open>n\<close> lines before each, in order
  (the \<open>--\<close> separators grep adds between groups are dropped by the next stage).\<close>

definition grep_before :: "nat \<Rightarrow> (string \<Rightarrow> bool) \<Rightarrow> string list \<Rightarrow> string list" where
  "grep_before n P ls =
     map snd (filter (\<lambda>(i, l). \<exists>j\<in>set [i..<min (Suc (i + n)) (length ls)]. P (ls ! j))
                     (zip [0..<length ls] ls))"

text \<open>\<open>pactl set-sink-input-mute ARG 1\<close>: \<open>ARG\<close> must be the decimal index of a sink
  input.\<close>

definition pactl_set_mute :: "string \<Rightarrow> world \<Rightarrow> int \<times> world" where
  "pactl_set_mute arg w =
     (if ''pactl'' \<in> set (tools w) \<and> arg \<noteq> [] \<and> (\<forall>c\<in>set arg. is_digit c) \<and>
         (\<exists>s\<in>set (sinks w). si_index s = digits_value arg)
      then (0, w\<lparr>sinks := map (\<lambda>s. if si_index s = digits_value arg then s\<lparr>si_muted := True\<rparr> else s)
                                (sinks w)\<rparr>)
      else (1, w))"

text \<open>\<open>xargs -r -I {} pactl set-sink-input-mute {} 1\<close>: one call per non-empty input
  line; status 123 when a call failed.\<close>

fun xargs_mute :: "string list \<Rightarrow> world \<Rightarrow> int \<times> world" where
  "xargs_mute [] w = (0, w)"
| "xargs_mute (a # as) w =
     (case pactl_set_mute a w of (rc, w1) \<Rightarrow>
        (case xargs_mute as w1 of (rc', w2) \<Rightarrow> (if rc = 0 \<and> rc' = 0 then 0 else 123, w2)))"

subsection \<open>The background script\<close>

text \<open>
  \<open>bash -c SCRIPT\<close> for the scripts \<open>rename_windows\<close> starts: a list \<open>p\<^sub>1 && p\<^sub>2 && \<dots>\<close>
  of pipelines \<open>c\<^sub>1 | c\<^sub>2 | \<dots>\<close>, split at the separators. Each command is read into one of
  the forms below, with its arguments: \<open>pactl list sink-inputs\<close>, \<open>grep -Bn 'PAT'\<close>,
  \<open>grep 'PAT'\<close>, \<open>awk '{print $n}'\<close>, \<open>cut -d'D' -f2\<close> and
  \<open>xargs -r -I {} pactl set-sink-input-mute {} 1\<close>, each possibly followed by
  \<open>2>/dev/null\<close>. Patterns are matched as fixed strings (a \<open>.\<close> in a pattern only meets
  itself in what pactl prints). A command of any other form, or one cut apart by a
  separator inside quotes, is outside the model and fails like a command that is not
  installed.
\<close>

datatype sh_cmd =
    PactlList | GrepBefore nat string | GrepLines string | AwkPrint nat | CutF2 char | XargsMute
  | OtherCmd

text \<open>The pieces of a text between the occurrences of a separator, scanned from the left.\<close>

function split_on :: "string \<Rightarrow> string \<Rightarrow> string \<Rightarrow> string list" where
  "split_on sep acc [] = [acc]"
| "split_on sep acc (c # s) =
     (if sep \<noteq> [] \<and> take (length sep) (c # s) = sep
      then acc # split_on sep [] (drop (length sep) (c # s))
      else split_on sep (acc @ [c]) s)"
  by pat_completeness auto
termination by (relation "measure (\<lambda>(sep, acc, s). length s)") auto

text \<open>A single-quoted word \<open>'...'\<close> and its contents.\<close>

definition sq_arg :: "string \<Rightarrow> string option" where
  "sq_arg s =
     (if 2 \<le> length s \<and> hd s = CHR 0x27 \<and> last s = CHR 0x27 \<and> CHR 0x27 \<notin> set (butlast (tl s))
      then Some (butlast (tl s)) else None)"

definition drop_devnull :: "string \<Rightarrow> string" where
  "drop_devnull c = (if take 12 (rev c) = rev '' 2>/dev/null'' then rev (drop 12 (rev c)) else c)"

definition parse_cmd :: "string \<Rightarrow> sh_cmd" where
  "parse_cmd c0 =
     (let c = drop_devnull c0 in
      if c = ''pactl list sink-inputs'' then PactlList
      else if c = ''xargs -r -I {} pactl set-sink-input-mute {} 1'' then XargsMute
      else if take 7 c = ''grep -B'' then
        (let r = drop 7 c; ds = takeWhile is_digit r; r2 = dropWhile is_digit r in
         if ds \<noteq> [] \<and> take 1 r2 = '' '' then
           (case sq_arg (drop 1 r2) of Some p \<Rightarrow> GrepBefore (digits_value ds) p | None \<Rightarrow> OtherCmd)
         else OtherCmd)
      else if take 5 c = ''grep '' then
        (case sq_arg (drop 5 c) of Some p \<Rightarrow> GrepLines p | None \<Rightarrow> OtherCmd)
      else if take 4 c = ''awk '' then
        (case sq_arg (drop 4 c) of
           Some p \<Rightarrow>
             (let ds = butlast (drop 8 p) in
              if take 8 p = ''{print $'' \<and> 8 < length p \<and> last p = CHR ''}'' \<and> ds \<noteq> [] \<and>
                 (\<forall>ch\<in>set ds. is_digit ch)
              then AwkPrint (digits_value ds) else OtherCmd)
         | None \<Rightarrow> OtherCmd)
      else if length c = 13 \<and> take 6 c = ''cut -d'' \<and> c ! 6 = CHR 0x27 \<and> c ! 8 = CHR 0x27 \<and>
              drop 9 c = '' -f2''
        then CutF2 (c ! 7)
      else OtherCmd)"

text \<open>A pipeline: the lines each command prints are the next one's input; its status is
  the last command's. \<open>grep\<close> fails when it selects no line.\<close>

fun run_cmds :: "sh_cmd list \<Rightarrow> string list \<Rightarrow> int \<Rightarrow> world \<Rightarrow> int \<times> world" where
  "run_cmds [] ls rc w = (rc, w)"
| "run_cmds (PactlList # cs) ls rc w =
     run_cmds cs (pactl_listing w) (if ''pactl'' \<in> set (tools w) then 0 else 127) w"
| "run_cmds (GrepBefore n p # cs) ls rc w =
     (let out = grep_before n (py_in p) ls in run_cmds cs out (if out = [] then 1 else 0) w)"
| "run_cmds (GrepLines p # cs) ls rc w =
     (let out = filter (py_in p) ls in run_cmds cs out (if out = [] then 1 else 0) w)"
| "run_cmds (AwkPrint n # cs) ls rc w = run_cmds cs (map (awk_field n) ls) 0 w"
| "run_cmds (CutF2 d # cs) ls rc w = run_cmds cs (map (cut_f2 d) ls) 0 w"
| "run_cmds (XargsMute # cs) ls rc w =
     (case xargs_mute (filter (\<lambda>a. a \<noteq> []) ls) w of (rc', w') \<Rightarrow> run_cmds cs [] rc' w')"
| "run_cmds (OtherCmd # cs) ls rc w = run_cmds cs [] 127 w"

definition run_pipeline :: "string \<Rightarrow> world \<Rightarrow> int \<times> world" where
  "run_pipeline p w = run_cmds (map parse_cmd (split_on '' | '' [] p)) [] 0 w"

text \<open>\<open>p1 && p2 && ...\<close>: each pipeline runs when the previous one succeeded.\<close>

fun run_and_list :: "string list \<Rightarrow> world \<Rightarrow> world" where
  "run_and_list [] w = w"
| "run_and_list (p # ps) w = (case run_pipeline p w of (rc, w1) \<Rightarrow> if rc = 0 then run_and_list ps w1 else w1)"

text \<open>\<open>subprocess.Popen(['bash', '-c', script])\<close>: the process runs in the background;
  its effect is applied at once.\<close>

definition popen_bash :: "string \<Rightarrow> world \<Rightarrow> world" where
  "popen_bash script w =
     run_and_list (split_on '' && '' [] script) (w\<lparr>cmd_log := cmd_log w @ [[''bash'', ''-c'', script]]\<rparr>)"

lemmas audio_defs [model_simps] =
  pactl_sink_lines_def pactl_listing_def grep_before_def pactl_set_mute_def sq_arg_def
  drop_devnull_def parse_cmd_def run_pipeline_def popen_bash_def

subsection \<open>The mute pipeline has no effect\<close>

lemma grep_before_subset: "set (grep_before n P ls) \<subseteq> set ls"
  by (auto simp: grep_before_def dest: set_zip_rightD)

lemma no_S_not_sink_input: "CHR ''S'' \<notin> set l \<Longrightarrow> \<not> py_in ''Sink Input'' l"
  using set_mono_sublist by (fastforce simp: py_in_iff_sublist)

lemma pactl_sink_input_lines:
  assumes "l \<in> set (pactl_listing w)" "py_in ''Sink Input'' l"
  shows "\<exists>i. l = ''Sink Input #'' @ dec_nat i"
proof -
  obtain s where "l \<in> set (pactl_sink_lines s)"
    using assms(1) by (auto simp: pactl_listing_def split: if_splits)
  moreover have "CHR ''S'' \<notin> set (dec_nat n)" for n
    using dec_nat_digits[of n] by (auto simp: is_digit_def)
  ultimately have "l = ''Sink Input #'' @ dec_nat (si_index s) \<or> CHR ''S'' \<notin> set l"
    by (auto simp: pactl_sink_lines_def split: if_splits)
  with assms(2) show ?thesis by (auto dest: no_S_not_sink_input)
qed

lemma awk_sink_index: "awk_field 3 (''Sink Input #'' @ dec_nat i) = CHR ''#'' # dec_nat i"
proof -
  have "\<forall>c\<in>set (dec_nat i). \<not> is_blank c"
    using dec_nat_digits[of i] by (auto simp: is_digit_def is_blank_def)
  then show ?thesis by (simp add: awk_field_def words_by_no_sep is_blank_def)
qed

lemma pactl_set_mute_hash: "pactl_set_mute (CHR ''#'' # s) w = (1, w)"
  by (simp add: pactl_set_mute_def is_digit_def)

lemma xargs_mute_failing: "\<forall>a\<in>set as. pactl_set_mute a w = (1, w) \<Longrightarrow> snd (xargs_mute as w) = w"
  by (induction as) (auto split: prod.splits)

text \<open>No line the pipeline hands to \<open>xargs\<close> is a sink-input index: each is \<open>#N\<close>.\<close>

lemma sink_headers_fail:
  "\<forall>a\<in>set (filter (\<lambda>a. a \<noteq> []) (map (awk_field 3)
                (filter (py_in ''Sink Input'') (grep_before n P (pactl_listing w))))).
     pactl_set_mute a w = (1, w)"
proof
  fix a
  assume "a \<in> set (filter (\<lambda>a. a \<noteq> []) (map (awk_field 3)
                (filter (py_in ''Sink Input'') (grep_before n P (pactl_listing w)))))"
  then obtain l where "l \<in> set (pactl_listing w)" "py_in ''Sink Input'' l" "a = awk_field 3 l"
    using grep_before_subset by fastforce
  then obtain i where "a = awk_field 3 (''Sink Input #'' @ dec_nat i)"
    using pactl_sink_input_lines by blast
  then show "pactl_set_mute a w = (1, w)" by (simp only: awk_sink_index pactl_set_mute_hash)
qed

lemma xargs_mute_sinks_only: "xargs_mute as w = (rc, w') \<Longrightarrow> \<exists>ss. w' = w\<lparr>sinks := ss\<rparr>"
proof (induction as arbitrary: w rc w')
  case (Cons a as)
  obtain rc1 w1 where p: "pactl_set_mute a w = (rc1, w1)" by fastforce
  then have "w1 = w\<lparr>sinks := sinks w1\<rparr>" by (auto simp: pactl_set_mute_def split: if_splits)
  then obtain ss1 where w1: "w1 = w\<lparr>sinks := ss1\<rparr>" by blast
  obtain rc2 w2 where x: "xargs_mute as w1 = (rc2, w2)" by fastforce
  with Cons.IH obtain ss where "w2 = w1\<lparr>sinks := ss\<rparr>" by blast
  with Cons.prems p x w1 show ?case by auto
next
  case Nil
  then show ?case by (intro exI[of _ "sinks w"]) simp
qed

lemma run_cmds_sinks_only: "run_cmds cs ls rc w = (rc', w') \<Longrightarrow> \<exists>ss. w' = w\<lparr>sinks := ss\<rparr>"
proof (induction cs ls rc w arbitrary: rc' w' rule: run_cmds.induct)
  case (1 ls rc w)
  then show ?case by (intro exI[of _ "sinks w"]) simp
next
  case (7 cs ls rc w)
  obtain rc1 w1 where x: "xargs_mute (filter (\<lambda>a. a \<noteq> []) ls) w = (rc1, w1)" by fastforce
  then obtain ss1 where "w1 = w\<lparr>sinks := ss1\<rparr>" by (blast dest: xargs_mute_sinks_only)
  with 7 x show ?case by fastforce
qed (simp_all add: Let_def)

lemma run_and_list_sinks_only: "\<exists>ss. run_and_list ps w = w\<lparr>sinks := ss\<rparr>"
proof (induction ps w rule: run_and_list.induct)
  case (1 w)
  then show ?case by (intro exI[of _ "sinks w"]) simp
next
  case (2 p ps w)
  obtain rc w1 where r: "run_pipeline p w = (rc, w1)" by fastforce
  then obtain ss1 where "w1 = w\<lparr>sinks := ss1\<rparr>" by (auto simp: run_pipeline_def dest: run_cmds_sinks_only)
  with 2 r show ?case by fastforce
qed

text \<open>Whatever script it is given, the background shell changes nothing but the sink
  inputs, and it logs its command line.\<close>

lemma popen_bash_sinks_only:
  "\<exists>ss. popen_bash script w = w\<lparr>cmd_log := cmd_log w @ [[''bash'', ''-c'', script]], sinks := ss\<rparr>"
  using run_and_list_sinks_only[of "split_on '' && '' [] script"
          "w\<lparr>cmd_log := cmd_log w @ [[''bash'', ''-c'', script]]\<rparr>"]
  by (simp add: popen_bash_def)

lemma popen_bash_wins [simp]: "wins (popen_bash script w) = wins w"
proof -
  obtain ss where "popen_bash script w = w\<lparr>cmd_log := cmd_log w @ [[''bash'', ''-c'', script]], sinks := ss\<rparr>"
    using popen_bash_sinks_only by blast
  then show ?thesis by simp
qed

lemma drop_devnull_quote_end: "drop_devnull (s @ [CHR 0x27]) = s @ [CHR 0x27]"
  by (simp add: drop_devnull_def)

lemma sq_arg_quoted: "CHR 0x27 \<notin> set p \<Longrightarrow> sq_arg (CHR 0x27 # p @ [CHR 0x27]) = Some p"
  by (simp add: sq_arg_def butlast_append)

subsection \<open>Splitting at a separator\<close>

text \<open>A separator \<open>x c \<dots>\<close> with \<open>x \<noteq> c\<close> cannot start inside a text free of \<open>c\<close>, nor
  straddle its end.\<close>

lemma split_on_sep:
  assumes "sep = x # c # r" "x \<noteq> c" "c \<notin> set a"
  shows "split_on sep acc (a @ sep @ b) = (acc @ a) # split_on sep [] b"
  using assms(3)
proof (induction a arbitrary: acc)
  case Nil
  then show ?case using assms(1) by simp
next
  case (Cons y a)
  have "take (length sep) (y # a @ sep @ b) \<noteq> sep"
  proof
    assume t: "take (length sep) (y # a @ sep @ b) = sep"
    have "take (length sep) (y # a @ sep @ b) ! 1 = (y # a @ sep @ b) ! 1"
      by (rule nth_take) (simp add: assms(1))
    then have "(y # a @ sep @ b) ! 1 = sep ! 1" using t by simp
    then have "(a @ sep @ b) ! 0 = c" using assms(1) by simp
    then show False using Cons.prems assms(1,2) by (cases a) auto
  qed
  with Cons show ?case by simp
qed

lemma split_on_last:
  assumes "c \<in> set sep" "c \<notin> set a"
  shows "split_on sep acc a = [acc @ a]"
  using assms(2)
proof (induction a arbitrary: acc)
  case (Cons y a)
  have "take (length sep) (y # a) \<noteq> sep"
  proof
    assume "take (length sep) (y # a) = sep"
    then have "set sep \<subseteq> set (y # a)" by (metis set_take_subset)
    with assms(1) Cons.prems show False by blast
  qed
  with Cons show ?case by simp
qed simp

lemma split_on_join:
  assumes "sep = x # c # r" "x \<noteq> c" "xs \<noteq> []" "\<forall>a\<in>set xs. c \<notin> set a"
  shows "split_on sep [] (py_join sep xs) = xs"
  using assms(3,4)
proof (induction xs)
  case (Cons a xs)
  show ?case
  proof (cases "xs = []")
    case True
    then show ?thesis using Cons.prems assms(1) split_on_last[of c sep a "[]"] by simp
  next
    case False
    then show ?thesis using Cons split_on_sep[OF assms(1,2), of a "[]"] by (simp add: py_join_Cons)
  qed
qed simp

subsection \<open>Array literals\<close>

text \<open>
  The words of the inside of an array literal \<open>A=( ... )\<close>, read as bash reads it: a
  blank outside quotes ends a word; single quotes make everything up to the next single
  quote literal; double quotes do the same except that a backslash before \<open>$\<close>,
  \<open>`\<close>, \<open>"\<close>, \<open>\\<close> or a newline escapes it; outside quotes a backslash escapes the next
  character and a backslash-newline is removed (a backslash at the end would escape the
  closing parenthesis of the literal, which is outside the model). A quote opens a piece of the current word,
  which may be empty. \<open>Unterminated\<close> is a quote that is never closed, a syntax error.
  \<open>Unmodelled\<close> stands for a text whose reading depends on what the model leaves out:
  expansions (\<open>$\<close> and \<open>`\<close> outside single quotes), operators and parentheses,
  pattern and brace characters, \<open>~\<close> and comments, outside quotes.
\<close>

datatype qmode = Unquoted | InSingle | InDouble

datatype array_words = Words "string list" | Unterminated | Unmodelled

definition sh_special :: "char \<Rightarrow> bool" where
  "sh_special c \<longleftrightarrow> c \<in> set (''$;&|<>()*?[{~#'' @ [CHR 0x60])"

definition word_of :: "string option \<Rightarrow> string" where
  "word_of cur = (case cur of None \<Rightarrow> [] | Some x \<Rightarrow> x)"

definition cons_word :: "string option \<Rightarrow> array_words \<Rightarrow> array_words" where
  "cons_word cur r = (case (cur, r) of (Some x, Words ws) \<Rightarrow> Words (x # ws) | _ \<Rightarrow> r)"

fun arr_words :: "qmode \<Rightarrow> string option \<Rightarrow> string \<Rightarrow> array_words" where
  "arr_words Unquoted cur [] = Words (case cur of None \<Rightarrow> [] | Some x \<Rightarrow> [x])"
| "arr_words InSingle cur [] = Unterminated"
| "arr_words InDouble cur [] = Unterminated"
| "arr_words Unquoted cur (c # s) =
     (if c = CHR 0x27 then arr_words InSingle (Some (word_of cur)) s
      else if c = CHR 0x22 then arr_words InDouble (Some (word_of cur)) s
      else if c = CHR 0x5C then
        (case s of
           [] \<Rightarrow> Unmodelled
         | d # s' \<Rightarrow> if d = CHR 0x0A then arr_words Unquoted cur s'
                     else arr_words Unquoted (Some (word_of cur @ [d])) s')
      else if is_blank c then cons_word cur (arr_words Unquoted None s)
      else if sh_special c then Unmodelled
      else arr_words Unquoted (Some (word_of cur @ [c])) s)"
| "arr_words InSingle cur (c # s) =
     (if c = CHR 0x27 then arr_words Unquoted cur s else arr_words InSingle (Some (word_of cur @ [c])) s)"
| "arr_words InDouble cur (c # s) =
     (if c = CHR 0x22 then arr_words Unquoted cur s
      else if c = CHR 0x5C then
        (case s of
           [] \<Rightarrow> Unterminated
         | d # s' \<Rightarrow> if d = CHR 0x0A then arr_words InDouble cur s'
                     else if d \<in> set [CHR ''$'', CHR 0x22, CHR 0x5C, CHR 0x60] then arr_words InDouble (Some (word_of cur @ [d])) s'
                     else arr_words InDouble (Some (word_of cur @ [c])) s)
      else if c = CHR ''$'' \<or> c = CHR 0x60 then Unmodelled
      else arr_words InDouble (Some (word_of cur @ [c])) s)"

definition bash_array_words :: "string \<Rightarrow> array_words" where
  "bash_array_words s = arr_words Unquoted None s"

end
