(* ===== verification/Demo.thy ===== *)
theory Demo
  imports Store Shell
begin

text \<open>
  Example desktops at which the theorems of the development are instantiated: two game
  clients and a terminal on the first of two desktops, with the tools installed and no
  index file yet; and the same desktop with a profile file holding one profile.
\<close>

definition demo_win :: "string \<Rightarrow> nat \<Rightarrow> string \<Rightarrow> xwin" where
  "demo_win i p t = \<lparr>wid = i, desk = 0, wpid = p, host = ''pc'', title = t,
                      max_vert = True, max_horz = True\<rparr>"

definition demo_world :: world where
  "demo_world =
     \<lparr>files = Map.empty, modes = (\<lambda>_. 0),
      wins = [demo_win ''0x01'' 11 ''Dofus-Iop'', demo_win ''0x02'' 0 ''xterm'',
              demo_win ''0x03'' 13 ''Dofus-Cra''],
      desk_names = [''Main'', ''Other''], cur_desk = 0, active_win = None,
      sinks = [\<lparr>si_index = 5, si_pid = 11, si_muted = False\<rparr>,
               \<lparr>si_index = 6, si_pid = 13, si_muted = False\<rparr>],
      typed = [], tools = [''wmctrl'', ''xprop'', ''xdotool'', ''pactl''], cmd_log = []\<rparr>"

definition demo_profiles_path :: path where
  "demo_profiles_path = Path True [''home'', ''user'', ''profiles'', ''profiles.json'']"

definition demo_store :: world where
  "demo_store =
     demo_world\<lparr>files := [demo_profiles_path \<mapsto>
        Json (PDict [(''profiles'', PDict [(''team'', PDict [(''windows'', PList [PStr ''Cra'', PStr ''Iop'']),
                                                           (''characters'', PList [PStr ''Bob'', PStr ''Ana''])])]),
                     (''active'', PStr ''team'')])]\<rparr>"

text \<open>Two characters whose names share a prefix, in a profile \<open>duo\<close>.\<close>

definition demo_bob :: world where
  "demo_bob =
     demo_store\<lparr>wins := [demo_win ''0x01'' 11 ''Dofus-Bob'', demo_win ''0x03'' 13 ''Dofus-Bobby''],
                files := [demo_profiles_path \<mapsto>
                  Json (PDict [(''profiles'', PDict [(''duo'', PList [PStr ''Bob'', PStr ''Bobby''])])])]\<rparr>"

end
