(* ===== verification/Cycle.thy ===== *)
theory Cycle
  imports Demo
begin

text \<open>
  The focus-cycling scripts that \<open>update_cycle_scripts\<close> (\<open>src/dofus_control_gui.py\<close>,
  lines 78--122) writes to \<open>scripts/cycle_windows_dofus.sh\<close> and
  \<open>scripts/cycle_backward_windows_dofus.sh\<close>, and that the player binds to hotkeys. Each
  run lists the windows titled \<open>Dofus-<role>\<close>, reads the index of the role focused last
  from \<open>/tmp/dofus_window_index\<close>, scans the profile's roles cyclically from the next
  (forward) or previous (backward) position, focuses the first role that has a window and
  stores its index. The two scripts differ only in the line that computes \<open>NEXT\<close>.
\<close>

datatype direction = Forward | Backward

subsection \<open>The script, line by line\<close>

text \<open>\<open>STATE_FILE="/tmp/dofus_window_index"\<close>\<close>

definition state_file :: path where
  "state_file = Path True [''tmp'', ''dofus_window_index'']"

text \<open>\<open>AVAILABLE=($(wmctrl -l | grep "Dofus-" | awk '{print $4}' | cut -d'-' -f2))\<close>:
  the part after the first dash of the first word of each title, for the lines that
  contain \<open>Dofus-\<close>.\<close>

definition available_classes :: "string \<Rightarrow> string list" where
  "available_classes out =
     bash_words (lines_out (map (\<lambda>l. cut_f2 (CHR ''-'') (awk_field 4 l))
                                (filter (py_in ''Dofus-'') (text_lines out))))"

text \<open>\<open>if [ -f "$STATE_FILE" ]; then INDEX=$(cat "$STATE_FILE"); else INDEX=0; fi\<close>\<close>

definition read_state_index :: "world \<Rightarrow> int option" where
  "read_state_index w =
     (case files w state_file of
        None \<Rightarrow> Some 0
      | Some (Text s) \<Rightarrow> bash_read_number (bash_cmdsubst s)
      | Some (Json v) \<Rightarrow> None)"

text \<open>\<open>NEXT=$(( (INDEX + i) % TOTAL ))\<close> in the forward script and
  \<open>NEXT=$(( (INDEX - i + TOTAL) % TOTAL ))\<close> in the backward one.\<close>

definition next_index :: "direction \<Rightarrow> int \<Rightarrow> int \<Rightarrow> int \<Rightarrow> int" where
  "next_index d idx i n =
     (case d of Forward \<Rightarrow> bash_mod (idx + i) n
              | Backward \<Rightarrow> bash_mod (idx - i + n) n)"

text \<open>
  \<^verbatim>\<open>
  for ((i=1; i<=TOTAL; i++)); do
      NEXT=...
      CLASS_NAME=${CLASS_INI[$NEXT]}
      if printf '%s\n' "${AVAILABLE[@]}" | grep -q "^$CLASS_NAME$"; then
          ...; exit 0
      fi
  done
  \<close>
  \<open>cycle_loop d cls av idx i k\<close> runs the iterations \<open>i, \<dots>, i + k - 1\<close> and returns the
  \<open>NEXT\<close> of the first one whose role is available. The grep pattern is compared as a
  string: roles with regular-expression characters are outside the model.
\<close>

fun cycle_loop :: "direction \<Rightarrow> string list \<Rightarrow> string list \<Rightarrow> int \<Rightarrow> nat \<Rightarrow> nat \<Rightarrow> int option" where
  "cycle_loop d cls av idx i 0 = None"
| "cycle_loop d cls av idx i (Suc k) =
     (let nx = next_index d idx (int i) (int (length cls)) in
      if bash_array_get cls nx \<in> set av then Some nx else cycle_loop d cls av idx (Suc i) k)"

text \<open>The whole script for the role list \<open>CLASS_INI = cls\<close>: its exit status and the
  world after it. \<open>wmctrl -a\<close> failing does not stop the script: the index is stored
  anyway.\<close>

definition cycle_script :: "direction \<Rightarrow> string list \<Rightarrow> world \<Rightarrow> int \<times> world" where
  "cycle_script d cls w =
     (case sh_exec [''wmctrl'', ''-l''] w of ((out, _), w1) \<Rightarrow>
       (let av = available_classes out in
        if av = [] then (1, w1)
        else (case read_state_index w1 of
                None \<Rightarrow> (1, w1)
              | Some idx \<Rightarrow>
                  (case cycle_loop d cls av idx 1 (length cls) of
                     None \<Rightarrow> (0, w1)
                   | Some nx \<Rightarrow>
                       (let w2 = snd (sh_exec [''wmctrl'', ''-a'', ''Dofus-'' @ bash_array_get cls nx] w1)
                        in (0, w2\<lparr>files := (files w2)(state_file \<mapsto> Text (dec_int nx @ ''\<newline>''))\<rparr>))))))"

lemmas cycle_defs [model_simps] =
  state_file_def available_classes_def read_state_index_def next_index_def cycle_script_def

subsection \<open>What the scan means\<close>

text \<open>
  The contract of one hotkey press: the first role, in the profile's cyclic order starting
  after the current position (forward) or before it (backward), that has a window.
\<close>

definition next_available :: "direction \<Rightarrow> string list \<Rightarrow> string list \<Rightarrow> nat \<Rightarrow> string option" where
  "next_available d cls av k =
     find (\<lambda>c. c \<in> set av)
          (case d of Forward \<Rightarrow> rotate (Suc k) cls | Backward \<Rightarrow> rev (rotate k cls))"

text \<open>The positions the loop visits, in order, from position \<open>k\<close> among \<open>T\<close> roles.\<close>

definition cycle_pos :: "direction \<Rightarrow> nat \<Rightarrow> nat \<Rightarrow> nat \<Rightarrow> nat" where
  "cycle_pos d T k j = (case d of Forward \<Rightarrow> (k + j) mod T | Backward \<Rightarrow> (k + T - j) mod T)"

definition cycle_order :: "direction \<Rightarrow> nat \<Rightarrow> nat \<Rightarrow> nat list" where
  "cycle_order d T k = map (cycle_pos d T k) [1..<Suc T]"

lemma cycle_loop_find:
  "cycle_loop d cls av idx i n =
     find (\<lambda>nx. bash_array_get cls nx \<in> set av)
          (map (\<lambda>j. next_index d idx (int j) (int (length cls))) [i..<i + n])"
proof (induction n arbitrary: i)
  case 0
  then show ?case by simp
next
  case (Suc n)
  have "[i..<i + Suc n] = i # [Suc i..<Suc i + n]" by (simp add: upt_rec)
  then show ?case using Suc.IH[of "Suc i"] by (simp add: Let_def)
qed

lemma next_index_cycle_pos:
  assumes "0 < T" "j \<le> T"
  shows "next_index d (int k) (int j) (int T) = int (cycle_pos d T k j)"
proof (cases d)
  case Forward
  with assms show ?thesis by (simp add: next_index_def cycle_pos_def zmod_int)
next
  case Backward
  from assms have e: "int k - int j + int T = int (k + T - j)" by simp
  show ?thesis
    unfolding next_index_def cycle_pos_def Backward direction.case e
    using assms by (simp add: of_nat_mod)
qed

lemma cycle_pos_less: "0 < T \<Longrightarrow> cycle_pos d T k j < T"
  by (cases d) (simp_all add: cycle_pos_def)

lemma cycle_loop_order:
  assumes "cls \<noteq> []"
  shows "cycle_loop d cls av (int k) 1 (length cls) =
           map_option int (find (\<lambda>p. cls ! p \<in> set av) (cycle_order d (length cls) k))"
proof -
  let ?T = "length cls"
  from assms have T: "0 < ?T" by simp
  have "map (\<lambda>j. next_index d (int k) (int j) (int ?T)) [1..<1 + ?T] =
        map (\<lambda>j. int (cycle_pos d ?T k j)) [1..<Suc ?T]"
    using T by (intro map_cong) (auto intro: next_index_cycle_pos)
  then have "map (\<lambda>j. next_index d (int k) (int j) (int ?T)) [1..<1 + ?T] =
        map int (cycle_order d ?T k)"
    by (simp add: cycle_order_def)
  moreover have "\<forall>p\<in>set (cycle_order d ?T k). bash_array_get cls (int p) = cls ! p"
    using T by (auto simp: cycle_order_def cycle_pos_less)
  ultimately show ?thesis
    by (simp add: cycle_loop_find find_map comp_def cong: find_cong)
qed

lemma cycle_order_length [simp]: "length (cycle_order d T k) = T"
  by (simp add: cycle_order_def)

lemma cycle_order_nth: "i < T \<Longrightarrow> cycle_order d T k ! i = cycle_pos d T k (Suc i)"
  by (simp add: cycle_order_def nth_upt del: upt_Suc)

lemma cycle_order_rotate:
  assumes "cls \<noteq> []"
  shows "map ((!) cls) (cycle_order d (length cls) k) =
           (case d of Forward \<Rightarrow> rotate (Suc (k mod length cls)) cls
                    | Backward \<Rightarrow> rev (rotate (k mod length cls) cls))"
proof (rule nth_equalityI)
  show "length (map ((!) cls) (cycle_order d (length cls) k)) =
        length (case d of Forward \<Rightarrow> rotate (Suc (k mod length cls)) cls
                        | Backward \<Rightarrow> rev (rotate (k mod length cls) cls))"
    by (cases d) simp_all
next
  fix i
  let ?T = "length cls"
  assume "i < length (map ((!) cls) (cycle_order d ?T k))"
  then have i: "i < ?T" by simp
  show "map ((!) cls) (cycle_order d ?T k) ! i =
        (case d of Forward \<Rightarrow> rotate (Suc (k mod ?T)) cls
                 | Backward \<Rightarrow> rev (rotate (k mod ?T) cls)) ! i"
  proof (cases d)
    case Forward
    have "(Suc (k mod ?T) + i) mod ?T = (k + Suc i) mod ?T"
      by (metis add_Suc add_Suc_right mod_add_left_eq)
    with nth_rotate[OF i, of "Suc (k mod ?T)"]
    have "rotate (Suc (k mod ?T)) cls ! i = cls ! ((k + Suc i) mod ?T)" by (simp only:)
    with i Forward show ?thesis
      by (simp add: cycle_order_nth cycle_pos_def del: rotate_Suc)
  next
    case Backward
    from i have "(k mod ?T + ?T - Suc i) mod ?T = (k + ?T - Suc i) mod ?T"
      by (simp only: mod_plus_sub_eq)
    with i Backward show ?thesis
      by (simp add: cycle_order_nth cycle_pos_def nth_rotate rev_nth)
  qed
qed

text \<open>The loop of the script implements the contract: whatever position the index file
  holds, the role it focuses is the first available one in the profile's cyclic order
  after (before) that position.\<close>

lemma cycle_loop_refines_next_available:
  assumes "cls \<noteq> []"
  shows "map_option (bash_array_get cls) (cycle_loop d cls av (int k) 1 (length cls)) =
           next_available d cls av (k mod length cls)"
proof -
  let ?T = "length cls" and ?P = "\<lambda>p. cls ! p \<in> set av"
  have "map_option (bash_array_get cls) (cycle_loop d cls av (int k) 1 ?T) =
        map_option (bash_array_get cls \<circ> int) (find ?P (cycle_order d ?T k))"
    unfolding cycle_loop_order[OF assms] by (simp add: option.map_comp)
  also have "\<dots> = map_option ((!) cls) (find ?P (cycle_order d ?T k))"
  proof (rule option.map_cong0)
    fix p
    assume "p \<in> set_option (find ?P (cycle_order d ?T k))"
    then have "p \<in> set (cycle_order d ?T k)" by (auto dest: find_Some_first)
    with assms show "(bash_array_get cls \<circ> int) p = cls ! p"
      by (auto simp: cycle_order_def cycle_pos_less)
  qed
  also have "\<dots> = find (\<lambda>c. c \<in> set av) (map ((!) cls) (cycle_order d ?T k))"
    by (simp add: find_map comp_def)
  finally show ?thesis
    using assms by (simp add: cycle_order_rotate next_available_def)
qed

lemma find_cycle_order_Some:
  "find P (cycle_order d T k) = Some p \<longleftrightarrow>
     (\<exists>j. 1 \<le> j \<and> j \<le> T \<and> p = cycle_pos d T k j \<and> P p \<and>
          (\<forall>j'. 1 \<le> j' \<and> j' < j \<longrightarrow> \<not> P (cycle_pos d T k j')))"
proof
  assume "find P (cycle_order d T k) = Some p"
  then obtain i where i: "i < T" "P (cycle_order d T k ! i)" "p = cycle_order d T k ! i"
    and before: "\<forall>j<i. \<not> P (cycle_order d T k ! j)"
    by (auto simp: find_Some_iff)
  have "\<forall>j'. 1 \<le> j' \<and> j' < Suc i \<longrightarrow> \<not> P (cycle_pos d T k j')"
  proof (intro allI impI)
    fix j' assume j': "1 \<le> j' \<and> j' < Suc i"
    then have lt: "j' - 1 < i" by arith
    with before have np: "\<not> P (cycle_order d T k ! (j' - 1))" by blast
    from lt i have "cycle_order d T k ! (j' - 1) = cycle_pos d T k (Suc (j' - 1))"
      by (intro cycle_order_nth) arith
    moreover from j' have "Suc (j' - 1) = j'" by arith
    ultimately show "\<not> P (cycle_pos d T k j')" using np by simp
  qed
  with i show "\<exists>j. 1 \<le> j \<and> j \<le> T \<and> p = cycle_pos d T k j \<and> P p \<and>
                 (\<forall>j'. 1 \<le> j' \<and> j' < j \<longrightarrow> \<not> P (cycle_pos d T k j'))"
    by (intro exI[of _ "Suc i"]) (simp add: cycle_order_nth)
next
  assume "\<exists>j. 1 \<le> j \<and> j \<le> T \<and> p = cycle_pos d T k j \<and> P p \<and>
            (\<forall>j'. 1 \<le> j' \<and> j' < j \<longrightarrow> \<not> P (cycle_pos d T k j'))"
  then obtain j where j: "1 \<le> j" "j \<le> T" "p = cycle_pos d T k j" "P p"
    and before: "\<forall>j'. 1 \<le> j' \<and> j' < j \<longrightarrow> \<not> P (cycle_pos d T k j')"
    by blast
  show "find P (cycle_order d T k) = Some p"
    unfolding find_Some_iff
  proof (intro exI[of _ "j - 1"] conjI allI impI)
    show "j - 1 < length (cycle_order d T k)" using j by simp
    show "P (cycle_order d T k ! (j - 1))" using j by (simp add: cycle_order_nth)
    show "p = cycle_order d T k ! (j - 1)" using j by (simp add: cycle_order_nth)
  next
    fix i assume "i < j - 1"
    with j before show "\<not> P (cycle_order d T k ! i)" by (simp add: cycle_order_nth)
  qed
qed

lemma cycle_pos_back_forth:
  assumes "0 < T" "j' \<le> j" "j \<le> T"
  shows "cycle_pos Backward T (cycle_pos Forward T k j) j' = cycle_pos Forward T k (j - j')"
proof -
  have "((k + j) mod T + T - j') mod T = (k + j + T - j') mod T"
    using assms by (simp only: mod_plus_sub_eq)
  moreover have "k + j + T - j' = k + (j - j') + T" using assms by simp
  ultimately have "((k + j) mod T + T - j') mod T = (k + (j - j')) mod T"
    by (simp only: mod_add_self2)
  then show ?thesis by (simp add: cycle_pos_def)
qed

subsection \<open>Running the script\<close>

lemma sh_exec_wmctrl_list:
  "''wmctrl'' \<in> set (tools w) \<Longrightarrow>
   sh_exec [''wmctrl'', ''-l''] w = ((wmctrl_list w, 0), w\<lparr>cmd_log := cmd_log w @ [[''wmctrl'', ''-l'']]\<rparr>)"
  by (simp add: sh_exec_def exec_tool_def wmctrl_list_def)

lemma sh_exec_wmctrl_activate:
  "''wmctrl'' \<in> set (tools w) \<Longrightarrow>
   sh_exec [''wmctrl'', ''-a'', n] w = wm_activate n (w\<lparr>cmd_log := cmd_log w @ [[''wmctrl'', ''-a'', n]]\<rparr>)"
  by (simp add: sh_exec_def exec_tool_def)

lemma wm_activate_cmd_log [simp]: "cmd_log (snd (wm_activate n w)) = cmd_log w"
  by (simp add: wm_activate_def split: option.splits)

lemma wm_activate_tools [simp]: "tools (snd (wm_activate n w)) = tools w"
  by (simp add: wm_activate_def split: option.splits)

text \<open>One run that finds a role: what it starts, in order, and what it stores.\<close>

lemma cycle_script_run:
  assumes "''wmctrl'' \<in> set (tools w)"
    and "available_classes (wmctrl_list w) \<noteq> []"
    and "read_state_index w = Some idx"
    and "cycle_loop d cls (available_classes (wmctrl_list w)) idx 1 (length cls) = Some nx"
  shows "fst (cycle_script d cls w) = 0"
    and "wins (snd (cycle_script d cls w)) = wins w"
    and "tools (snd (cycle_script d cls w)) = tools w"
    and "files (snd (cycle_script d cls w)) = (files w)(state_file \<mapsto> Text (dec_int nx @ ''\<newline>''))"
    and "cmd_log (snd (cycle_script d cls w)) =
           cmd_log w @ [[''wmctrl'', ''-l''], [''wmctrl'', ''-a'', ''Dofus-'' @ bash_array_get cls nx]]"
  using assms
  by (simp_all add: cycle_script_def sh_exec_wmctrl_list sh_exec_wmctrl_activate read_state_index_def)

lemma bash_read_written: "0 \<le> nx \<Longrightarrow> bash_read_number (bash_cmdsubst (dec_int nx @ ''\<newline>'')) = Some nx"
  by (simp add: dec_int_def newline_not_digit bash_read_dec_nat)

lemma read_state_index_written:
  "files w state_file = Some (Text (dec_int nx @ ''\<newline>'')) \<Longrightarrow> 0 \<le> nx \<Longrightarrow>
   read_state_index w = Some nx"
  by (simp add: read_state_index_def bash_read_written)

lemma cycle_loop_range:
  assumes "cycle_loop d cls av (int k) 1 (length cls) = Some nx"
  shows "0 \<le> nx \<and> nx < int (length cls)"
proof -
  from assms have ne: "cls \<noteq> []" by (cases cls) auto
  from assms[unfolded cycle_loop_order[OF ne]]
  obtain p where "find (\<lambda>p. cls ! p \<in> set av) (cycle_order d (length cls) k) = Some p"
    and "nx = int p"
    by auto
  moreover from ne have "\<forall>q\<in>set (cycle_order d (length cls) k). q < length cls"
    by (simp add: cycle_order_def cycle_pos_less)
  ultimately show ?thesis by (auto dest: find_Some_first)
qed

lemma cycle_loop_Some_iff:
  "(\<exists>nx. cycle_loop d cls av (int k) 1 (length cls) = Some nx) \<longleftrightarrow> (\<exists>c\<in>set cls. c \<in> set av)"
proof (cases "cls = []")
  case True
  then show ?thesis by simp
next
  case False
  have "(\<exists>nx. cycle_loop d cls av (int k) 1 (length cls) = Some nx) \<longleftrightarrow>
        next_available d cls av (k mod length cls) \<noteq> None"
    by (simp flip: cycle_loop_refines_next_available[OF False])
  also have "\<dots> \<longleftrightarrow> (\<exists>c\<in>set cls. c \<in> set av)"
    by (cases d) (auto simp: next_available_def find_None_iff2)
  finally show ?thesis .
qed

lemma cycle_loop_backward_after_forward:
  assumes "k < length cls" "cls ! k \<in> set av"
    and "cycle_loop Forward cls av (int k) 1 (length cls) = Some nx"
  shows "cycle_loop Backward cls av nx 1 (length cls) = Some (int k)"
proof -
  let ?T = "length cls" and ?P = "\<lambda>p. cls ! p \<in> set av"
  from assms have ne: "cls \<noteq> []" by auto
  from assms(3)[unfolded cycle_loop_order[OF ne]]
  obtain p where fwd: "find ?P (cycle_order Forward ?T k) = Some p" and nx: "nx = int p"
    by auto
  from fwd obtain j where j: "1 \<le> j" "j \<le> ?T" "p = cycle_pos Forward ?T k j"
    and before: "\<forall>j'. 1 \<le> j' \<and> j' < j \<longrightarrow> \<not> ?P (cycle_pos Forward ?T k j')"
    unfolding find_cycle_order_Some by blast
  have "cycle_pos Backward ?T (cycle_pos Forward ?T k j) j = cycle_pos Forward ?T k (j - j)"
    using ne j by (intro cycle_pos_back_forth) auto
  then have "cycle_pos Backward ?T p j = cycle_pos Forward ?T k 0" using j(3) by simp
  also have "\<dots> = k" using assms(1) by (simp add: cycle_pos_def)
  finally have back_j: "cycle_pos Backward ?T p j = k" .
  have "\<forall>j'. 1 \<le> j' \<and> j' < j \<longrightarrow> \<not> ?P (cycle_pos Backward ?T p j')"
  proof (intro allI impI)
    fix j' assume j': "1 \<le> j' \<and> j' < j"
    then have "cycle_pos Backward ?T p j' = cycle_pos Forward ?T k (j - j')"
      using j ne unfolding j(3) by (intro cycle_pos_back_forth) auto
    moreover from j' have "1 \<le> j - j' \<and> j - j' < j" by arith
    ultimately show "\<not> ?P (cycle_pos Backward ?T p j')" using before by simp
  qed
  with j back_j assms(2) have "find ?P (cycle_order Backward ?T p) = Some k"
    unfolding find_cycle_order_Some by (intro exI[of _ j]) simp
  with nx show ?thesis using cycle_loop_order[OF ne, of Backward av p] by simp
qed

subsection \<open>Properties of the cycle scripts\<close>

text \<open>The index file is well formed for \<open>T\<close> roles: absent, or a number below \<open>T\<close>
  as \<open>echo\<close> writes it.\<close>

definition index_file_ok :: "nat \<Rightarrow> world \<Rightarrow> bool" where
  "index_file_ok T w =
     (case files w state_file of
        None \<Rightarrow> True
      | Some (Text s) \<Rightarrow>
          (case bash_read_number (bash_cmdsubst s) of
             None \<Rightarrow> False
           | Some i \<Rightarrow> 0 \<le> i \<and> i < int T \<and> s = dec_int i @ ''\<newline>'')
      | Some (Json v) \<Rightarrow> False)"

lemma index_file_ok_read:
  assumes "index_file_ok T w"
  shows "\<exists>k. read_state_index w = Some (int k) \<and> (files w state_file \<noteq> None \<longrightarrow> k < T)"
proof (cases "files w state_file")
  case None
  then show ?thesis by (simp add: read_state_index_def)
next
  case (Some c)
  with assms obtain s i where "c = Text s" "bash_read_number (bash_cmdsubst s) = Some i"
    "0 \<le> i" "i < int T"
    by (auto simp: index_file_ok_def split: fcontent.splits option.splits)
  with Some show ?thesis by (intro exI[of _ "nat i"]) (simp add: read_state_index_def)
qed

lemma index_file_ok_files:
  "files w' = files w \<Longrightarrow> index_file_ok T w' = index_file_ok T w"
  by (simp add: index_file_ok_def)

lemma available_classes_empty [simp]: "available_classes [] = []"
  by (simp add: available_classes_def text_lines_def lines_out_def bash_words_def)

text \<open>A run either stores the index its loop found, or leaves the files alone.\<close>

lemma cycle_script_files_cases:
  "files (snd (cycle_script d cls w)) = files w \<or>
   (''wmctrl'' \<in> set (tools w) \<and>
    (\<exists>idx nx. read_state_index w = Some idx \<and>
       cycle_loop d cls (available_classes (wmctrl_list w)) idx 1 (length cls) = Some nx \<and>
       files (snd (cycle_script d cls w)) = (files w)(state_file \<mapsto> Text (dec_int nx @ ''\<newline>''))))"
proof (cases "''wmctrl'' \<in> set (tools w)")
  case False
  then show ?thesis by (simp add: cycle_script_def sh_exec_def)
next
  case tools: True
  let ?w1 = "w\<lparr>cmd_log := cmd_log w @ [[''wmctrl'', ''-l'']]\<rparr>"
  let ?av = "available_classes (wmctrl_list w)"
  have r: "read_state_index ?w1 = read_state_index w" by (simp add: read_state_index_def)
  show ?thesis
  proof (cases "?av = [] \<or> read_state_index w = None")
    case True
    with tools show ?thesis by (auto simp: cycle_script_def sh_exec_wmctrl_list Let_def r)
  next
    case False
    then obtain idx where idx: "read_state_index w = Some idx" and av: "?av \<noteq> []" by auto
    show ?thesis
    proof (cases "cycle_loop d cls ?av idx 1 (length cls)")
      case None
      with tools idx av show ?thesis
        by (simp add: cycle_script_def sh_exec_wmctrl_list Let_def r)
    next
      case (Some nx)
      with tools idx av cycle_script_run(4)[OF tools av idx Some] show ?thesis by blast
    qed
  qed
qed

text \<open>C1. One press of the hotkey focuses the role that the contract \<open>next_available\<close>
  names, and stores its position, which the next press reads back.\<close>

theorem cycle_script_focuses_next_available:
  assumes tools: "''wmctrl'' \<in> set (tools w)"
    and idx: "read_state_index w = Some (int k)"
    and nxt: "next_available d cls (available_classes (wmctrl_list w)) (k mod length cls) = Some c"
  shows "fst (cycle_script d cls w) = 0 \<and>
         last (cmd_log (snd (cycle_script d cls w))) = [''wmctrl'', ''-a'', ''Dofus-'' @ c] \<and>
         (\<exists>nx<length cls. cls ! nx = c \<and> read_state_index (snd (cycle_script d cls w)) = Some (int nx))"
proof -
  let ?av = "available_classes (wmctrl_list w)"
  have ne: "cls \<noteq> []"
    using nxt by (cases d) (auto simp: next_available_def)
  from nxt have "c \<in> set ?av"
    by (auto simp: next_available_def dest: find_Some_first)
  then have av: "?av \<noteq> []" by auto
  from nxt cycle_loop_refines_next_available[OF ne, of d ?av k]
  obtain nx where loop: "cycle_loop d cls ?av (int k) 1 (length cls) = Some nx"
    and get: "bash_array_get cls nx = c"
    by (auto simp del: cycle_loop.simps)
  from loop have range: "0 \<le> nx \<and> nx < int (length cls)" by (rule cycle_loop_range)
  then have n: "nat nx < length cls" "int (nat nx) = nx" by linarith+
  from get range have c: "cls ! nat nx = c" by simp
  note run = cycle_script_run[OF tools av idx loop]
  have rd: "read_state_index (snd (cycle_script d cls w)) = Some nx"
    using run(4) range by (intro read_state_index_written) simp_all
  from run(5) get have "last (cmd_log (snd (cycle_script d cls w))) = [''wmctrl'', ''-a'', ''Dofus-'' @ c]"
    by simp
  moreover have "\<exists>nx'<length cls. cls ! nx' = c \<and> read_state_index (snd (cycle_script d cls w)) = Some (int nx')"
    using n c rd by (intro exI[of _ "nat nx"]) simp
  ultimately show ?thesis using run(1) by simp
qed

lemma demo_available: "available_classes (wmctrl_list demo_world) = [''Iop'', ''Cra'']"
  unfolding demo_world_def demo_win_def by code_simp

lemma demo_tools: "''wmctrl'' \<in> set (tools demo_world)"
  by (simp add: demo_world_def)

lemma demo_no_index: "read_state_index demo_world = Some (int 0)"
  by (simp add: demo_world_def read_state_index_def)

theorem cycle_script_focuses_next_available_witness:
  "''wmctrl'' \<in> set (tools demo_world) \<and> read_state_index demo_world = Some (int 0) \<and>
   next_available Forward [''Iop'', ''Cra''] (available_classes (wmctrl_list demo_world)) (0 mod 2) = Some ''Cra'' \<and>
   fst (cycle_script Forward [''Iop'', ''Cra''] demo_world) = 0 \<and>
   last (cmd_log (snd (cycle_script Forward [''Iop'', ''Cra''] demo_world))) = [''wmctrl'', ''-a'', ''Dofus-Cra''] \<and>
   (\<exists>nx<length [''Iop'', ''Cra'']. [''Iop'', ''Cra''] ! nx = ''Cra'' \<and>
      read_state_index (snd (cycle_script Forward [''Iop'', ''Cra''] demo_world)) = Some (int nx))"
proof -
  have h: "next_available Forward [''Iop'', ''Cra''] (available_classes (wmctrl_list demo_world))
             (0 mod length [''Iop'', ''Cra'']) = Some ''Cra''"
    by (simp add: demo_available next_available_def)
  from cycle_script_focuses_next_available[OF demo_tools demo_no_index h]
  show ?thesis using demo_tools demo_no_index h by simp
qed

text \<open>C2. The index file stays well formed across runs for a fixed profile: a run that
  starts with no index file or with a position below the number of roles leaves it so.\<close>

theorem cycle_script_keeps_index_ok:
  assumes ok: "index_file_ok (length cls) w"
  shows "index_file_ok (length cls) (snd (cycle_script d cls w))"
  using cycle_script_files_cases[of d cls w]
proof
  assume "files (snd (cycle_script d cls w)) = files w"
  from index_file_ok_files[OF this] ok show ?thesis by simp
next
  assume "''wmctrl'' \<in> set (tools w) \<and>
    (\<exists>idx nx. read_state_index w = Some idx \<and>
       cycle_loop d cls (available_classes (wmctrl_list w)) idx 1 (length cls) = Some nx \<and>
       files (snd (cycle_script d cls w)) = (files w)(state_file \<mapsto> Text (dec_int nx @ ''\<newline>'')))"
  then obtain idx nx where r: "read_state_index w = Some idx"
    and loop: "cycle_loop d cls (available_classes (wmctrl_list w)) idx 1 (length cls) = Some nx"
    and f: "files (snd (cycle_script d cls w)) = (files w)(state_file \<mapsto> Text (dec_int nx @ ''\<newline>''))"
    by blast
  from index_file_ok_read[OF ok] r obtain k where "idx = int k" by auto
  with loop have range: "0 \<le> nx \<and> nx < int (length cls)" by (simp add: cycle_loop_range)
  then have "bash_read_number (bash_cmdsubst (dec_int nx @ ''\<newline>'')) = Some nx"
    by (simp add: bash_read_written)
  with range show ?thesis unfolding index_file_ok_def f by simp
qed

theorem cycle_script_keeps_index_ok_witness:
  "index_file_ok (length [''Iop'', ''Cra'']) demo_world \<and>
   index_file_ok (length [''Iop'', ''Cra'']) (snd (cycle_script Forward [''Iop'', ''Cra''] demo_world))"
proof -
  have h: "index_file_ok (length [''Iop'', ''Cra'']) demo_world"
    by (simp add: index_file_ok_def demo_world_def)
  show ?thesis using h cycle_script_keeps_index_ok[OF h] by blast
qed

text \<open>C3. Forward then backward: when the role at the stored position still has a window,
  pressing the forward hotkey and then the backward one focuses that role again and
  restores the stored position.\<close>

theorem cycle_forward_then_backward:
  assumes tools: "''wmctrl'' \<in> set (tools w)"
    and idx: "read_state_index w = Some (int k)"
    and k: "k < length cls"
    and avail: "cls ! k \<in> set (available_classes (wmctrl_list w))"
  shows "read_state_index (snd (cycle_script Backward cls (snd (cycle_script Forward cls w)))) = Some (int k) \<and>
         last (cmd_log (snd (cycle_script Backward cls (snd (cycle_script Forward cls w))))) =
           [''wmctrl'', ''-a'', ''Dofus-'' @ cls ! k]"
proof -
  let ?av = "available_classes (wmctrl_list w)" and ?w1 = "snd (cycle_script Forward cls w)"
  have av: "?av \<noteq> []" using avail by auto
  from k avail have "\<exists>c\<in>set cls. c \<in> set ?av" by (auto intro: nth_mem)
  then obtain nx where fwd: "cycle_loop Forward cls ?av (int k) 1 (length cls) = Some nx"
    using cycle_loop_Some_iff[of Forward cls ?av k] by blast
  from fwd have range: "0 \<le> nx \<and> nx < int (length cls)" by (rule cycle_loop_range)
  note run1 = cycle_script_run[OF tools av idx fwd]
  have tools1: "''wmctrl'' \<in> set (tools ?w1)" using run1(3) tools by simp
  have list1: "wmctrl_list ?w1 = wmctrl_list w" using run1(2) by (simp add: wmctrl_list_def)
  have idx1: "read_state_index ?w1 = Some nx"
    using run1(4) range by (intro read_state_index_written) simp_all
  have av1: "available_classes (wmctrl_list ?w1) \<noteq> []" using av list1 by simp
  have bwd: "cycle_loop Backward cls (available_classes (wmctrl_list ?w1)) nx 1 (length cls) = Some (int k)"
    using cycle_loop_backward_after_forward[OF k avail fwd] list1 by simp
  note run2 = cycle_script_run[OF tools1 av1 idx1 bwd]
  have "read_state_index (snd (cycle_script Backward cls ?w1)) = Some (int k)"
    using run2(4) by (intro read_state_index_written) simp_all
  moreover have "bash_array_get cls (int k) = cls ! k" using k by simp
  ultimately show ?thesis using run2(5) by simp
qed

theorem cycle_forward_then_backward_witness:
  "''wmctrl'' \<in> set (tools demo_world) \<and> read_state_index demo_world = Some (int 0) \<and>
   0 < length [''Iop'', ''Cra''] \<and> [''Iop'', ''Cra''] ! 0 \<in> set (available_classes (wmctrl_list demo_world)) \<and>
   read_state_index (snd (cycle_script Backward [''Iop'', ''Cra'']
      (snd (cycle_script Forward [''Iop'', ''Cra''] demo_world)))) = Some (int 0) \<and>
   last (cmd_log (snd (cycle_script Backward [''Iop'', ''Cra'']
      (snd (cycle_script Forward [''Iop'', ''Cra''] demo_world))))) = [''wmctrl'', ''-a'', ''Dofus-Iop'']"
proof -
  have h: "[''Iop'', ''Cra''] ! 0 \<in> set (available_classes (wmctrl_list demo_world))"
    by (simp add: demo_available)
  have k: "0 < length [''Iop'', ''Cra'']" by simp
  show ?thesis using cycle_forward_then_backward[OF demo_tools demo_no_index k h] demo_tools demo_no_index h k
    by simp
qed

text \<open>C4. Without \<open>wmctrl\<close> or without any window whose listing yields a role, the script
  exits 1 after the listing and changes nothing.\<close>

theorem cycle_script_without_game_window:
  assumes "''wmctrl'' \<notin> set (tools w) \<or> available_classes (wmctrl_list w) = []"
  shows "cycle_script d cls w = (1, w\<lparr>cmd_log := cmd_log w @ [[''wmctrl'', ''-l'']]\<rparr>)"
proof (cases "''wmctrl'' \<in> set (tools w)")
  case True
  with assms have "available_classes (wmctrl_list w) = []" by simp
  with True show ?thesis by (simp add: cycle_script_def sh_exec_wmctrl_list)
next
  case False
  then show ?thesis by (simp add: cycle_script_def sh_exec_def)
qed

theorem cycle_script_without_game_window_witness:
  "''wmctrl'' \<notin> set (tools (demo_world\<lparr>tools := []\<rparr>)) \<and>
   cycle_script Forward [''Iop''] (demo_world\<lparr>tools := []\<rparr>) =
     (1, (demo_world\<lparr>tools := []\<rparr>)\<lparr>cmd_log := cmd_log (demo_world\<lparr>tools := []\<rparr>) @ [[''wmctrl'', ''-l'']]\<rparr>)"
proof -
  have h: "''wmctrl'' \<notin> set (tools (demo_world\<lparr>tools := []\<rparr>))" by simp
  have "''wmctrl'' \<notin> set (tools (demo_world\<lparr>tools := []\<rparr>)) \<or>
        available_classes (wmctrl_list (demo_world\<lparr>tools := []\<rparr>)) = []" using h by (rule disjI1)
  from cycle_script_without_game_window[OF this, of Forward "[''Iop'']"] h show ?thesis by blast
qed

text \<open>C5. When windows are listed but none carries a role of the profile, the script
  focuses nothing, keeps the index file, and still exits with status 0.\<close>

theorem cycle_script_no_matching_role:
  assumes tools: "''wmctrl'' \<in> set (tools w)"
    and av: "available_classes (wmctrl_list w) \<noteq> []"
    and idx: "read_state_index w = Some (int k)"
    and none: "\<forall>c\<in>set cls. c \<notin> set (available_classes (wmctrl_list w))"
  shows "cycle_script d cls w = (0, w\<lparr>cmd_log := cmd_log w @ [[''wmctrl'', ''-l'']]\<rparr>)"
proof -
  have "cycle_loop d cls (available_classes (wmctrl_list w)) (int k) 1 (length cls) = None"
    using none cycle_loop_Some_iff[of d cls "available_classes (wmctrl_list w)" k] by auto
  with tools av idx show ?thesis
    by (simp add: cycle_script_def sh_exec_wmctrl_list Let_def read_state_index_def)
qed

theorem cycle_script_no_matching_role_witness:
  "''wmctrl'' \<in> set (tools demo_world) \<and> available_classes (wmctrl_list demo_world) \<noteq> [] \<and>
   read_state_index demo_world = Some (int 0) \<and>
   ''Sram'' \<notin> set (available_classes (wmctrl_list demo_world)) \<and>
   cycle_script Backward [''Sram''] demo_world =
     (0, demo_world\<lparr>cmd_log := cmd_log demo_world @ [[''wmctrl'', ''-l'']]\<rparr>)"
proof -
  have h1: "available_classes (wmctrl_list demo_world) \<noteq> []" by (simp add: demo_available)
  have h2: "''Sram'' \<notin> set (available_classes (wmctrl_list demo_world))"
    by (simp add: demo_available)
  have h3: "\<forall>c\<in>set [''Sram'']. c \<notin> set (available_classes (wmctrl_list demo_world))"
    using h2 by simp
  show ?thesis using cycle_script_no_matching_role[OF demo_tools h1 demo_no_index h3, of Backward]
      demo_tools h1 demo_no_index h2
    by blast
qed

text \<open>C6. A role the scripts can ever focus is a non-empty name without blanks and without
  a dash: \<open>cut -d'-' -f2\<close> keeps only the text between the first two dashes of the
  title's first word, so a profile role such as \<open>Iop-2\<close> is never available.\<close>

theorem available_role_has_no_dash:
  assumes "c \<in> set (available_classes out)"
  shows "c \<noteq> [] \<and> (\<forall>ch\<in>set c. \<not> is_blank ch) \<and> CHR ''-'' \<notin> set c"
proof -
  let ?pieces = "map (\<lambda>l. cut_f2 (CHR ''-'') (awk_field 4 l)) (filter (py_in ''Dofus-'') (text_lines out))"
  from assms have w: "c \<noteq> [] \<and> (\<forall>ch\<in>set c. \<not> is_blank ch) \<and> set c \<subseteq> set (lines_out ?pieces)"
    using words_by_words[of "[]" is_blank c "lines_out ?pieces"]
    by (simp add: available_classes_def bash_words_def)
  have "CHR ''-'' \<notin> set (lines_out ?pieces)"
    using lines_out_chars[of "CHR ''-''" ?pieces] cut_f2_no_delim by auto
  with w show ?thesis by blast
qed

theorem available_role_has_no_dash_witness:
  "''Iop'' \<in> set (available_classes (wmctrl_list demo_world)) \<and>
   ''Iop'' \<noteq> [] \<and> CHR ''-'' \<notin> set ''Iop''"
proof -
  have h: "''Iop'' \<in> set (available_classes (wmctrl_list demo_world))" by (simp add: demo_available)
  show ?thesis using available_role_has_no_dash[OF h] h by blast
qed

end
