(* ===== verification/Scripts.thy ===== *)
theory Scripts
  imports Cycle
begin

text \<open>
  The generation of the focus-cycling scripts: \<open>update_cycle_scripts\<close> (lines 78--122
  of \<open>src/dofus_control_gui.py\<close>) quotes the profile's roles into the array literal
  \<open>CLASS_INI=(...)\<close>, fills the script template, derives the backward script by
  replacing the line that computes \<open>NEXT\<close>, and writes both scripts, executable, under
  \<open>SCRIPTS_DIR\<close>. What the written scripts do when run is \<open>cycle_script\<close> in
  \<open>Cycle\<close>.
\<close>

subsection \<open>The script text\<close>

text \<open>\<open>"'" + "' '".join(initiative) + "'"\<close>: \<open>join\<close> raises on a non-string role.\<close>

definition classes_str :: "pyval \<Rightarrow> string py" where
  "classes_str ini =
     (case py_str_join [CHR 0x27, CHR '' '', CHR 0x27] ini of
        Inl e \<Rightarrow> Inl e
      | Inr j \<Rightarrow> Inr (CHR 0x27 # j @ [CHR 0x27]))"

text \<open>The f-string template, line by line, with \<open>{classes_str}\<close> filled in.\<close>

definition script_lines :: "string \<Rightarrow> string list" where
  \<open>script_lines cs =
     [''#!/bin/bash'',
      ''STATE_FILE='' @ [CHR 0x22] @ ''/tmp/dofus_window_index'' @ [CHR 0x22],
      ''CLASS_INI=('' @ cs @ '')'',
      ''AVAILABLE=($(wmctrl -l | grep '' @ [CHR 0x22] @ ''Dofus-'' @ [CHR 0x22] @ '' | awk '' @ [CHR 0x27] @ ''{print $4}'' @ [CHR 0x27] @ '' | cut -d'' @ [CHR 0x27] @ ''-'' @ [CHR 0x27] @ '' -f2))'',
      ''if [[ ${#AVAILABLE[@]} -eq 0 ]]; then exit 1; fi'',
      ''if [ -f '' @ [CHR 0x22] @ ''$STATE_FILE'' @ [CHR 0x22] @ '' ]; then INDEX=$(cat '' @ [CHR 0x22] @ ''$STATE_FILE'' @ [CHR 0x22] @ ''); else INDEX=0; fi'',
      ''TOTAL=${#CLASS_INI[@]}'',
      ''for ((i=1; i<=TOTAL; i++)); do'',
      ''    NEXT=$(( (INDEX + i) % TOTAL ))'',
      ''    CLASS_NAME=${CLASS_INI[$NEXT]}'',
      ''    if printf '' @ [CHR 0x27] @ ''%s'' @ [CHR 0x5C] @ ''n'' @ [CHR 0x27] @ '' '' @ [CHR 0x22] @ ''${AVAILABLE[@]}'' @ [CHR 0x22] @ '' | grep -q '' @ [CHR 0x22] @ ''^$CLASS_NAME$'' @ [CHR 0x22] @ ''; then'',
      ''        wmctrl -a '' @ [CHR 0x22] @ ''Dofus-$CLASS_NAME'' @ [CHR 0x22],
      ''        echo '' @ [CHR 0x22] @ ''$NEXT'' @ [CHR 0x22] @ '' > '' @ [CHR 0x22] @ ''$STATE_FILE'' @ [CHR 0x22],
      ''        exit 0'',
      ''    fi'',
      ''done'']\<close>

definition script_content :: "string \<Rightarrow> string" where
  "script_content cs = lines_out (script_lines cs)"

definition forward_next_line :: string where
  "forward_next_line = ''NEXT=$(( (INDEX + i) % TOTAL ))''"

definition backward_next_line :: string where
  "backward_next_line = ''NEXT=$(( (INDEX - i + TOTAL) % TOTAL ))''"

text \<open>\<open>script_content.replace(...)\<close>.\<close>

definition script_content_back :: "string \<Rightarrow> string" where
  "script_content_back cs = py_replace (script_content cs) forward_next_line backward_next_line"

subsection \<open>Writing the scripts\<close>

text \<open>\<open>open(path, 'w').write(content)\<close> then \<open>path.chmod(0o755)\<close>. The
  \<open>mkdir(parents=True, exist_ok=True)\<close> of the directory is not modelled: the file
  map has no directories.\<close>

definition write_script :: "path \<Rightarrow> string \<Rightarrow> world \<Rightarrow> world" where
  "write_script p content w = w\<lparr>files := (files w)(p \<mapsto> Text content), modes := (modes w)(p := 493)\<rparr>"

definition update_cycle_scripts :: "path option \<Rightarrow> path option \<Rightarrow> string \<Rightarrow> world \<Rightarrow> world py" where
  "update_cycle_scripts pf sd name w =
     (case load_profiles pf w of
        Inl e \<Rightarrow> Inl e
      | Inr (profiles, _) \<Rightarrow>
          (case profile_entry profiles name of
             Inl e \<Rightarrow> Inl e
           | Inr pd \<Rightarrow>
               (case profile_windows pd of
                  Inl e \<Rightarrow> Inl e
                | Inr ini \<Rightarrow>
                    if \<not> py_truthy ini then Inr w
                    else (case classes_str ini of
                            Inl e \<Rightarrow> Inl e
                          | Inr cs \<Rightarrow>
                              (case sd of
                                 None \<Rightarrow> Inl TypeError
                               | Some d \<Rightarrow>
                                   Inr (write_script (path_join d ''cycle_backward_windows_dofus.sh'')
                                          (script_content_back cs)
                                          (write_script (path_join d ''cycle_windows_dofus.sh'')
                                             (script_content cs) w)))))))"

text \<open>Every \<open>N\<close> of a text is followed, within the text, by a character other
  than \<open>E\<close>: no occurrence of \<open>NEXT\<close> starts in it.\<close>

definition no_NE :: "string \<Rightarrow> bool" where
  "no_NE a \<longleftrightarrow> (\<forall>i<length a. a ! i = CHR ''N'' \<longrightarrow> Suc i < length a \<and> a ! Suc i \<noteq> CHR ''E'')"

text \<open>The scripts directory of the demonstration world.\<close>

definition demo_scripts_dir :: path where
  "demo_scripts_dir = Path True [''home'', ''user'', ''profiles'', ''scripts'']"

text \<open>Characters the shell takes literally even outside quotes: letters, digits, the
  underscore, and \<open>- . , : @ % + = /\<close>; and the blank, which separates words.\<close>

definition plain_char :: "char \<Rightarrow> bool" where
  "plain_char c \<longleftrightarrow> is_digit c \<or> is_name_start c \<or> c \<in> set '' -.,:@%+=/''"

lemmas scripts_defs [model_simps] =
  classes_str_def script_lines_def script_content_def forward_next_line_def backward_next_line_def
  script_content_back_def write_script_def update_cycle_scripts_def

subsection \<open>Facts\<close>

lemma cons_word_Words: "cons_word cur r = Words ws \<Longrightarrow> \<exists>ws'. r = Words ws' \<and> ws = (case cur of None \<Rightarrow> ws' | Some x \<Rightarrow> x # ws')"
  by (auto simp: cons_word_def split: option.splits array_words.splits)

lemma cons_word_other [simp]:
  "cons_word cur r = Unterminated \<longleftrightarrow> r = Unterminated" "cons_word cur r = Unmodelled \<longleftrightarrow> r = Unmodelled"
  by (auto simp: cons_word_def split: option.splits array_words.splits)

lemma plain_char_literal:
  "plain_char c \<Longrightarrow> c \<noteq> CHR 0x27 \<and> c \<noteq> CHR 0x22 \<and> c \<noteq> CHR 0x5C \<and> \<not> sh_special c"
  by (auto simp: plain_char_def is_digit_def is_name_start_def sh_special_def)

text \<open>On text made of plain characters and single quotes, a quote is never closed
  exactly when the number of single quotes is odd (counting an open quote at the start),
  and the shell never leaves what the model covers.\<close>

lemma arr_words_parity:
  assumes "\<forall>c\<in>set s. plain_char c \<or> c = CHR 0x27" "m \<noteq> InDouble"
  shows "(arr_words m cur s = Unterminated \<longleftrightarrow> (m = InSingle \<longleftrightarrow> even (length (filter ((=) (CHR 0x27)) s)))) \<and>
         arr_words m cur s \<noteq> Unmodelled"
  using assms
proof (induction s arbitrary: m cur)
  case Nil
  then show ?case by (cases m) simp_all
next
  case (Cons c s)
  then have s: "\<forall>c\<in>set s. plain_char c \<or> c = CHR 0x27" by simp
  show ?case
  proof (cases "c = CHR 0x27")
    case True
    with Cons.prems(2) show ?thesis using Cons.IH[OF s, of Unquoted] Cons.IH[OF s, of InSingle]
      by (cases m) auto
  next
    case False
    then have pc: "plain_char c" using Cons.prems(1) by simp
    note lit = plain_char_literal[OF pc] not_sym[OF False]
    show ?thesis
    proof (cases m)
      case Unquoted
      then show ?thesis using lit Cons.IH[OF s, of Unquoted] by (cases "is_blank c") auto
    next
      case InSingle
      then show ?thesis using lit Cons.IH[OF s, of InSingle] by simp
    qed (use Cons.prems(2) in simp)
  qed
qed

text \<open>On the same text, no word the shell reads contains a single quote.\<close>

lemma arr_words_no_quote:
  assumes "\<forall>c\<in>set s. plain_char c \<or> c = CHR 0x27" "m \<noteq> InDouble" "CHR 0x27 \<notin> set (word_of cur)"
    "arr_words m cur s = Words ws"
  shows "\<forall>x\<in>set ws. CHR 0x27 \<notin> set x"
  using assms
proof (induction s arbitrary: m cur ws)
  case Nil
  then show ?case by (cases m) (auto simp: word_of_def split: option.splits)
next
  case (Cons c s)
  then have s: "\<forall>c\<in>set s. plain_char c \<or> c = CHR 0x27" by simp
  show ?case
  proof (cases "c = CHR 0x27")
    case True
    show ?thesis
    proof (cases m)
      case Unquoted
      then have "arr_words InSingle (Some (word_of cur)) s = Words ws" using Cons.prems(4) True by simp
      from Cons.IH[OF s _ _ this] Cons.prems(3) show ?thesis by (simp add: word_of_def)
    next
      case InSingle
      then have "arr_words Unquoted cur s = Words ws" using Cons.prems(4) True by simp
      from Cons.IH[OF s _ _ this] Cons.prems(3) show ?thesis by simp
    qed (use Cons.prems(2) in simp)
  next
    case False
    then have pc: "plain_char c" using Cons.prems(1) by simp
    note lit = plain_char_literal[OF pc] not_sym[OF False]
    show ?thesis
    proof (cases m)
      case Unquoted
      show ?thesis
      proof (cases "is_blank c")
        case True
        with Unquoted lit Cons.prems(4) obtain ws' where
          r: "arr_words Unquoted None s = Words ws'" and ws: "ws = (case cur of None \<Rightarrow> ws' | Some x \<Rightarrow> x # ws')"
          by (auto dest: cons_word_Words)
        have "\<forall>x\<in>set ws'. CHR 0x27 \<notin> set x" using Cons.IH[OF s _ _ r] by (simp add: word_of_def)
        with ws Cons.prems(3) show ?thesis by (auto simp: word_of_def split: option.splits)
      next
        case False
        have r: "arr_words Unquoted (Some (word_of cur @ [c])) s = Words ws"
          using Unquoted lit False Cons.prems(4) by simp
        have q: "CHR 0x27 \<notin> set (word_of (Some (word_of cur @ [c])))"
          using Cons.prems(3) lit by (simp add: word_of_def)
        from Cons.IH[OF s _ q r] show ?thesis by simp
      qed
    next
      case InSingle
      have r: "arr_words InSingle (Some (word_of cur @ [c])) s = Words ws"
        using InSingle lit Cons.prems(4) by simp
      have q: "CHR 0x27 \<notin> set (word_of (Some (word_of cur @ [c])))"
        using Cons.prems(3) lit by (simp add: word_of_def)
      from Cons.IH[OF s _ q r] show ?thesis by simp
    qed (use Cons.prems(2) in simp)
  qed
qed

lemma arr_words_quoted:
  "CHR 0x27 \<notin> set r \<Longrightarrow> arr_words InSingle (Some x) (r @ CHR 0x27 # s) = arr_words Unquoted (Some (x @ r)) s"
  by (induction r arbitrary: x) (auto simp: word_of_def)

lemma classes_str_strs:
  "classes_str (PList (map PStr roles)) = Inr (CHR 0x27 # py_join [CHR 0x27, CHR '' '', CHR 0x27] roles @ [CHR 0x27])"
  by (simp add: classes_str_def)

lemma arr_words_join:
  assumes "roles \<noteq> []" "\<forall>r\<in>set roles. CHR 0x27 \<notin> set r"
  shows "arr_words Unquoted None (CHR 0x27 # py_join [CHR 0x27, CHR '' '', CHR 0x27] roles @ [CHR 0x27]) =
           Words roles"
  using assms
proof (induction roles)
  case (Cons r rs)
  show ?case
  proof (cases "rs = []")
    case True
    with Cons.prems show ?thesis by (simp add: word_of_def arr_words_quoted[of r "[]" "[]", simplified])
  next
    case False
    with Cons have ih: "arr_words Unquoted None (CHR 0x27 # py_join [CHR 0x27, CHR '' '', CHR 0x27] rs @ [CHR 0x27]) =
                        Words rs"
      by simp
    have "arr_words InSingle (Some []) (r @ CHR 0x27 # CHR '' '' # CHR 0x27 # py_join [CHR 0x27, CHR '' '', CHR 0x27] rs @ [CHR 0x27]) =
          arr_words Unquoted (Some r) (CHR '' '' # CHR 0x27 # py_join [CHR 0x27, CHR '' '', CHR 0x27] rs @ [CHR 0x27])"
      using Cons.prems(2) arr_words_quoted[of r "[]"] by simp
    with False ih show ?thesis by (simp add: py_join_Cons is_blank_def word_of_def cons_word_def)
  qed
qed simp

lemma py_replace_ne_skip:
  assumes "\<forall>i<length a. \<not> py_startswith (drop i a @ r) old"
  shows "py_replace_ne old new (a @ r) = a @ py_replace_ne old new r"
  using assms
proof (induction a)
  case (Cons c a)
  from Cons.prems have "\<not> py_startswith (c # a @ r) old" by (metis drop0 length_Cons zero_less_Suc append_Cons)
  moreover from Cons.prems have "\<forall>i<length a. \<not> py_startswith (drop i a @ r) old" by force
  ultimately show ?case using Cons.IH by simp
qed simp

lemma py_replace_ne_hit: "old \<noteq> [] \<Longrightarrow> py_replace_ne old new (old @ r) = new @ py_replace_ne old new r"
  by (cases old) (simp_all add: py_startswith_def)

lemma py_replace_ne_absent: "\<not> py_in old s \<Longrightarrow> py_replace_ne old new s = s"
  by (induction s) simp_all

lemma no_NE_no_start:
  assumes "no_NE a"
  shows "\<forall>i<length a. \<not> py_startswith (drop i a @ r) forward_next_line"
proof (intro allI impI)
  fix i
  assume i: "i < length a"
  show "\<not> py_startswith (drop i a @ r) forward_next_line"
  proof (cases "a ! i = CHR ''N''")
    case True
    with assms i have "Suc i < length a" "a ! Suc i \<noteq> CHR ''E''" by (auto simp: no_NE_def)
    then have "drop i a = a ! i # a ! Suc i # drop (Suc (Suc i)) a"
      by (metis Cons_nth_drop_Suc Suc_lessD)
    with \<open>a ! Suc i \<noteq> CHR ''E''\<close> show ?thesis by (simp add: py_startswith_def forward_next_line_def)
  next
    case False
    from i have "drop i a = a ! i # drop (Suc i) a" by (rule Cons_nth_drop_Suc[symmetric])
    with False show ?thesis by (simp add: py_startswith_def forward_next_line_def)
  qed
qed

lemma NEXT_drop: "prefix ''NEXT'' (drop i cs) \<Longrightarrow> py_in ''NEXT'' cs"
proof -
  assume "prefix ''NEXT'' (drop i cs)"
  then have "sublist ''NEXT'' (drop i cs)" by (rule prefix_imp_sublist)
  moreover have "sublist (drop i cs) cs" by (rule suffix_imp_sublist[OF suffix_drop])
  ultimately show ?thesis unfolding py_in_iff_sublist by (rule sublist_order.order.trans)
qed

lemma cs_no_start:
  assumes "\<not> py_in ''NEXT'' cs"
  shows "\<forall>i<length cs. \<not> py_startswith (drop i cs @ CHR '')'' # r) forward_next_line"
proof (intro allI impI notI)
  fix i
  assume "i < length cs" "py_startswith (drop i cs @ CHR '')'' # r) forward_next_line"
  then have p: "prefix forward_next_line (drop i cs @ CHR '')'' # r)" by (simp add: py_startswith_iff_prefix)
  have "prefix ''NEXT'' forward_next_line" by (simp add: forward_next_line_def)
  from this p have "prefix ''NEXT'' (drop i cs @ CHR '')'' # r)" by (rule prefix_order.trans)
  then consider "prefix ''NEXT'' (drop i cs)" | us where "''NEXT'' = drop i cs @ us" "prefix us (CHR '')'' # r)"
    unfolding prefix_append by blast
  then show False
  proof cases
    case 1
    with assms show False by (blast dest: NEXT_drop)
  next
    case (2 us)
    show False
    proof (cases us)
      case Nil
      with 2 have "prefix ''NEXT'' (drop i cs)" by simp
      with assms show False by (blast dest: NEXT_drop)
    next
      case (Cons u us')
      with 2 have "u = CHR '')''" by simp
      with 2(1) Cons have "CHR '')'' \<in> set ''NEXT''" by (metis in_set_conv_decomp)
      then show False by simp
    qed
  qed
qed

lemma count_py_join:
  "length (filter P (py_join sep rs)) =
     (length rs - 1) * length (filter P sep) + length (filter P (concat rs))"
  by (induction sep rs rule: py_join.induct) simp_all

lemma script_paths_differ:
  "path_join d ''cycle_windows_dofus.sh'' \<noteq> path_join d ''cycle_backward_windows_dofus.sh''"
  by (cases d) simp

lemma update_cycle_scripts_run:
  assumes "load_profiles pf w = Inr (profiles, a)" "profile_entry profiles name = Inr pd"
    "profile_windows pd = Inr (PList (map PStr roles))" "roles \<noteq> []"
  shows "update_cycle_scripts pf (Some d) name w =
           Inr (write_script (path_join d ''cycle_backward_windows_dofus.sh'')
                  (script_content_back (CHR 0x27 # py_join [CHR 0x27, CHR '' '', CHR 0x27] roles @ [CHR 0x27]))
                  (write_script (path_join d ''cycle_windows_dofus.sh'')
                     (script_content (CHR 0x27 # py_join [CHR 0x27, CHR '' '', CHR 0x27] roles @ [CHR 0x27])) w))"
  using assms by (simp add: update_cycle_scripts_def classes_str_strs)

subsection \<open>Properties\<close>

text \<open>C18. For a non-empty list of roles without single quotes, the array literal
  \<open>update_cycle_scripts\<close> builds reads back, under bash's quoting rules, as exactly the
  list of roles.\<close>

theorem classes_str_roundtrip:
  assumes "roles \<noteq> []" "\<forall>r\<in>set roles. CHR 0x27 \<notin> set r"
  shows "\<exists>s. classes_str (PList (map PStr roles)) = Inr s \<and> bash_array_words s = Words roles"
  unfolding classes_str_strs bash_array_words_def using arr_words_join[OF assms] by blast

text \<open>C19. For roles made of plain characters and single quotes, the array literal is a
  bash syntax error (an unterminated quote, so neither script runs) exactly when the
  roles hold an odd number of single quotes altogether; and as soon as one role holds a
  single quote, the literal no longer reads back as the roles.\<close>

theorem classes_str_quote_error:
  assumes "classes_str (PList (map PStr roles)) = Inr s"
    "\<forall>r\<in>set roles. \<forall>c\<in>set r. plain_char c \<or> c = CHR 0x27"
  shows "(bash_array_words s = Unterminated \<longleftrightarrow> odd (length (filter ((=) (CHR 0x27)) (concat roles)))) \<and>
         ((\<exists>r\<in>set roles. CHR 0x27 \<in> set r) \<longrightarrow> bash_array_words s \<noteq> Words roles)"
proof -
  have s: "s = CHR 0x27 # py_join [CHR 0x27, CHR '' '', CHR 0x27] roles @ [CHR 0x27]"
    using assms(1) by (simp add: classes_str_strs)
  have "set (py_join [CHR 0x27, CHR '' '', CHR 0x27] roles) \<subseteq> set (concat roles) \<union> {CHR 0x27, CHR '' ''}"
    by (induction "[CHR 0x27, CHR '' '', CHR 0x27]" roles rule: py_join.induct) auto
  then have dom: "\<forall>c\<in>set s. plain_char c \<or> c = CHR 0x27"
    using assms(2) s by (fastforce simp: plain_char_def)
  have "length (filter ((=) (CHR 0x27)) s) =
          2 + 2 * (length roles - 1) + length (filter ((=) (CHR 0x27)) (concat roles))"
    using s by (simp add: count_py_join)
  then have "bash_array_words s = Unterminated \<longleftrightarrow> odd (length (filter ((=) (CHR 0x27)) (concat roles)))"
    using arr_words_parity[OF dom, of Unquoted None] by (simp add: bash_array_words_def)
  moreover have "bash_array_words s \<noteq> Words roles" if "\<exists>r\<in>set roles. CHR 0x27 \<in> set r"
    using arr_words_no_quote[OF dom, of Unquoted None roles] that by (auto simp: bash_array_words_def word_of_def)
  ultimately show ?thesis by blast
qed

text \<open>C20. For a profile with a non-empty list of roles and a scripts directory,
  \<open>update_cycle_scripts\<close> writes the forward script and the backward script, both
  with mode 0o755, and leaves every other file as it was.\<close>

theorem update_cycle_scripts_writes:
  assumes "load_profiles pf w = Inr (profiles, a)" "profile_entry profiles name = Inr pd"
    "profile_windows pd = Inr (PList (map PStr roles))" "roles \<noteq> []"
  defines "cs \<equiv> CHR 0x27 # py_join [CHR 0x27, CHR '' '', CHR 0x27] roles @ [CHR 0x27]"
  shows "\<exists>w'. update_cycle_scripts pf (Some d) name w = Inr w' \<and>
           files w' (path_join d ''cycle_windows_dofus.sh'') = Some (Text (script_content cs)) \<and>
           files w' (path_join d ''cycle_backward_windows_dofus.sh'') = Some (Text (script_content_back cs)) \<and>
           modes w' (path_join d ''cycle_windows_dofus.sh'') = 493 \<and>
           modes w' (path_join d ''cycle_backward_windows_dofus.sh'') = 493 \<and>
           (\<forall>p. p \<noteq> path_join d ''cycle_windows_dofus.sh'' \<and> p \<noteq> path_join d ''cycle_backward_windows_dofus.sh''
                \<longrightarrow> files w' p = files w p)"
  using update_cycle_scripts_run[OF assms(1-4), of d] script_paths_differ[of d]
  by (simp add: cs_def write_script_def)

text \<open>C21. When no role contains \<open>NEXT\<close>, the backward script is the forward script
  with exactly its ninth line, \<open>NEXT=$(( (INDEX + i) % TOTAL ))\<close>, replaced by
  \<open>NEXT=$(( (INDEX - i + TOTAL) % TOTAL ))\<close>: \<open>str.replace\<close> hits that line
  once and nothing else.\<close>

theorem script_back_replaces_next_line:
  assumes "\<not> py_in ''NEXT'' cs"
  shows "script_content_back cs = lines_out ((script_lines cs)[8 := ''    '' @ backward_next_line])"
proof -
  define P1 where "P1 = ''#!/bin/bash\<newline>STATE_FILE='' @ [CHR 0x22] @ ''/tmp/dofus_window_index'' @ [CHR 0x22] @ ''\<newline>CLASS_INI=(''"
  define P2 where "P2 = '')\<newline>'' @ concat (map (\<lambda>l. l @ ''\<newline>'') (take 5 (drop 3 (script_lines [])))) @ ''    ''"
  define P3 where "P3 = ''\<newline>'' @ concat (map (\<lambda>l. l @ ''\<newline>'') (drop 9 (script_lines [])))"
  have p2: "P2 = CHR '')'' # tl P2" "no_NE P2" unfolding P2_def script_lines_def by code_simp+
  have p1: "no_NE P1" unfolding P1_def by code_simp
  have p3: "\<not> py_in forward_next_line P3" unfolding P3_def script_lines_def by code_simp
  have "lines_out (script_lines cs) = P1 @ cs @ P2 @ forward_next_line @ P3"
    and "lines_out ((script_lines cs)[8 := ''    '' @ backward_next_line]) = P1 @ cs @ P2 @ backward_next_line @ P3"
    unfolding P1_def P2_def P3_def by (simp_all add: script_lines_def lines_out_def forward_next_line_def)
  moreover have "py_replace_ne forward_next_line backward_next_line (P1 @ cs @ P2 @ forward_next_line @ P3) =
                 P1 @ cs @ P2 @ backward_next_line @ P3"
  proof -
    have "forward_next_line \<noteq> []" by (simp add: forward_next_line_def)
    moreover have "\<forall>i<length cs. \<not> py_startswith (drop i cs @ P2 @ forward_next_line @ P3) forward_next_line"
      using cs_no_start[OF assms] p2(1) by (metis append_Cons)
    ultimately show ?thesis
      using no_NE_no_start[OF p1] no_NE_no_start[OF p2(2)]
      by (simp add: py_replace_ne_skip py_replace_ne_hit py_replace_ne_absent[OF p3] del: append_assoc)
  qed
  ultimately show ?thesis by (simp add: script_content_back_def script_content_def py_replace_def forward_next_line_def)
qed

subsection \<open>Witnesses\<close>

theorem classes_str_roundtrip_witness:
  "\<exists>s. classes_str (PList [PStr ''Cra'', PStr ''Iop'']) = Inr s \<and> bash_array_words s = Words [''Cra'', ''Iop'']"
  using classes_str_roundtrip[of "[''Cra'', ''Iop'']"] by simp

theorem classes_str_quote_error_witness:
  "classes_str (PList [PStr ''it's'']) = Inr (CHR 0x27 # ''it's'' @ [CHR 0x27]) \<and>
   bash_array_words (CHR 0x27 # ''it's'' @ [CHR 0x27]) = Unterminated \<and>
   bash_array_words (CHR 0x27 # ''it's'' @ [CHR 0x27]) \<noteq> Words [''it's'']"
proof -
  have c: "classes_str (PList (map PStr [''it's''])) = Inr (CHR 0x27 # ''it's'' @ [CHR 0x27])"
    using classes_str_strs[of "[''it's'']"] by simp
  have p: "\<forall>r\<in>set [''it's'']. \<forall>c\<in>set r. plain_char c \<or> c = CHR 0x27" by code_simp
  from classes_str_quote_error[OF c p] c show ?thesis by simp
qed

lemma demo_profile_windows:
  "load_profiles (Some demo_profiles_path) demo_store =
     Inr (PDict [(''team'', PDict [(''windows'', PList [PStr ''Cra'', PStr ''Iop'']),
                                   (''characters'', PList [PStr ''Bob'', PStr ''Ana''])])], PStr ''team'')"
  "profile_entry (PDict [(''team'', PDict [(''windows'', PList [PStr ''Cra'', PStr ''Iop'']),
                                   (''characters'', PList [PStr ''Bob'', PStr ''Ana''])])]) ''team'' =
     Inr (PDict [(''windows'', PList [PStr ''Cra'', PStr ''Iop'']), (''characters'', PList [PStr ''Bob'', PStr ''Ana''])])"
  "profile_windows (PDict [(''windows'', PList [PStr ''Cra'', PStr ''Iop'']),
                           (''characters'', PList [PStr ''Bob'', PStr ''Ana''])]) = Inr (PList (map PStr [''Cra'', ''Iop'']))"
  by code_simp+

theorem update_cycle_scripts_writes_witness:
  "\<exists>w'. update_cycle_scripts (Some demo_profiles_path) (Some demo_scripts_dir) ''team'' demo_store = Inr w' \<and>
        files w' (path_join demo_scripts_dir ''cycle_windows_dofus.sh'') =
          Some (Text (script_content (CHR 0x27 # ''Cra'' @ CHR 0x27 # CHR '' '' # CHR 0x27 # ''Iop'' @ [CHR 0x27]))) \<and>
        modes w' (path_join demo_scripts_dir ''cycle_backward_windows_dofus.sh'') = 493"
  using update_cycle_scripts_writes[OF demo_profile_windows, of demo_scripts_dir] by auto

theorem script_back_replaces_next_line_witness:
  "script_content_back (CHR 0x27 # ''Cra'' @ CHR 0x27 # CHR '' '' # CHR 0x27 # ''Iop'' @ [CHR 0x27]) =
   lines_out ((script_lines (CHR 0x27 # ''Cra'' @ CHR 0x27 # CHR '' '' # CHR 0x27 # ''Iop'' @ [CHR 0x27]))
                [8 := ''    '' @ backward_next_line])"
proof -
  have "\<not> py_in ''NEXT'' (CHR 0x27 # ''Cra'' @ CHR 0x27 # CHR '' '' # CHR 0x27 # ''Iop'' @ [CHR 0x27])"
    by code_simp
  then show ?thesis by (rule script_back_replaces_next_line)
qed

end
