(* ===== verification/Windows.thy ===== *)
theory Windows
  imports Demo
begin

text \<open>
  The game windows: \<open>get_dofus_windows\<close> (lines 64--76 of \<open>src/dofus_control_gui.py\<close>),
  which lists the windows whose title is \<open>Dofus\<close> or starts with \<open>Dofus-\<close> from
  \<open>wmctrl -l -p\<close>, and \<open>rename_windows\<close> (lines 124--162), which titles them
  \<open>Dofus-ROLE\<close> in the profile's initiative order and starts a background shell meant
  to mute all of them but the first; the shell reads the script text of line 160
  (\<open>popen_bash\<close> in \<open>Shell\<close>). The profile lookup the window operations share
  (\<open>load_profiles\<close>, \<open>.get(profile_name, {})\<close>, the \<open>windows\<close> entry) is
  \<open>profile_initiative\<close>.
\<close>

subsection \<open>Listing the game windows\<close>

definition dofus_title :: "string \<Rightarrow> bool" where
  "dofus_title n \<longleftrightarrow> n = ''Dofus'' \<or> py_startswith n ''Dofus-''"

text \<open>The loop over \<open>out.splitlines()\<close>: \<open>line.split(None, 4)\<close>, lines with fewer
  than five fields skipped.\<close>

fun scan_windows :: "string list \<Rightarrow> (string \<times> string) list" where
  "scan_windows [] = []"
| "scan_windows (l # ls) =
     (let parts = py_split_ws 4 l in
      if length parts < 5 then scan_windows ls
      else if dofus_title (parts ! 4) then (parts ! 0, parts ! 4) # scan_windows ls
      else scan_windows ls)"

definition get_dofus_windows :: "world \<Rightarrow> (string \<times> string) list \<times> world" where
  "get_dofus_windows w =
     (case run_cmd [''wmctrl'', ''-l'', ''-p''] w of
        ((out, code), w1) \<Rightarrow> if code \<noteq> 0 then ([], w1) else (scan_windows (py_splitlines out), w1))"

subsection \<open>The profile's initiative\<close>

text \<open>\<open>profiles, _ = load_profiles()\<close>, \<open>profile_data = profiles.get(profile_name, {})\<close>,
  then the \<open>windows\<close> entry of a dictionary or the value itself.\<close>

definition profile_initiative :: "path option \<Rightarrow> string \<Rightarrow> world \<Rightarrow> pyval py" where
  "profile_initiative pf name w =
     (case load_profiles pf w of
        Inl e \<Rightarrow> Inl e
      | Inr (profiles, _) \<Rightarrow>
          (case profile_entry profiles name of Inl e \<Rightarrow> Inl e | Inr pd \<Rightarrow> profile_windows pd))"

subsection \<open>Renaming\<close>

text \<open>The loop \<open>for idx, (win_id, win_name) in enumerate(windows)\<close>: while
  \<open>idx < len(initiative)\<close>, un-maximize the window, then title it
  \<open>f"Dofus-{initiative[idx]}"\<close>. \<open>len\<close> and the subscript raise on an initiative that
  is not a sequence.\<close>

fun rename_loop :: "pyval \<Rightarrow> nat \<Rightarrow> (string \<times> string) list \<Rightarrow> world \<Rightarrow> world py" where
  "rename_loop ini idx [] w = Inr w"
| "rename_loop ini idx ((win_id, _) # ws) w =
     (case py_len ini of
        Inl e \<Rightarrow> Inl e
      | Inr n \<Rightarrow>
          if idx < n then
            (case py_index ini idx of
               Inl e \<Rightarrow> Inl e
             | Inr v \<Rightarrow>
                 (let new_name = ''Dofus-'' @ py_str v;
                      w1 = snd (run_cmd [''wmctrl'', ''-ir'', win_id, ''-b'', ''remove,maximized_vert,maximized_horz''] w);
                      w2 = snd (run_cmd [''wmctrl'', ''-ir'', win_id, ''-N'', new_name] w1)
                  in rename_loop ini (Suc idx) ws w2))
          else rename_loop ini (Suc idx) ws w)"

text \<open>The loop over \<open>windows[1:]\<close>: \<open>xprop -id ID _NET_WM_PID\<close>, and when the output
  is non-empty and holds \<open>=\<close>, the process id \<open>pid_out.split('=')[1].strip()\<close>
  (\<open>pid_field\<close>, an empty or one-element list).\<close>

definition pid_field :: "string \<Rightarrow> string list" where
  "pid_field pid_out =
     (if pid_out \<noteq> [] \<and> CHR ''='' \<in> set pid_out
      then [py_strip (py_split_char (CHR ''='') pid_out ! 1)] else [])"

fun mute_pids :: "(string \<times> string) list \<Rightarrow> world \<Rightarrow> string list \<times> world" where
  "mute_pids [] w = ([], w)"
| "mute_pids ((win_id, _) # ws) w =
     (case run_cmd [''xprop'', ''-id'', win_id, ''_NET_WM_PID''] w of
        ((pid_out, _), w1) \<Rightarrow>
          (case mute_pids ws w1 of (ps, w2) \<Rightarrow> (pid_field pid_out @ ps, w2)))"

text \<open>The shell pipeline built for one process id (line 160).\<close>

definition mute_cmd :: "string \<Rightarrow> string" where
  \<open>mute_cmd pid =
     ''pactl list sink-inputs 2>/dev/null | grep -B5 '' @ CHR 0x27 # ''process.id = '' @ CHR 0x22 # pid @
     CHR 0x22 # CHR 0x27 # '' | grep '' @ CHR 0x27 # ''Sink Input'' @ CHR 0x27 # '' | awk '' @
     CHR 0x27 # ''{print $3}'' @ CHR 0x27 #
     '' | xargs -r -I {} pactl set-sink-input-mute {} 1 2>/dev/null''\<close>

text \<open>\<open>rename_windows(profile_name)\<close>. The \<open>print\<close> calls are not modelled. The
  background \<open>bash -c\<close> is given the \<open>&&\<close>-chain of the pipelines, which
  \<open>popen_bash\<close> reads and runs.\<close>

definition rename_windows :: "path option \<Rightarrow> string \<Rightarrow> world \<Rightarrow> world py" where
  "rename_windows pf name w =
     (case profile_initiative pf name w of
        Inl e \<Rightarrow> Inl e
      | Inr ini \<Rightarrow>
          if \<not> py_truthy ini then Inr w
          else (case get_dofus_windows w of
                  (windows, w1) \<Rightarrow>
                    if windows = [] then Inr w1
                    else (case rename_loop ini 0 windows w1 of
                            Inl e \<Rightarrow> Inl e
                          | Inr w2 \<Rightarrow>
                              if 1 < length windows then
                                (case mute_pids (tl windows) w2 of
                                   (pids, w3) \<Rightarrow>
                                     if pids \<noteq> [] then Inr (popen_bash (py_join '' && '' (map mute_cmd pids)) w3)
                                     else Inr w3)
                              else Inr w2)))"

lemmas windows_defs [model_simps] =
  dofus_title_def get_dofus_windows_def profile_initiative_def pid_field_def mute_cmd_def
  rename_windows_def

subsection \<open>Specification\<close>

text \<open>A desktop whose \<open>wmctrl -l -p\<close> listing reads back: ids and client machines are
  single fields, titles are one line without surrounding whitespace.\<close>

definition wf_title :: "string \<Rightarrow> bool" where
  "wf_title t \<longleftrightarrow> t \<noteq> [] \<and> (\<forall>c\<in>set t. \<not> py_is_linebreak c) \<and>
                  \<not> py_isspace (hd t) \<and> \<not> py_isspace (last t)"

definition wf_win :: "xwin \<Rightarrow> bool" where
  "wf_win x \<longleftrightarrow> wf_field (wid x) \<and> wf_field (host x) \<and> wf_title (title x)"

text \<open>The game windows of a desktop, in stacking order, as \<open>(id, title)\<close> pairs.\<close>

definition listed_windows :: "xwin list \<Rightarrow> (string \<times> string) list" where
  "listed_windows ws = map (\<lambda>x. (wid x, title x)) (filter (\<lambda>x. dofus_title (title x)) ws)"

text \<open>The intended effect of the renaming: the window listed \<open>k\<close>-th (among the first
  \<open>length roles\<close>) is un-maximized and titled \<open>Dofus-\<close> followed by the \<open>k\<close>-th role.\<close>

definition rename_spec :: "string list \<Rightarrow> (string \<times> string) list \<Rightarrow> xwin \<Rightarrow> xwin" where
  "rename_spec roles ws x =
     (case map_of (zip (map fst ws) roles) (wid x) of
        None \<Rightarrow> x
      | Some r \<Rightarrow> x\<lparr>max_vert := False, max_horz := False, title := ''Dofus-'' @ r\<rparr>)"

text \<open>The process ids \<open>xprop\<close> reports for listed windows: those of the windows that
  exist and have a known pid.\<close>

definition xprop_pids :: "world \<Rightarrow> (string \<times> string) list \<Rightarrow> string list" where
  "xprop_pids w ws =
     concat (map (\<lambda>(i, _). case find_win i (wins w) of
                              None \<Rightarrow> [] | Some x \<Rightarrow> if wpid x = 0 then [] else [dec_nat (wpid x)]) ws)"

subsection \<open>Facts\<close>

lemma wmctrl_lp_fields:
  "wf_win x \<Longrightarrow>
   py_split_ws 4 (wmctrl_lp_line x) = [wid x, dec_int (desk x), dec_nat (wpid x), host x, title x]"
  by (simp del: py_split_ws.simps add: wmctrl_lp_line_def wf_win_def wf_title_def numeral_eq_Suc
      py_split_ws_field dec_nat_field dec_int_field py_split_ws_rest py_isspace_def)

lemma scan_windows_lp:
  "\<forall>x\<in>set xs. wf_win x \<Longrightarrow> scan_windows (map wmctrl_lp_line xs) = listed_windows xs"
  by (induction xs) (simp_all add: wmctrl_lp_fields listed_windows_def)

lemma wmctrl_lp_line_shape:
  assumes "wf_win x"
  shows "wmctrl_lp_line x \<noteq> [] \<and> (\<forall>c\<in>set (wmctrl_lp_line x). \<not> py_is_linebreak c) \<and>
         \<not> py_isspace (hd (wmctrl_lp_line x)) \<and> \<not> py_isspace (last (wmctrl_lp_line x))"
proof -
  from assms have f: "wf_field (wid x)" "wf_field (host x)" "wf_title (title x)"
    by (simp_all add: wf_win_def)
  then have "\<not> py_isspace (hd (wid x))" "wid x \<noteq> []" by (simp_all add: wf_field_def)
  have "\<forall>c\<in>set (wmctrl_lp_line x). \<not> py_is_linebreak c"
  proof
    fix c
    assume "c \<in> set (wmctrl_lp_line x)"
    then have "c \<in> set (wid x) \<or> c \<in> set (dec_int (desk x)) \<or> c \<in> set (dec_nat (wpid x)) \<or>
               c \<in> set (host x) \<or> c \<in> set (title x) \<or> c = CHR '' ''"
      by (auto simp: wmctrl_lp_line_def)
    moreover have "\<not> py_is_linebreak CHR '' ''" by (simp add: py_is_linebreak_def)
    ultimately show "\<not> py_is_linebreak c"
      using f(3) wf_field_no_linebreak[OF dec_nat_field] wf_field_no_linebreak[OF dec_int_field]
        wf_field_no_linebreak[OF f(1)] wf_field_no_linebreak[OF f(2)]
      unfolding wf_title_def by blast
  qed
  moreover have "wmctrl_lp_line x \<noteq> []" "hd (wmctrl_lp_line x) = hd (wid x)"
    using \<open>wid x \<noteq> []\<close> by (simp_all add: wmctrl_lp_line_def)
  moreover have "last (wmctrl_lp_line x) = last (title x)"
    using f(3) by (simp add: wmctrl_lp_line_def wf_title_def)
  ultimately show ?thesis using f(3) \<open>\<not> py_isspace (hd (wid x))\<close> by (simp add: wf_title_def)
qed

lemma run_cmd_wmctrl_lp:
  assumes "''wmctrl'' \<in> set (tools w)"
  shows "run_cmd [''wmctrl'', ''-l'', ''-p''] w =
           ((py_strip (wmctrl_list_p w), 0), w\<lparr>cmd_log := cmd_log w @ [[''wmctrl'', ''-l'', ''-p'']]\<rparr>)"
proof -
  have "exec_tool [''wmctrl'', ''-l'', ''-p''] w' = ((wmctrl_list_p w', 0), w')" for w'
    by (simp add: exec_tool_def)
  then show ?thesis using assms by (simp add: run_cmd_def wmctrl_list_p_def)
qed

text \<open>The listing \<open>wmctrl -l -p\<close> prints reads back, through \<open>strip\<close>,
  \<open>splitlines\<close> and \<open>split(None, 4)\<close>, as the game windows of the desktop.\<close>

lemma listing_reads_back:
  assumes "\<forall>x\<in>set (wins w). wf_win x"
  shows "scan_windows (py_splitlines (py_strip (wmctrl_list_p w))) = listed_windows (wins w)"
proof -
  have "py_splitlines (py_strip (lines_out (map wmctrl_lp_line (wins w)))) = map wmctrl_lp_line (wins w)"
    using assms wmctrl_lp_line_shape by (intro py_splitlines_strip_lines_out) auto
  then show ?thesis by (simp add: wmctrl_list_p_def scan_windows_lp[OF assms])
qed

lemma listed_windows_distinct: "distinct (map wid ws) \<Longrightarrow> distinct (map fst (listed_windows ws))"
  by (simp add: listed_windows_def comp_def distinct_map_filter)

lemma rename_spec_Nil [simp]: "rename_spec [] ws x = x"
  by (simp add: rename_spec_def)

lemma rename_spec_no_windows [simp]: "rename_spec roles [] x = x"
  by (simp add: rename_spec_def)

lemma rename_spec_Cons:
  assumes "i \<notin> set (map fst ws)"
  shows "rename_spec (r # rs) ((i, t) # ws) x =
         (if wid x = i then x\<lparr>max_vert := False, max_horz := False, title := ''Dofus-'' @ r\<rparr>
          else rename_spec rs ws x)"
    and "wid x = i \<Longrightarrow> rename_spec rs ws x = x"
proof -
  have "map_of (zip (map fst ws) rs) i = None"
    using assms by (auto simp: map_of_eq_None_iff dest: set_zip_leftD)
  then show "rename_spec (r # rs) ((i, t) # ws) x =
         (if wid x = i then x\<lparr>max_vert := False, max_horz := False, title := ''Dofus-'' @ r\<rparr>
          else rename_spec rs ws x)" "wid x = i \<Longrightarrow> rename_spec rs ws x = x"
    by (simp_all add: rename_spec_def)
qed

lemma rename_loop_wins:
  assumes "''wmctrl'' \<in> set (tools w)" "distinct (map fst ws)"
  shows "\<exists>w'. rename_loop (PList vs) k ws w = Inr w' \<and>
              wins w' = map (rename_spec (drop k (map py_str vs)) ws) (wins w) \<and>
              tools w' = tools w \<and> sinks w' = sinks w"
  using assms
proof (induction ws arbitrary: k w)
  case Nil
  then show ?case by (simp add: rename_spec_def)
next
  case (Cons p ws)
  obtain i t where p: "p = (i, t)" by fastforce
  show ?case
  proof (cases "k < length vs")
    case True
    let ?w2 = "snd (run_cmd [''wmctrl'', ''-ir'', i, ''-N'', ''Dofus-'' @ py_str (vs ! k)]
                 (snd (run_cmd [''wmctrl'', ''-ir'', i, ''-b'', ''remove,maximized_vert,maximized_horz''] w)))"
    have w2: "wins ?w2 = upd_win i (\<lambda>x. x\<lparr>title := ''Dofus-'' @ py_str (vs ! k)\<rparr>)
                (upd_win i (\<lambda>x. x\<lparr>max_vert := False, max_horz := False\<rparr>) (wins w))"
      "tools ?w2 = tools w" "sinks ?w2 = sinks w"
      using Cons.prems(1) by (simp_all add: run_cmd_wmctrl_ir)
    have i: "i \<notin> set (map fst ws)" "distinct (map fst ws)" using Cons.prems(2) p by auto
    obtain w' where w': "rename_loop (PList vs) (Suc k) ws ?w2 = Inr w'"
      "wins w' = map (rename_spec (drop (Suc k) (map py_str vs)) ws) (wins ?w2)"
      "tools w' = tools w" "sinks w' = sinks w"
      using Cons.IH[of ?w2 "Suc k"] Cons.prems(1) i(2) w2(2,3) by auto
    have drop: "drop k (map py_str vs) = py_str (vs ! k) # drop (Suc k) (map py_str vs)"
      using True Cons_nth_drop_Suc[of k "map py_str vs"] by simp
    have "wins w' = map (rename_spec (drop k (map py_str vs)) (p # ws)) (wins w)"
      unfolding w'(2) w2(1) drop p by (simp add: upd_win_def rename_spec_Cons[OF i(1)])
    with w' True p show ?thesis by simp
  next
    case False
    with Cons.IH[of w "Suc k"] Cons.prems p show ?thesis by auto
  qed
qed

lemma rename_loop_sinks: "rename_loop ini k ws w = Inr w' \<Longrightarrow> sinks w' = sinks w"
  by (induction ini k ws w rule: rename_loop.induct) (auto simp: Let_def split: sum.splits if_splits)

lemma get_dofus_windows_sinks: "sinks (snd (get_dofus_windows w)) = sinks w"
  by (simp add: get_dofus_windows_def split_def)

lemma pid_field_Nil [simp]: "pid_field [] = []"
  by (simp add: pid_field_def)

lemma pid_field_xprop: "pid_field (py_strip (xprop_pid x)) = (if wpid x = 0 then [] else [dec_nat (wpid x)])"
proof (cases "wpid x = 0")
  case True
  have "py_strip ''_NET_WM_PID:  not found.'' = ''_NET_WM_PID:  not found.''"
    by (rule py_strip_id) (simp_all add: py_isspace_def)
  with True show ?thesis by (simp add: xprop_pid_def pid_field_def)
next
  case False
  let ?s = "dec_nat (wpid x)"
  have d: "?s \<noteq> []" "\<not> py_isspace (last ?s)" "CHR ''='' \<notin> set ?s"
    using dec_nat_field[of "wpid x"] dec_nat_digits[of "wpid x"]
    by (auto simp: wf_field_def is_digit_def)
  have strip: "py_strip (''_NET_WM_PID(CARDINAL) = '' @ ?s) = ''_NET_WM_PID(CARDINAL) = '' @ ?s"
    using d by (intro py_strip_id) (simp_all add: py_isspace_def)
  have split: "py_split_char (CHR ''='') (''_NET_WM_PID(CARDINAL) = '' @ ?s) =
                 [''_NET_WM_PID(CARDINAL) '', '' '' @ ?s]"
    using d(3) by (simp add: py_split_char_absent)
  have "py_strip ('' '' @ ?s) = ?s" by (simp add: py_strip_Cons_space py_isspace_def)
  with False show ?thesis
    unfolding xprop_pid_def pid_field_def if_not_P[OF False] strip split by simp
qed

lemma mute_pids_state:
  "snd (mute_pids ws w) =
     w\<lparr>cmd_log := cmd_log w @ map (\<lambda>(i, _). [''xprop'', ''-id'', i, ''_NET_WM_PID'']) ws\<rparr>"
proof (induction ws arbitrary: w)
  case (Cons p ws)
  obtain i t where "p = (i, t)" by fastforce
  then show ?case by (simp add: split_def run_cmd_xprop_state Cons.IH)
qed simp

lemma pid_field_run_xprop:
  assumes "q \<in> set (pid_field (fst (fst (run_cmd [''xprop'', ''-id'', i, ''_NET_WM_PID''] w))))"
  shows "\<exists>n. q = dec_nat n"
proof (cases "''xprop'' \<in> set (tools w)")
  case True
  then show ?thesis using assms
    by (auto simp: run_cmd_xprop pid_field_xprop split: option.splits if_splits)
next
  case False
  then show ?thesis using assms by (simp add: run_cmd_def Let_def)
qed

text \<open>Every process id the loop collects is a decimal numeral.\<close>

lemma mute_pids_numerals: "q \<in> set (fst (mute_pids ws w)) \<Longrightarrow> \<exists>n. q = dec_nat n"
proof (induction ws arbitrary: w)
  case (Cons p ws)
  obtain i t where p: "p = (i, t)" by fastforce
  show ?case using Cons p
    by (auto simp: split_def run_cmd_xprop_state dest: pid_field_run_xprop)
qed simp

subsubsection \<open>The mute script as the shell reads it\<close>

text \<open>The five commands of the pipeline of line 160.\<close>

lemma mute_cmd_pipes:
  "mute_cmd p = py_join '' | ''
     [''pactl list sink-inputs 2>/dev/null'',
      ''grep -B5 '' @ CHR 0x27 # ''process.id = '' @ CHR 0x22 # p @ [CHR 0x22, CHR 0x27],
      ''grep '' @ CHR 0x27 # ''Sink Input'' @ [CHR 0x27],
      ''awk '' @ CHR 0x27 # ''{print $3}'' @ [CHR 0x27],
      ''xargs -r -I {} pactl set-sink-input-mute {} 1 2>/dev/null'']"
  by (simp add: mute_cmd_def)

lemma parse_grep_pid:
  assumes "CHR 0x27 \<notin> set p"
  shows "parse_cmd (''grep -B5 '' @ CHR 0x27 # ''process.id = '' @ CHR 0x22 # p @ [CHR 0x22, CHR 0x27]) =
           GrepBefore 5 (''process.id = '' @ CHR 0x22 # p @ [CHR 0x22])"
proof -
  have q: "CHR 0x27 \<notin> set (''process.id = '' @ CHR 0x22 # p @ [CHR 0x22])" using assms by simp
  have e: "''grep -B5 '' @ CHR 0x27 # ''process.id = '' @ CHR 0x22 # p @ [CHR 0x22, CHR 0x27] =
           (''grep -B5 '' @ CHR 0x27 # ''process.id = '' @ CHR 0x22 # p @ [CHR 0x22]) @ [CHR 0x27]"
    by simp
  show ?thesis
    unfolding parse_cmd_def e drop_devnull_quote_end
    using sq_arg_quoted[OF q] by (simp add: is_digit_def digits_value_def char_digit_def)
qed

lemma parse_mute_cmds:
  "parse_cmd ''pactl list sink-inputs 2>/dev/null'' = PactlList"
  "parse_cmd (''grep '' @ CHR 0x27 # ''Sink Input'' @ [CHR 0x27]) = GrepLines ''Sink Input''"
  "parse_cmd (''awk '' @ CHR 0x27 # ''{print $3}'' @ [CHR 0x27]) = AwkPrint 3"
  "parse_cmd ''xargs -r -I {} pactl set-sink-input-mute {} 1 2>/dev/null'' = XargsMute"
  by code_simp+

text \<open>For a numeral \<open>p\<close>, the shell runs the pipeline of line 160 as the five commands
  \<open>pactl\<close>, \<open>grep -B5\<close>, \<open>grep\<close>, \<open>awk\<close> and \<open>xargs\<close>.\<close>

lemma run_mute_pipeline:
  "run_pipeline (mute_cmd (dec_nat n)) w =
     run_cmds [PactlList, GrepBefore 5 (''process.id = '' @ CHR 0x22 # dec_nat n @ [CHR 0x22]),
               GrepLines ''Sink Input'', AwkPrint 3, XargsMute] [] 0 w"
proof -
  have d: "CHR ''|'' \<notin> set (dec_nat n)" "CHR 0x27 \<notin> set (dec_nat n)"
    using dec_nat_digits[of n] by (auto simp: is_digit_def)
  have "split_on '' | '' [] (mute_cmd (dec_nat n)) =
     [''pactl list sink-inputs 2>/dev/null'',
      ''grep -B5 '' @ CHR 0x27 # ''process.id = '' @ CHR 0x22 # dec_nat n @ [CHR 0x22, CHR 0x27],
      ''grep '' @ CHR 0x27 # ''Sink Input'' @ [CHR 0x27],
      ''awk '' @ CHR 0x27 # ''{print $3}'' @ [CHR 0x27],
      ''xargs -r -I {} pactl set-sink-input-mute {} 1 2>/dev/null'']"
    unfolding mute_cmd_pipes using d(1) by (intro split_on_join[of _ "CHR '' ''" "CHR ''|''" "'' ''"]) simp_all
  then show ?thesis using parse_grep_pid[OF d(2)] parse_mute_cmds by (simp add: run_pipeline_def)
qed

lemma mute_commands_inert:
  "snd (run_cmds [PactlList, GrepBefore k pat, GrepLines ''Sink Input'', AwkPrint 3, XargsMute] ls rc w) = w"
  using xargs_mute_failing[OF sink_headers_fail[of k "py_in pat" w]]
  by (simp add: Let_def split_def)

lemma run_mute_chain: "\<forall>p\<in>set ps. \<exists>n. p = dec_nat n \<Longrightarrow> run_and_list (map mute_cmd ps) w = w"
proof (induction ps)
  case (Cons p ps)
  then obtain n where p: "p = dec_nat n" by auto
  obtain rc w1 where r: "run_pipeline (mute_cmd p) w = (rc, w1)" by fastforce
  then have "w1 = w" using mute_commands_inert p by (metis run_mute_pipeline snd_conv)
  with Cons r show ?case by simp
qed simp

text \<open>The background script built from numerals runs the chained pipelines and has no
  effect besides its log entry.\<close>

lemma popen_mute_script:
  assumes "ps \<noteq> []" "\<forall>p\<in>set ps. \<exists>n. p = dec_nat n"
  shows "popen_bash (py_join '' && '' (map mute_cmd ps)) w =
           w\<lparr>cmd_log := cmd_log w @ [[''bash'', ''-c'', py_join '' && '' (map mute_cmd ps)]]\<rparr>"
proof -
  have "CHR ''&'' \<notin> set (dec_nat n)" for n using dec_nat_digits[of n] by (auto simp: is_digit_def)
  then have "\<forall>a\<in>set (map mute_cmd ps). CHR ''&'' \<notin> set a"
    using assms(2) by (auto simp: mute_cmd_def)
  then have "split_on '' && '' [] (py_join '' && '' (map mute_cmd ps)) = map mute_cmd ps"
    using assms(1) by (intro split_on_join[of _ "CHR '' ''" "CHR ''&''" "''& ''"]) simp_all
  then show ?thesis using run_mute_chain[OF assms(2)] by (simp add: popen_bash_def)
qed

subsection \<open>Properties\<close>

text \<open>C7. On a desktop whose listing reads back, \<open>get_dofus_windows\<close> runs
  \<open>wmctrl -l -p\<close> once and returns exactly the windows titled \<open>Dofus\<close> or
  \<open>Dofus-...\<close>, as (id, title) pairs in the order wmctrl lists them.\<close>

theorem get_dofus_windows_lists:
  assumes "''wmctrl'' \<in> set (tools w)" "\<forall>x\<in>set (wins w). wf_win x"
  shows "get_dofus_windows w =
           (listed_windows (wins w), w\<lparr>cmd_log := cmd_log w @ [[''wmctrl'', ''-l'', ''-p'']]\<rparr>)"
  by (simp add: get_dofus_windows_def run_cmd_wmctrl_lp[OF assms(1)] listing_reads_back[OF assms(2)])

text \<open>C8. For a profile whose initiative is a non-empty list, \<open>rename_windows\<close>
  un-maximizes the \<open>k\<close>-th listed game window and titles it \<open>Dofus-\<close> followed by
  \<open>str(initiative[k])\<close>, for every \<open>k\<close> below both lengths, and changes no other
  window.\<close>

theorem rename_windows_titles:
  assumes "profile_initiative pf name w = Inr (PList vs)" "vs \<noteq> []"
    and "''wmctrl'' \<in> set (tools w)" "\<forall>x\<in>set (wins w). wf_win x" "distinct (map wid (wins w))"
  shows "\<exists>w'. rename_windows pf name w = Inr w' \<and>
              wins w' = map (rename_spec (map py_str vs) (listed_windows (wins w))) (wins w)"
proof -
  let ?ws = "listed_windows (wins w)"
  let ?w1 = "w\<lparr>cmd_log := cmd_log w @ [[''wmctrl'', ''-l'', ''-p'']]\<rparr>"
  have g: "get_dofus_windows w = (?ws, ?w1)"
    by (simp add: get_dofus_windows_def run_cmd_wmctrl_lp[OF assms(3)] listing_reads_back[OF assms(4)])
  obtain w2 where l: "rename_loop (PList vs) 0 ?ws ?w1 = Inr w2"
    "wins w2 = map (rename_spec (map py_str vs) ?ws) (wins w)"
    using rename_loop_wins[of ?w1 ?ws vs 0] assms(3) listed_windows_distinct[OF assms(5)] by auto
  show ?thesis
    using assms(1,2) g l by (auto simp: rename_windows_def mute_pids_state split_def)
qed

text \<open>C9. Whatever the profile and the desktop, a run of \<open>rename_windows\<close> that
  returns leaves every audio sink input as it was: the background shell runs the
  pipelines of line 160, whose \<open>awk '{print $3}'\<close> hands \<open>#N\<close>, not \<open>N\<close>, to
  \<open>pactl set-sink-input-mute\<close>, which rejects it.\<close>

theorem rename_windows_never_mutes:
  assumes "rename_windows pf name w = Inr w'"
  shows "sinks w' = sinks w"
proof -
  have pops: "sinks (popen_bash (py_join '' && '' (map mute_cmd (fst (mute_pids ws w2)))) w3) = sinks w3"
    if "fst (mute_pids ws w2) \<noteq> []" for ws w2 w3
    using popen_mute_script[OF that, of w3] mute_pids_numerals by auto
  show ?thesis using assms unfolding rename_windows_def split_def
    by (auto simp: get_dofus_windows_sinks mute_pids_state pops split: sum.splits if_splits
             dest!: rename_loop_sinks)
qed

text \<open>C10. With \<open>xprop\<close> installed, the loop over \<open>windows[1:]\<close> collects, in order,
  the decimal process id of each listed window that exists and whose pid is known (the
  \<open>_NET_WM_PID\<close> line parsed by \<open>split('=')[1].strip()\<close>), skipping the others, and
  only logs one \<open>xprop\<close> call per window.\<close>

theorem mute_pids_xprop:
  assumes "''xprop'' \<in> set (tools w)"
  shows "mute_pids ws w = (xprop_pids w ws, w\<lparr>cmd_log := cmd_log w @ map (\<lambda>(i, _). [''xprop'', ''-id'', i, ''_NET_WM_PID'']) ws\<rparr>)"
  using assms
proof (induction ws arbitrary: w)
  case Nil
  then show ?case by (simp add: xprop_pids_def)
next
  case (Cons p ws)
  obtain i t where p: "p = (i, t)" by fastforce
  let ?w1 = "w\<lparr>cmd_log := cmd_log w @ [[''xprop'', ''-id'', i, ''_NET_WM_PID'']]\<rparr>"
  have ih: "mute_pids ws ?w1 = (xprop_pids ?w1 ws, ?w1\<lparr>cmd_log := cmd_log ?w1 @ map (\<lambda>(i, _). [''xprop'', ''-id'', i, ''_NET_WM_PID'']) ws\<rparr>)"
    using Cons by simp
  have "xprop_pids ?w1 ws = xprop_pids w ws" by (simp add: xprop_pids_def)
  with ih Cons.prems p show ?case
    by (auto simp: run_cmd_xprop xprop_pids_def pid_field_xprop split: option.splits)
qed

subsection \<open>Witnesses\<close>

lemma demo_tools_all:
  "''wmctrl'' \<in> set (tools demo_store)" "''xprop'' \<in> set (tools demo_store)"
  "''wmctrl'' \<in> set (tools demo_world)" "''xprop'' \<in> set (tools demo_world)"
  by (simp_all add: demo_store_def demo_world_def)

lemma demo_wins_wf: "\<forall>x\<in>set (wins demo_world). wf_win x" "\<forall>x\<in>set (wins demo_store). wf_win x"
  by (simp_all add: demo_store_def demo_world_def demo_win_def wf_win_def wf_field_def wf_title_def
                    py_isspace_def py_is_linebreak_def)

lemma demo_listed:
  "listed_windows (wins demo_world) = [(''0x01'', ''Dofus-Iop''), (''0x03'', ''Dofus-Cra'')]"
  "listed_windows (wins demo_store) = [(''0x01'', ''Dofus-Iop''), (''0x03'', ''Dofus-Cra'')]"
  by (simp_all add: demo_store_def demo_world_def demo_win_def listed_windows_def dofus_title_def
                    py_startswith_def)

lemma demo_initiative:
  "profile_initiative (Some demo_profiles_path) ''team'' demo_store = Inr (PList [PStr ''Cra'', PStr ''Iop''])"
  by code_simp

theorem get_dofus_windows_lists_witness:
  "get_dofus_windows demo_world =
     ([(''0x01'', ''Dofus-Iop''), (''0x03'', ''Dofus-Cra'')],
      demo_world\<lparr>cmd_log := cmd_log demo_world @ [[''wmctrl'', ''-l'', ''-p'']]\<rparr>)"
  using get_dofus_windows_lists[OF demo_tools_all(3) demo_wins_wf(1)] by (simp only: demo_listed)

theorem rename_windows_titles_witness:
  "\<exists>w'. rename_windows (Some demo_profiles_path) ''team'' demo_store = Inr w' \<and>
        map title (wins w') = [''Dofus-Cra'', ''xterm'', ''Dofus-Iop'']"
proof -
  have d: "distinct (map wid (wins demo_store))"
    by (simp add: demo_store_def demo_world_def demo_win_def)
  obtain w' where "rename_windows (Some demo_profiles_path) ''team'' demo_store = Inr w'"
    "wins w' = map (rename_spec [''Cra'', ''Iop''] [(''0x01'', ''Dofus-Iop''), (''0x03'', ''Dofus-Cra'')])
                 (wins demo_store)"
    using rename_windows_titles[OF demo_initiative _ demo_tools_all(1) demo_wins_wf(2) d]
    unfolding demo_listed by auto
  then show ?thesis
    by (simp add: rename_spec_def demo_store_def demo_world_def demo_win_def)
qed

theorem rename_windows_never_mutes_witness:
  "\<exists>w'. rename_windows (Some demo_profiles_path) ''team'' demo_store = Inr w' \<and>
        sinks w' = sinks demo_store"
proof -
  have "\<not> isl (rename_windows (Some demo_profiles_path) ''team'' demo_store)" by code_simp
  then obtain w' where r: "rename_windows (Some demo_profiles_path) ''team'' demo_store = Inr w'"
    by (cases "rename_windows (Some demo_profiles_path) ''team'' demo_store") auto
  with rename_windows_never_mutes[OF r] show ?thesis by blast
qed

theorem mute_pids_xprop_witness:
  "mute_pids [(''0x01'', ''Dofus-Iop''), (''0x02'', ''xterm''), (''0x03'', ''Dofus-Cra'')] demo_world =
     ([''11'', ''13''], demo_world\<lparr>cmd_log := cmd_log demo_world @
        [[''xprop'', ''-id'', ''0x01'', ''_NET_WM_PID''], [''xprop'', ''-id'', ''0x02'', ''_NET_WM_PID''],
         [''xprop'', ''-id'', ''0x03'', ''_NET_WM_PID'']]\<rparr>)"
proof -
  have "xprop_pids demo_world [(''0x01'', ''Dofus-Iop''), (''0x02'', ''xterm''), (''0x03'', ''Dofus-Cra'')] =
          [''11'', ''13'']" by code_simp
  then show ?thesis using mute_pids_xprop[OF demo_tools_all(4)] by simp
qed

end
