(* ===== verification/Reorganize.thy ===== *)
theory Reorganize
  imports Windows
begin

text \<open>
  \<open>reorganize_windows\<close> (lines 164--208 of \<open>src/dofus_control_gui.py\<close>): it reads the
  current desktop from \<open>wmctrl -d\<close>, maps each role of the initiative to a game window
  (first role whose name occurs in the title, case-insensitively or as \<open>Dofus-ROLE\<close>;
  then left-over windows to left-over roles), moves every game window to the other
  desktop, and moves the mapped windows back in initiative order, which restacks them.
  The dictionary \<open>window_map\<close> is an association list keyed by the Python key of the
  role (\<open>True\<close> and \<open>1\<close> are the same key); the \<open>time.sleep\<close> calls are not modelled.
\<close>

subsection \<open>Desktops\<close>

text \<open>\<open>next((line.split()[0] for line in out.splitlines() if ' * ' in line), '0')\<close>;
  a line holding \<open> * \<close> has a first word.\<close>

definition current_ws_of :: "string \<Rightarrow> string" where
  "current_ws_of out =
     (case find (py_in '' * '') (py_splitlines out) of None \<Rightarrow> ''0'' | Some l \<Rightarrow> py_words l ! 0)"

definition other_ws_of :: "string \<Rightarrow> string" where
  "other_ws_of cur = (if cur = ''0'' then ''1'' else ''0'')"

subsection \<open>The window map\<close>

text \<open>Dictionary keys: only scalars are hashable, and \<open>True == 1\<close>, \<open>False == 0\<close>.\<close>

fun py_hashable :: "pyval \<Rightarrow> bool" where
  "py_hashable (PList _) = False"
| "py_hashable (PDict _) = False"
| "py_hashable _ = True"

definition py_key :: "pyval \<Rightarrow> pyval" where
  "py_key v = (case v of PBool b \<Rightarrow> PInt (if b then 1 else 0) | _ \<Rightarrow> v)"

definition class_matches :: "string \<Rightarrow> string \<Rightarrow> bool" where
  "class_matches c wn \<longleftrightarrow> py_in (py_lower c) (py_lower wn) \<or> py_in (''Dofus-'' @ c) wn"

text \<open>The inner loop \<open>for class_name in initiative\<close> with its \<open>break\<close>:
  \<open>class_name.lower()\<close> raises on a role that is not a string.\<close>

fun match_class :: "pyval list \<Rightarrow> string \<Rightarrow> string option py" where
  "match_class [] wn = Inr None"
| "match_class (PStr c # cs) wn = (if class_matches c wn then Inr (Some c) else match_class cs wn)"
| "match_class (_ # cs) wn = Inl AttributeError"

fun build_window_map ::
  "pyval list \<Rightarrow> (string \<times> string) list \<Rightarrow> (pyval \<times> string) list \<Rightarrow> (pyval \<times> string) list py" where
  "build_window_map cls [] m = Inr m"
| "build_window_map cls ((win_id, win_name) # ws) m =
     (case match_class cls win_name of
        Inl e \<Rightarrow> Inl e
      | Inr None \<Rightarrow> build_window_map cls ws m
      | Inr (Some c) \<Rightarrow> build_window_map cls ws (alist_set m (PStr c) win_id))"

text \<open>\<open>[c for c in initiative if c not in mapped_classes]\<close>.\<close>

fun unmapped_classes :: "pyval list \<Rightarrow> pyval list \<Rightarrow> pyval list py" where
  "unmapped_classes [] mapped = Inr []"
| "unmapped_classes (c # cs) mapped =
     (if \<not> py_hashable c then Inl TypeError
      else (case unmapped_classes cs mapped of
              Inl e \<Rightarrow> Inl e
            | Inr r \<Rightarrow> Inr (if py_key c \<in> set mapped then r else c # r)))"

text \<open>\<open>[w for w in windows if not any(w[1].find(c) >= 0 for c in mapped_classes)]\<close>;
  the keys of the map are strings at that point.\<close>

definition unmapped_windows :: "(string \<times> string) list \<Rightarrow> pyval list \<Rightarrow> (string \<times> string) list" where
  "unmapped_windows ws mapped =
     filter (\<lambda>(_, wn). \<not> list_ex (\<lambda>k. case k of PStr c \<Rightarrow> 0 \<le> py_find wn c | _ \<Rightarrow> False) mapped) ws"

text \<open>Lines 184--197: the matching loop, then, when fewer roles than windows were
  mapped, the left-over windows paired with the left-over roles.\<close>

definition window_map_of :: "pyval list \<Rightarrow> (string \<times> string) list \<Rightarrow> (pyval \<times> string) list py" where
  "window_map_of cls windows =
     (case build_window_map cls windows [] of
        Inl e \<Rightarrow> Inl e
      | Inr m \<Rightarrow>
          if length m < length windows then
            (case unmapped_classes cls (map fst m) of
               Inl e \<Rightarrow> Inl e
             | Inr uc \<Rightarrow>
                 Inr (fold (\<lambda>(win, c) m. alist_set m (py_key c) (fst win))
                        (zip (unmapped_windows windows (map fst m)) uc) m))
          else Inr m)"

subsection \<open>Moving the windows\<close>

fun move_all :: "string \<Rightarrow> (string \<times> string) list \<Rightarrow> world \<Rightarrow> world" where
  "move_all d [] w = w"
| "move_all d ((win_id, _) # ws) w = move_all d ws (snd (run_cmd [''wmctrl'', ''-ir'', win_id, ''-t'', d] w))"

text \<open>\<open>for class_name in initiative: if class_name in window_map: ...\<close>; the
  membership test raises on an unhashable role.\<close>

fun restore :: "string \<Rightarrow> pyval list \<Rightarrow> (pyval \<times> string) list \<Rightarrow> world \<Rightarrow> world py" where
  "restore d [] m w = Inr w"
| "restore d (c # cs) m w =
     (if \<not> py_hashable c then Inl TypeError
      else (case map_of m (py_key c) of
              None \<Rightarrow> restore d cs m w
            | Some win_id \<Rightarrow> restore d cs m (snd (run_cmd [''wmctrl'', ''-ir'', win_id, ''-t'', d] w))))"

definition reorganize_windows :: "path option \<Rightarrow> string \<Rightarrow> world \<Rightarrow> world py" where
  "reorganize_windows pf name w =
     (case profile_initiative pf name w of
        Inl e \<Rightarrow> Inl e
      | Inr ini \<Rightarrow>
          if \<not> py_truthy ini then Inr w
          else (case get_dofus_windows w of
                  (windows, w1) \<Rightarrow>
                    if windows = [] then Inr w1
                    else (case run_cmd [''wmctrl'', ''-d''] w1 of
                            ((out, _), w2) \<Rightarrow>
                              (let cur = current_ws_of out; oth = other_ws_of cur in
                               case py_iter ini of
                                 Inl e \<Rightarrow> Inl e
                               | Inr cls \<Rightarrow>
                                   (case window_map_of cls windows of
                                      Inl e \<Rightarrow> Inl e
                                    | Inr m \<Rightarrow> restore cur cls m (move_all oth windows w2))))))"

lemmas reorganize_defs [model_simps] =
  current_ws_of_def other_ws_of_def py_key_def class_matches_def unmapped_windows_def
  window_map_of_def reorganize_windows_def

subsection \<open>Specification\<close>

text \<open>A window list in which the windows with the given ids are moved to desktop \<open>d\<close>.\<close>

definition moved :: "string list \<Rightarrow> int \<Rightarrow> xwin \<Rightarrow> xwin" where
  "moved ids d x = (if wid x \<in> set ids then x\<lparr>desk := d\<rparr> else x)"

text \<open>The ids the final loop moves back, in initiative order.\<close>

definition restored_ids :: "pyval list \<Rightarrow> (pyval \<times> string) list \<Rightarrow> string list" where
  "restored_ids cls m = concat (map (\<lambda>c. case map_of m (py_key c) of None \<Rightarrow> [] | Some i \<Rightarrow> [i]) cls)"

text \<open>A desktop list \<open>wmctrl -d\<close> prints in a form that reads back: the current desktop
  exists and the names are single-line, trimmed and free of \<open>*\<close>.\<close>

definition desktops_ok :: "world \<Rightarrow> bool" where
  "desktops_ok w \<longleftrightarrow> cur_desk w < length (desk_names w) \<and>
                      (\<forall>n\<in>set (desk_names w). wf_title n \<and> CHR ''*'' \<notin> set n)"

subsection \<open>Facts\<close>

lemma run_cmd_wmctrl_t:
  assumes "''wmctrl'' \<in> set (tools w)" "e \<noteq> []" "\<forall>c\<in>set e. is_digit c"
  shows "snd (run_cmd [''wmctrl'', ''-ir'', i, ''-t'', e] w) =
           w\<lparr>cmd_log := cmd_log w @ [[''wmctrl'', ''-ir'', i, ''-t'', e]],
             wins := upd_win i (\<lambda>x. x\<lparr>desk := int (digits_value e)\<rparr>) (wins w)\<rparr>"
  using assms by (simp add: run_cmd_def Let_def exec_tool_def wm_on_win_def upd_win_absent split: option.splits)

lemma upd_win_moved: "upd_win i (\<lambda>x. x\<lparr>desk := d\<rparr>) (map (moved ids d) xs) = map (moved (i # ids) d) xs"
  by (simp add: upd_win_def moved_def)

lemma move_all_state:
  assumes "''wmctrl'' \<in> set (tools w)" "e \<noteq> []" "\<forall>c\<in>set e. is_digit c"
  shows "move_all e ws w =
           w\<lparr>cmd_log := cmd_log w @ map (\<lambda>(i, _). [''wmctrl'', ''-ir'', i, ''-t'', e]) ws,
             wins := map (moved (map fst ws) (int (digits_value e))) (wins w)\<rparr>"
  using assms(1)
proof (induction ws arbitrary: w)
  case Nil
  then show ?case by (simp add: moved_def)
next
  case (Cons p ws)
  obtain i t where p: "p = (i, t)" by fastforce
  have "map (moved (map fst ws) (int (digits_value e))) (upd_win i (\<lambda>x. x\<lparr>desk := int (digits_value e)\<rparr>) (wins w))
        = map (moved (i # map fst ws) (int (digits_value e))) (wins w)"
    by (auto simp: upd_win_def moved_def)
  with Cons p assms(2,3) show ?case by (simp add: run_cmd_wmctrl_t)
qed

lemma moved_moved: "moved ids d \<circ> moved [i] d = moved (i # ids) d"
  by (simp add: moved_def fun_eq_iff)

lemma restore_state:
  assumes "''wmctrl'' \<in> set (tools w)" "e \<noteq> []" "\<forall>c\<in>set e. is_digit c" "\<forall>c\<in>set cls. py_hashable c"
  shows "restore e cls m w =
           Inr (w\<lparr>cmd_log := cmd_log w @ map (\<lambda>i. [''wmctrl'', ''-ir'', i, ''-t'', e]) (restored_ids cls m),
                 wins := map (moved (restored_ids cls m) (int (digits_value e))) (wins w)\<rparr>)"
  using assms(1,4)
proof (induction cls arbitrary: w)
  case Nil
  then show ?case by (simp add: moved_def restored_ids_def)
next
  case (Cons c cls)
  show ?case
  proof (cases "map_of m (py_key c)")
    case None
    with Cons show ?thesis by (simp add: restored_ids_def)
  next
    case (Some i)
    have "upd_win i (\<lambda>x. x\<lparr>desk := int (digits_value e)\<rparr>) (wins w) = map (moved [i] (int (digits_value e))) (wins w)"
      by (simp add: upd_win_def moved_def)
    with Cons Some assms(2,3) show ?thesis
      by (simp add: restored_ids_def run_cmd_wmctrl_t moved_moved)
  qed
qed

lemma not_py_in_absent: "c \<in> set n \<Longrightarrow> c \<notin> set h \<Longrightarrow> \<not> py_in n h"
  using set_mono_sublist by (fastforce simp: py_in_iff_sublist)

lemma d_line_star:
  assumes "CHR ''*'' \<notin> set n"
  shows "py_in '' * '' (wmctrl_d_line c i n) \<longleftrightarrow> i = c"
proof
  assume "py_in '' * '' (wmctrl_d_line c i n)"
  moreover have "CHR ''*'' \<notin> set (dec_nat i)" using dec_nat_digits[of i] by (auto simp: is_digit_def)
  ultimately show "i = c" using assms not_py_in_absent[of "CHR ''*''" "'' * ''"]
    by (auto simp: wmctrl_d_line_def split: if_splits)
next
  assume "i = c"
  then have "wmctrl_d_line c i n = (dec_nat c @ '' '') @ '' * '' @ (''DG: N/A  VP: N/A  WA: N/A  '' @ n)"
    by (simp add: wmctrl_d_line_def)
  then show "py_in '' * '' (wmctrl_d_line c i n)" by (simp only: py_in_append)
qed

lemma d_line_first_word: "py_words (wmctrl_d_line c i n) ! 0 = dec_nat i"
proof -
  have "wmctrl_d_line c i n = dec_nat i @ CHR '' '' # ('' '' @ (if i = c then ''*'' else ''-'') @ '' DG: N/A  VP: N/A  WA: N/A  '' @ n)"
    by (simp add: wmctrl_d_line_def)
  moreover have "\<forall>ch\<in>set (dec_nat i). \<not> py_isspace ch" using dec_nat_field[of i] by (simp add: wf_field_def)
  ultimately show ?thesis by (simp add: py_words_def words_by_append_sep py_isspace_def)
qed

lemma d_line_shape:
  assumes "wf_title n"
  shows "wmctrl_d_line c i n \<noteq> [] \<and> (\<forall>ch\<in>set (wmctrl_d_line c i n). \<not> py_is_linebreak ch) \<and>
         \<not> py_isspace (hd (wmctrl_d_line c i n)) \<and> \<not> py_isspace (last (wmctrl_d_line c i n))"
proof -
  have d: "dec_nat i \<noteq> []" "\<not> py_isspace (hd (dec_nat i))" "\<forall>ch\<in>set (dec_nat i). \<not> py_is_linebreak ch"
    using dec_nat_field[of i] wf_field_no_linebreak[OF dec_nat_field] by (auto simp: wf_field_def)
  have "\<forall>ch\<in>set (wmctrl_d_line c i n). \<not> py_is_linebreak ch"
    using d(3) assms by (auto simp: wmctrl_d_line_def wf_title_def py_is_linebreak_def)
  with d assms show ?thesis by (simp add: wmctrl_d_line_def wf_title_def)
qed

lemma find_indexed:
  assumes "c < length xs" "\<And>i. i < length xs \<Longrightarrow> P (f i (xs ! i)) \<longleftrightarrow> i = c"
  shows "find P (map (\<lambda>(i, n). f i n) (zip [0..<length xs] xs)) = Some (f c (xs ! c))"
  using assms by (auto simp: find_Some_iff)

lemma current_ws_desktops:
  assumes "desktops_ok w"
  shows "current_ws_of (py_strip (wmctrl_desktops w)) = dec_nat (cur_desk w)"
proof -
  let ?ns = "desk_names w" and ?c = "cur_desk w"
  let ?ls = "map (\<lambda>(i, n). wmctrl_d_line ?c i n) (zip [0..<length ?ns] ?ns)"
  have ok: "?c < length ?ns" "\<forall>n\<in>set ?ns. wf_title n \<and> CHR ''*'' \<notin> set n"
    using assms by (simp_all add: desktops_ok_def)
  have "\<forall>l\<in>set ?ls. l \<noteq> [] \<and> (\<forall>ch\<in>set l. \<not> py_is_linebreak ch) \<and> \<not> py_isspace (hd l) \<and> \<not> py_isspace (last l)"
  proof
    fix l
    assume "l \<in> set ?ls"
    then obtain i n where "l = wmctrl_d_line ?c i n" "n \<in> set ?ns" by (auto dest: set_zip_rightD)
    with ok(2) d_line_shape[of n ?c i]
    show "l \<noteq> [] \<and> (\<forall>ch\<in>set l. \<not> py_is_linebreak ch) \<and> \<not> py_isspace (hd l) \<and> \<not> py_isspace (last l)"
      by simp
  qed
  then have lines: "py_splitlines (py_strip (wmctrl_desktops w)) = ?ls"
    by (simp add: wmctrl_desktops_def py_splitlines_strip_lines_out)
  have "find (py_in '' * '') ?ls = Some (wmctrl_d_line ?c ?c (?ns ! ?c))"
    using ok by (intro find_indexed) (auto simp: d_line_star)
  then show ?thesis by (simp add: current_ws_of_def lines d_line_first_word)
qed

lemma set_alist_set: "set (alist_set ps k v) \<subseteq> insert (k, v) (set ps)"
  by (induction ps) (auto split: if_splits)

lemma match_class_mem: "match_class cls wn = Inr (Some c) \<Longrightarrow> PStr c \<in> set cls"
  by (induction cls wn rule: match_class.induct) (auto split: if_splits)

lemma py_key_PStr [simp]: "py_key (PStr s) = PStr s"
  by (simp add: py_key_def)

lemma alist_set_keys_values:
  "fst ` set (alist_set m k v) \<subseteq> insert k (fst ` set m)"
  "snd ` set (alist_set m k v) \<subseteq> insert v (snd ` set m)"
  using image_mono[OF set_alist_set[of m k v], of fst] image_mono[OF set_alist_set[of m k v], of snd]
  by simp_all

lemma build_window_map_inv:
  assumes "build_window_map cls ws m = Inr m'" "distinct (map fst m)"
  shows "distinct (map fst m') \<and> fst ` set m' \<subseteq> fst ` set m \<union> py_key ` set cls \<and>
         snd ` set m' \<subseteq> snd ` set m \<union> fst ` set ws"
  using assms
proof (induction cls ws m rule: build_window_map.induct)
  case (2 cls win_id win_name ws m)
  show ?case
  proof (cases "match_class cls win_name")
    case (Inr r)
    show ?thesis
    proof (cases r)
      case None
      with 2 Inr show ?thesis by auto
    next
      case (Some c)
      with 2 Inr have ih: "distinct (map fst m') \<and>
          fst ` set m' \<subseteq> fst ` set (alist_set m (PStr c) win_id) \<union> py_key ` set cls \<and>
          snd ` set m' \<subseteq> snd ` set (alist_set m (PStr c) win_id) \<union> fst ` set ws"
        by simp
      have pc: "PStr c \<in> py_key ` set cls" using match_class_mem[of cls win_name c] Inr Some
        by (metis image_eqI py_key_PStr)
      note kv = alist_set_keys_values[of m "PStr c" win_id]
      have "fst ` set m' \<subseteq> fst ` set (alist_set m (PStr c) win_id) \<union> py_key ` set cls"
        using ih by simp
      also have "\<dots> \<subseteq> insert (PStr c) (fst ` set m) \<union> py_key ` set cls"
        using kv(1) by (rule Un_mono) simp
      also have "\<dots> = fst ` set m \<union> py_key ` set cls" using pc by auto
      finally have k: "fst ` set m' \<subseteq> fst ` set m \<union> py_key ` set cls" .
      have "snd ` set m' \<subseteq> snd ` set (alist_set m (PStr c) win_id) \<union> fst ` set ws"
        using ih by simp
      also have "\<dots> \<subseteq> insert win_id (snd ` set m) \<union> fst ` set ws"
        using kv(2) by (rule Un_mono) simp
      also have "\<dots> = snd ` set m \<union> fst ` set ((win_id, win_name) # ws)" by auto
      finally show ?thesis using ih k by simp
    qed
  qed (use 2 in simp)
qed simp

lemma unmapped_classes_sub: "unmapped_classes cls mapped = Inr uc \<Longrightarrow> set uc \<subseteq> set cls"
  by (induction cls arbitrary: uc) (auto split: if_splits sum.splits)

lemma fold_alist_set_inv:
  assumes "distinct (map fst m)"
  shows "distinct (map fst (fold (\<lambda>(win, c) m. alist_set m (py_key c) (fst win)) ps m)) \<and>
         set (fold (\<lambda>(win, c) m. alist_set m (py_key c) (fst win)) ps m) \<subseteq>
           set m \<union> (\<lambda>(win, c). (py_key c, fst win)) ` set ps"
  using assms
proof (induction ps arbitrary: m)
  case (Cons p ps)
  obtain win c where p: "p = (win, c)" by fastforce
  let ?m1 = "alist_set m (py_key c) (fst win)"
  have "distinct (map fst ?m1)" using Cons.prems by (rule distinct_alist_set)
  then have "distinct (map fst (fold (\<lambda>(win, c) m. alist_set m (py_key c) (fst win)) ps ?m1)) \<and>
         set (fold (\<lambda>(win, c) m. alist_set m (py_key c) (fst win)) ps ?m1) \<subseteq>
           set ?m1 \<union> (\<lambda>(win, c). (py_key c, fst win)) ` set ps"
    by (rule Cons.IH)
  with set_alist_set[of m "py_key c" "fst win"] p show ?case by auto
qed simp

lemma fold_alist_set_keys_values:
  fixes ps :: "((string \<times> string) \<times> pyval) list"
  assumes "distinct (map fst m)"
  defines "m' \<equiv> fold (\<lambda>(win, c) m. alist_set m (py_key c) (fst win)) ps m"
  shows "distinct (map fst m')" "fst ` set m' \<subseteq> fst ` set m \<union> py_key ` snd ` set ps"
    "snd ` set m' \<subseteq> snd ` set m \<union> fst ` fst ` set ps"
proof -
  note f = fold_alist_set_inv[OF assms(1), of ps]
  then show "distinct (map fst m')" by (simp add: m'_def)
  have "fst ` (\<lambda>(win, c). (py_key c, fst win)) ` set ps = py_key ` snd ` set ps"
    "snd ` (\<lambda>(win, c). (py_key c, fst win)) ` set ps = fst ` fst ` set ps"
    by (simp_all add: image_image case_prod_beta)
  with image_mono[OF conjunct2[OF f], of fst] image_mono[OF conjunct2[OF f], of snd]
  show "fst ` set m' \<subseteq> fst ` set m \<union> py_key ` snd ` set ps"
    "snd ` set m' \<subseteq> snd ` set m \<union> fst ` fst ` set ps"
    by (simp_all add: m'_def image_Un)
qed

lemma zip_images: "fst ` set (zip xs ys) \<subseteq> set xs" "snd ` set (zip xs ys) \<subseteq> set ys"
  by (auto dest: set_zip_leftD set_zip_rightD)

lemma window_map_of_inv:
  assumes "window_map_of cls ws = Inr m"
  shows "distinct (map fst m) \<and> fst ` set m \<subseteq> py_key ` set cls \<and> snd ` set m \<subseteq> fst ` set ws"
proof -
  obtain m0 where m0: "build_window_map cls ws [] = Inr m0"
  proof (cases "build_window_map cls ws []")
    case (Inl e)
    with assms show ?thesis by (simp add: window_map_of_def)
  qed
  have d0: "distinct (map fst m0)" "fst ` set m0 \<subseteq> py_key ` set cls" "snd ` set m0 \<subseteq> fst ` set ws"
    using build_window_map_inv[OF m0] by simp_all
  show ?thesis
  proof (cases "length m0 < length ws")
    case False
    with assms m0 d0 show ?thesis by (simp add: window_map_of_def)
  next
    case True
    obtain uc where uc: "unmapped_classes cls (map fst m0) = Inr uc"
    proof (cases "unmapped_classes cls (map fst m0)")
      case (Inl e)
      with assms m0 True show ?thesis by (simp add: window_map_of_def)
    qed
    let ?ps = "zip (unmapped_windows ws (map fst m0)) uc"
    have m: "m = fold (\<lambda>(win, c) m. alist_set m (py_key c) (fst win)) ?ps m0"
      using assms m0 True uc by (simp add: window_map_of_def)
    note f = fold_alist_set_keys_values[OF d0(1), of ?ps]
    have "snd ` set ?ps \<subseteq> set cls"
      using zip_images(2) unmapped_classes_sub[OF uc] by (rule subset_trans)
    then have h1: "py_key ` snd ` set ?ps \<subseteq> py_key ` set cls" by (rule image_mono)
    have "fst ` set ?ps \<subseteq> set ws"
      using zip_images(1) by (rule subset_trans) (auto simp: unmapped_windows_def)
    then have h2: "fst ` fst ` set ?ps \<subseteq> fst ` set ws" by (rule image_mono)
    have "fst ` set m \<subseteq> py_key ` set cls"
      unfolding m using f(2) Un_least[OF d0(2) h1] by (rule subset_trans)
    moreover have "snd ` set m \<subseteq> fst ` set ws"
      unfolding m using f(3) Un_least[OF d0(3) h2] by (rule subset_trans)
    ultimately show ?thesis using f(1) unfolding m by simp
  qed
qed

lemma mem_restored_ids: "i \<in> set (restored_ids cls m) \<longleftrightarrow> (\<exists>c\<in>set cls. map_of m (py_key c) = Some i)"
  by (induction cls) (auto simp: restored_ids_def split: option.splits)

lemma restored_ids_values:
  assumes "distinct (map fst m)" "fst ` set m \<subseteq> py_key ` set cls"
  shows "set (restored_ids cls m) = snd ` set m"
proof
  show "set (restored_ids cls m) \<subseteq> snd ` set m"
  proof
    fix i
    assume "i \<in> set (restored_ids cls m)"
    then obtain c where "map_of m (py_key c) = Some i" by (auto simp: mem_restored_ids)
    then have "(py_key c, i) \<in> set m" by (rule map_of_SomeD)
    then show "i \<in> snd ` set m" by (rule rev_image_eqI) simp
  qed
next
  show "snd ` set m \<subseteq> set (restored_ids cls m)"
  proof
    fix i
    assume "i \<in> snd ` set m"
    then obtain k where k: "(k, i) \<in> set m" by force
    then have "k \<in> fst ` set m" by (rule rev_image_eqI) simp
    with assms(2) obtain c where c: "c \<in> set cls" "k = py_key c" by blast
    have "map_of m k = Some i" using assms(1) k by (rule map_of_is_SomeI)
    with c show "i \<in> set (restored_ids cls m)" by (auto simp: mem_restored_ids)
  qed
qed

lemma run_cmd_wmctrl_d:
  assumes "''wmctrl'' \<in> set (tools w)"
  shows "run_cmd [''wmctrl'', ''-d''] w =
           ((py_strip (wmctrl_desktops w), 0), w\<lparr>cmd_log := cmd_log w @ [[''wmctrl'', ''-d'']]\<rparr>)"
proof -
  have "exec_tool [''wmctrl'', ''-d''] w' = ((wmctrl_desktops w', 0), w')" for w'
    by (simp add: exec_tool_def)
  then show ?thesis using assms by (simp add: run_cmd_def wmctrl_desktops_def)
qed

lemma zero_digit: "char_of (48::nat) = CHR ''0''"
  by code_simp

lemma other_ws_dec_nat:
  "other_ws_of (dec_nat c) = (if c = 0 then ''1'' else ''0'')"
proof -
  have "dec_nat c = ''0'' \<longleftrightarrow> c = 0"
  proof
    assume "dec_nat c = ''0''"
    then have "c = digits_value ''0''" using dec_nat_value[of c] by simp
    then show "c = 0" by (simp add: digits_value_def char_digit_def)
  qed (simp add: dec_nat.simps digit_char_def zero_digit)
  then show ?thesis by (simp add: other_ws_of_def)
qed

lemma other_ws_digits:
  "(if c = 0 then ''1'' else ''0'') \<noteq> []" "\<forall>ch\<in>set (if c = 0 then ''1'' else ''0''). is_digit ch"
  "int (digits_value (if c = (0::nat) then ''1'' else ''0'')) = (if c = 0 then 1 else 0)"
  by (simp_all add: is_digit_def digits_value_def char_digit_def)

lemma reorganize_windows_run:
  assumes ini: "profile_initiative pf name w = Inr ini" "py_truthy ini" "py_iter ini = Inr cls"
      "\<forall>c\<in>set cls. py_hashable c"
    and env: "''wmctrl'' \<in> set (tools w)" "\<forall>x\<in>set (wins w). wf_win x" "desktops_ok w"
      "listed_windows (wins w) \<noteq> []"
    and m: "window_map_of cls (listed_windows (wins w)) = Inr m"
  shows "reorganize_windows pf name w =
    Inr (w\<lparr>cmd_log := cmd_log w @ [[''wmctrl'', ''-l'', ''-p''], [''wmctrl'', ''-d'']] @
            map (\<lambda>(i, _). [''wmctrl'', ''-ir'', i, ''-t'', if cur_desk w = 0 then ''1'' else ''0''])
                (listed_windows (wins w)) @
            map (\<lambda>i. [''wmctrl'', ''-ir'', i, ''-t'', dec_nat (cur_desk w)]) (restored_ids cls m),
           wins := map (moved (restored_ids cls m) (int (cur_desk w)))
                     (map (moved (map fst (listed_windows (wins w))) (if cur_desk w = 0 then 1 else 0))
                       (wins w))\<rparr>)"
proof -
  let ?L = "listed_windows (wins w)"
  let ?w1 = "w\<lparr>cmd_log := cmd_log w @ [[''wmctrl'', ''-l'', ''-p'']]\<rparr>"
  let ?w2 = "?w1\<lparr>cmd_log := cmd_log ?w1 @ [[''wmctrl'', ''-d'']]\<rparr>"
  let ?o = "if cur_desk w = 0 then ''1'' else ''0''"
  have g: "get_dofus_windows w = (?L, ?w1)"
    by (simp add: get_dofus_windows_def run_cmd_wmctrl_lp[OF env(1)] listing_reads_back[OF env(2)])
  have "wmctrl_desktops ?w1 = wmctrl_desktops w" by (simp add: wmctrl_desktops_def)
  then have d: "run_cmd [''wmctrl'', ''-d''] ?w1 = ((py_strip (wmctrl_desktops w), 0), ?w2)"
    using run_cmd_wmctrl_d[of ?w1] env(1) by simp
  have mv: "move_all ?o ?L ?w2 =
      ?w2\<lparr>cmd_log := cmd_log ?w2 @ map (\<lambda>(i, _). [''wmctrl'', ''-ir'', i, ''-t'', ?o]) ?L,
          wins := map (moved (map fst ?L) (if cur_desk w = 0 then 1 else 0)) (wins ?w2)\<rparr>"
    using move_all_state[of ?w2 ?o ?L] env(1) other_ws_digits[of "cur_desk w"] by simp
  have "\<forall>ch\<in>set (dec_nat (cur_desk w)). is_digit ch" by (rule dec_nat_digits)
  note rs = restore_state[OF _ dec_nat_nonempty this ini(4)]
  show ?thesis
    using ini(1,2,3) env(1,4) m g d mv rs
    by (simp add: reorganize_windows_def current_ws_desktops[OF env(3)] other_ws_dec_nat)
qed

lemma moved_twice:
  "set r \<subseteq> set l \<Longrightarrow>
   moved r c (moved l e x) = (if wid x \<in> set l then x\<lparr>desk := if wid x \<in> set r then c else e\<rparr> else x)"
  by (auto simp: moved_def)

subsubsection \<open>A role found in every title\<close>

lemma py_in_class_matches: "py_in r t \<Longrightarrow> class_matches r t"
  by (simp add: class_matches_def py_in_iff_sublist py_lower_def map_mono_sublist)

lemma alist_set_twice: "alist_set (alist_set m k v) k v' = alist_set m k v'"
  by (induction m) auto

lemma build_window_map_all_match:
  assumes "\<forall>(i, t)\<in>set ws. py_in r t" "ws \<noteq> []"
  shows "build_window_map (PStr r # cls) ws m = Inr (alist_set m (PStr r) (fst (last ws)))"
  using assms
proof (induction ws arbitrary: m)
  case (Cons p ws)
  obtain i t where p: "p = (i, t)" by fastforce
  then have "match_class (PStr r # cls) t = Inr (Some r)" using Cons.prems(1) by (simp add: py_in_class_matches)
  with Cons p show ?case by (cases "ws = []") (simp_all add: alist_set_twice)
qed simp

lemma unmapped_classes_hashable: "\<forall>c\<in>set cls. py_hashable c \<Longrightarrow> \<exists>uc. unmapped_classes cls mapped = Inr uc"
  by (induction cls) auto

text \<open>When a role occurs in every listed title, the first loop maps that role to each
  window in turn, so only the last one stays in the map, and no window is left over for
  the second loop.\<close>

lemma window_map_of_all_match:
  assumes "\<forall>(i, t)\<in>set ws. py_in r t" "ws \<noteq> []" "\<forall>c\<in>set cls. py_hashable c"
  shows "window_map_of (PStr r # cls) ws = Inr [(PStr r, fst (last ws))]"
proof -
  have b: "build_window_map (PStr r # cls) ws [] = Inr [(PStr r, fst (last ws))]"
    using build_window_map_all_match[OF assms(1,2)] by simp
  obtain uc where uc: "unmapped_classes (PStr r # cls) [PStr r] = Inr uc"
    using unmapped_classes_hashable[of "PStr r # cls"] assms(3) by auto
  have "unmapped_windows ws [PStr r] = []"
    using assms(1) by (auto simp: unmapped_windows_def filter_empty_conv)
  then show ?thesis using b uc by (simp add: window_map_of_def)
qed

subsection \<open>Properties\<close>

text \<open>C11. When the initiative is a list of hashable roles, the desktop list reads
  back and at least one game window is listed, \<open>reorganize_windows\<close> leaves every
  game window that the window map holds on the current desktop, every other game window
  on the other desktop (1, or 0 when the current one is 1 or more), and all other windows
  where they were.\<close>

theorem reorganize_windows_desks:
  assumes "profile_initiative pf name w = Inr ini" "py_truthy ini" "py_iter ini = Inr cls"
      "\<forall>c\<in>set cls. py_hashable c"
    and "''wmctrl'' \<in> set (tools w)" "\<forall>x\<in>set (wins w). wf_win x" "desktops_ok w"
      "listed_windows (wins w) \<noteq> []"
    and m: "window_map_of cls (listed_windows (wins w)) = Inr m"
  shows "\<exists>w'. reorganize_windows pf name w = Inr w' \<and>
           wins w' = map (\<lambda>x. if wid x \<in> fst ` set (listed_windows (wins w))
                               then x\<lparr>desk := if wid x \<in> snd ` set m then int (cur_desk w)
                                              else if cur_desk w = 0 then 1 else 0\<rparr>
                               else x) (wins w)"
proof -
  note inv = window_map_of_inv[OF m]
  have r: "set (restored_ids cls m) = snd ` set m" using inv by (intro restored_ids_values) simp_all
  then have "set (restored_ids cls m) \<subseteq> set (map fst (listed_windows (wins w)))" using inv by simp
  with r show ?thesis using reorganize_windows_run[OF assms] by (simp add: moved_twice)
qed

text \<open>C12. Under the same conditions, the commands run in this order: the listing, the
  desktop query, one move to the other desktop per listed window in listing order, and
  then one move back per role of the initiative that the window map holds, in initiative
  order; so every window is moved out before any is moved back.\<close>

theorem reorganize_windows_order:
  assumes "profile_initiative pf name w = Inr ini" "py_truthy ini" "py_iter ini = Inr cls"
      "\<forall>c\<in>set cls. py_hashable c"
    and "''wmctrl'' \<in> set (tools w)" "\<forall>x\<in>set (wins w). wf_win x" "desktops_ok w"
      "listed_windows (wins w) \<noteq> []"
    and "window_map_of cls (listed_windows (wins w)) = Inr m"
  shows "\<exists>w'. reorganize_windows pf name w = Inr w' \<and>
           cmd_log w' = cmd_log w @ [[''wmctrl'', ''-l'', ''-p''], [''wmctrl'', ''-d'']] @
             map (\<lambda>(i, _). [''wmctrl'', ''-ir'', i, ''-t'', if cur_desk w = 0 then ''1'' else ''0''])
                 (listed_windows (wins w)) @
             map (\<lambda>i. [''wmctrl'', ''-ir'', i, ''-t'', dec_nat (cur_desk w)]) (restored_ids cls m)"
  using reorganize_windows_run[OF assms] by simp

text \<open>C13. A game window can be left on the other desktop: when the first role of the
  initiative occurs in every listed title (the role \<open>Bob\<close> with the windows
  \<open>Dofus-Bob\<close> and \<open>Dofus-Bobby\<close>), \<open>reorganize_windows\<close> moves every game window to
  the other desktop and brings back only the last one listed; the others stay away.\<close>

theorem reorganize_strands_prefix_role:
  assumes "profile_initiative pf name w = Inr ini" "py_truthy ini" "py_iter ini = Inr (PStr r # cls)"
      "\<forall>c\<in>set cls. py_hashable c"
    and "''wmctrl'' \<in> set (tools w)" "\<forall>x\<in>set (wins w). wf_win x" "desktops_ok w"
      "listed_windows (wins w) \<noteq> []" "\<forall>(i, t)\<in>set (listed_windows (wins w)). py_in r t"
  shows "\<exists>w'. reorganize_windows pf name w = Inr w' \<and>
           wins w' = map (\<lambda>x. if wid x \<in> fst ` set (listed_windows (wins w))
                               then x\<lparr>desk := if wid x = fst (last (listed_windows (wins w))) then int (cur_desk w)
                                              else if cur_desk w = 0 then 1 else 0\<rparr>
                               else x) (wins w)"
proof -
  let ?L = "listed_windows (wins w)"
  have m: "window_map_of (PStr r # cls) ?L = Inr [(PStr r, fst (last ?L))]"
    using window_map_of_all_match assms(9,8,4) by blast
  have h: "\<forall>c\<in>set (PStr r # cls). py_hashable c" using assms(4) by simp
  have "set (restored_ids (PStr r # cls) [(PStr r, fst (last ?L))]) = {fst (last ?L)}"
    using restored_ids_values[of "[(PStr r, fst (last ?L))]" "PStr r # cls"] by simp
  moreover have "fst (last ?L) \<in> set (map fst ?L)" using assms(8) by simp
  ultimately show ?thesis
    using reorganize_windows_run[OF assms(1,2,3) h assms(5-8) m] by (simp add: moved_twice)
qed

subsection \<open>Witnesses\<close>

lemma demo_reorganize_facts:
  "py_truthy (PList [PStr ''Cra'', PStr ''Iop''])"
  "py_iter (PList [PStr ''Cra'', PStr ''Iop'']) = Inr [PStr ''Cra'', PStr ''Iop'']"
  "\<forall>c\<in>set [PStr ''Cra'', PStr ''Iop'']. py_hashable c"
  "desktops_ok demo_store"
  by (simp_all add: desktops_ok_def demo_store_def demo_world_def wf_title_def py_isspace_def
                    py_is_linebreak_def)

lemma demo_listed_nonempty: "listed_windows (wins demo_store) \<noteq> []"
  by (simp only: demo_listed) simp

lemma demo_window_map:
  "window_map_of [PStr ''Cra'', PStr ''Iop''] (listed_windows (wins demo_store)) =
     Inr [(PStr ''Iop'', ''0x01''), (PStr ''Cra'', ''0x03'')]"
  unfolding demo_listed by code_simp

theorem reorganize_windows_desks_witness:
  "\<exists>w'. reorganize_windows (Some demo_profiles_path) ''team'' demo_store = Inr w' \<and>
        map desk (wins w') = [0, 0, 0]"
proof -
  obtain w' where r: "reorganize_windows (Some demo_profiles_path) ''team'' demo_store = Inr w'"
    and ws: "wins w' = map (\<lambda>x. if wid x \<in> fst ` set [(''0x01'', ''Dofus-Iop''), (''0x03'', ''Dofus-Cra'')]
                      then x\<lparr>desk := if wid x \<in> snd ` set [(PStr ''Iop'', ''0x01''), (PStr ''Cra'', ''0x03'')]
                                      then int (cur_desk demo_store) else if cur_desk demo_store = 0 then 1 else 0\<rparr>
                      else x) (wins demo_store)"
    using reorganize_windows_desks[OF demo_initiative demo_reorganize_facts(1-3) demo_tools_all(1)
        demo_wins_wf(2) demo_reorganize_facts(4) demo_listed_nonempty demo_window_map]
    unfolding demo_listed by blast
  from ws have d: "map desk (wins w') = [0, 0, 0]" by (simp add: demo_store_def demo_world_def demo_win_def)
  show ?thesis by (rule exI[of _ w'], rule conjI[OF r d])
qed

theorem reorganize_windows_order_witness:
  "\<exists>w'. reorganize_windows (Some demo_profiles_path) ''team'' demo_store = Inr w' \<and>
        cmd_log w' = [[''wmctrl'', ''-l'', ''-p''], [''wmctrl'', ''-d''],
                      [''wmctrl'', ''-ir'', ''0x01'', ''-t'', ''1''], [''wmctrl'', ''-ir'', ''0x03'', ''-t'', ''1''],
                      [''wmctrl'', ''-ir'', ''0x03'', ''-t'', ''0''], [''wmctrl'', ''-ir'', ''0x01'', ''-t'', ''0'']]"
proof -
  have "restored_ids [PStr ''Cra'', PStr ''Iop''] [(PStr ''Iop'', ''0x01''), (PStr ''Cra'', ''0x03'')] =
          [''0x03'', ''0x01'']" by code_simp
  moreover have "cmd_log demo_store = []" "cur_desk demo_store = 0" "dec_nat 0 = ''0''"
    by (simp_all add: demo_store_def demo_world_def dec_nat.simps digit_char_def zero_digit)
  ultimately show ?thesis
    using reorganize_windows_order[OF demo_initiative demo_reorganize_facts(1-3) demo_tools_all(1)
        demo_wins_wf(2) demo_reorganize_facts(4) demo_listed_nonempty demo_window_map]
    by (simp add: demo_listed)
qed

lemma demo_bob_facts:
  "profile_initiative (Some demo_profiles_path) ''duo'' demo_bob = Inr (PList [PStr ''Bob'', PStr ''Bobby''])"
  "listed_windows (wins demo_bob) = [(''0x01'', ''Dofus-Bob''), (''0x03'', ''Dofus-Bobby'')]"
  by code_simp+

theorem reorganize_strands_prefix_role_witness:
  "\<exists>w'. reorganize_windows (Some demo_profiles_path) ''duo'' demo_bob = Inr w' \<and>
        map desk (wins w') = [1, 0]"
proof -
  have h: "py_truthy (PList [PStr ''Bob'', PStr ''Bobby''])"
    "py_iter (PList [PStr ''Bob'', PStr ''Bobby'']) = Inr [PStr ''Bob'', PStr ''Bobby'']"
    "\<forall>c\<in>set [PStr ''Bobby'']. py_hashable c" "''wmctrl'' \<in> set (tools demo_bob)"
    "\<forall>x\<in>set (wins demo_bob). wf_win x" "desktops_ok demo_bob"
    by (simp_all add: demo_bob_def demo_store_def demo_world_def demo_win_def desktops_ok_def wf_win_def
                      wf_field_def wf_title_def py_isspace_def py_is_linebreak_def)
  have l: "listed_windows (wins demo_bob) \<noteq> []"
    "\<forall>(i, t)\<in>set (listed_windows (wins demo_bob)). py_in ''Bob'' t"
    unfolding demo_bob_facts(2) by code_simp+
  obtain w' where r: "reorganize_windows (Some demo_profiles_path) ''duo'' demo_bob = Inr w'"
    and ws: "wins w' = map (\<lambda>x. if wid x \<in> fst ` set [(''0x01'', ''Dofus-Bob''), (''0x03'', ''Dofus-Bobby'')]
                      then x\<lparr>desk := if wid x = ''0x03'' then int (cur_desk demo_bob)
                                      else if cur_desk demo_bob = 0 then 1 else 0\<rparr>
                      else x) (wins demo_bob)"
    using reorganize_strands_prefix_role[OF demo_bob_facts(1) h l] unfolding demo_bob_facts(2) by auto
  from ws have d: "map desk (wins w') = [1, 0]" by (simp add: demo_bob_def demo_store_def demo_world_def demo_win_def)
  show ?thesis by (rule exI[of _ w'], rule conjI[OF r d])
qed

end
