(* ===== verification/Invite.thy ===== *)
theory Invite
  imports Demo
begin

text \<open>
  Group invitation: \<open>invite_group\<close> (lines 210--227 of \<open>src/dofus_control_gui.py\<close>),
  which types \<open>/invite NAME\<close> and Return into the focused game window for each character
  of the profile, and \<open>CountdownDialog\<close> (lines 231--282), the 1.5 second countdown the
  main window shows before calling it. The dialog is a state record with one step per
  timer timeout (\<open>update_countdown\<close>) or per close by the user; the step relation and its
  reachable states are inductive. \<open>time.sleep\<close> and the widget layout are not modelled.
\<close>

subsection \<open>\<open>invite_group\<close>\<close>

text \<open>The loop \<open>for character in characters\<close>: \<open>xdotool type --clearmodifiers
  "/invite {character}"\<close>, then \<open>xdotool key Return\<close>.\<close>

fun invite_loop :: "pyval list \<Rightarrow> world \<Rightarrow> world" where
  "invite_loop [] w = w"
| "invite_loop (c # cs) w =
     invite_loop cs (snd (run_cmd [''xdotool'', ''key'', ''Return'']
                        (snd (run_cmd [''xdotool'', ''type'', ''--clearmodifiers'', ''/invite '' @ py_str c] w))))"

definition invite_group :: "path option \<Rightarrow> string \<Rightarrow> world \<Rightarrow> world py" where
  "invite_group pf name w =
     (case load_profiles pf w of
        Inl e \<Rightarrow> Inl e
      | Inr (profiles, _) \<Rightarrow>
          (case profile_entry profiles name of
             Inl e \<Rightarrow> Inl e
           | Inr pd \<Rightarrow>
               (case profile_characters pd of
                  Inl e \<Rightarrow> Inl e
                | Inr characters \<Rightarrow>
                    if \<not> py_truthy characters then Inr w
                    else (case py_iter characters of
                            Inl e \<Rightarrow> Inl e
                          | Inr cs \<Rightarrow> Inr (invite_loop cs w)))))"

subsection \<open>\<open>CountdownDialog\<close>\<close>

text \<open>The dialog's state: \<open>self.counter\<close>, the text of \<open>self.timer_label\<close>, whether
  \<open>self.timer\<close> runs, whether the dialog is open, whether a callback was given, and how
  often it has been called.\<close>

record countdown =
  counter :: int
  timer_label :: string
  timer_active :: bool
  dialog_open :: bool
  has_callback :: bool
  callback_runs :: nat

text \<open>\<open>f"{counter / 10.0:.1f}"\<close>: the number of tenths written with one decimal.\<close>

definition tenths_text :: "int \<Rightarrow> string" where
  "tenths_text c =
     (if c < 0 then ''-'' else []) @ dec_nat (nat \<bar>c\<bar> div 10) @ ''.'' @ dec_nat (nat \<bar>c\<bar> mod 10)"

text \<open>After \<open>__init__\<close> (counter 15, label \<open>1.5\<close>, timer started) and \<open>exec_()\<close>.\<close>

definition countdown_init :: "bool \<Rightarrow> countdown" where
  "countdown_init cb =
     \<lparr>counter = 15, timer_label = ''1.5'', timer_active = True, dialog_open = True,
      has_callback = cb, callback_runs = 0\<rparr>"

definition update_countdown :: "countdown \<Rightarrow> countdown" where
  "update_countdown s =
     (let c = counter s - 1;
          s1 = s\<lparr>counter := c, timer_label := tenths_text c\<rparr>
      in if c \<le> 0
         then s1\<lparr>timer_active := False, dialog_open := False,
                 callback_runs := callback_runs s + (if has_callback s then 1 else 0)\<rparr>
         else s1)"

datatype cd_event = Timeout | UserClose

text \<open>A timeout arrives only while the timer runs; the user can close an open dialog
  (the window's close button or Escape), which the class does not handle: the timer is
  left running.\<close>

inductive cd_step :: "countdown \<Rightarrow> cd_event \<Rightarrow> countdown \<Rightarrow> bool" where
  tick: "timer_active s \<Longrightarrow> cd_step s Timeout (update_countdown s)"
| close: "dialog_open s \<Longrightarrow> cd_step s UserClose (s\<lparr>dialog_open := False\<rparr>)"

inductive cd_reach :: "bool \<Rightarrow> countdown \<Rightarrow> bool" for cb where
  init: "cd_reach cb (countdown_init cb)"
| step: "cd_reach cb s \<Longrightarrow> cd_step s e s' \<Longrightarrow> cd_reach cb s'"

text \<open>A sequence of events taking the dialog from one state to another.\<close>

inductive cd_steps :: "countdown \<Rightarrow> cd_event list \<Rightarrow> countdown \<Rightarrow> bool" where
  none: "cd_steps s [] s"
| more: "cd_step s e s1 \<Longrightarrow> cd_steps s1 es s2 \<Longrightarrow> cd_steps s (e # es) s2"

code_pred cd_step .

inductive_cases cd_step_TimeoutE: "cd_step s Timeout s'"
inductive_cases cd_step_UserCloseE: "cd_step s UserClose s'"

text \<open>The invariant of the reachable states.\<close>

definition cd_inv :: "countdown \<Rightarrow> bool" where
  "cd_inv s \<longleftrightarrow>
     0 \<le> counter s \<and> counter s \<le> 15 \<and> (timer_active s \<longleftrightarrow> 0 < counter s) \<and>
     timer_label s = tenths_text (counter s) \<and> (dialog_open s \<longrightarrow> timer_active s) \<and>
     callback_runs s = (if counter s = 0 \<and> has_callback s then 1 else 0)"

lemmas invite_defs [model_simps] = invite_group_def tenths_text_def countdown_init_def update_countdown_def

subsection \<open>Facts\<close>

lemma run_cmd_xdotool:
  assumes "''xdotool'' \<in> set (tools w)"
  shows "snd (run_cmd [''xdotool'', ''type'', ''--clearmodifiers'', d] w) =
           w\<lparr>cmd_log := cmd_log w @ [[''xdotool'', ''type'', ''--clearmodifiers'', d]], typed := typed w @ d\<rparr>"
    and "snd (run_cmd [''xdotool'', ''key'', ''Return''] w) =
           w\<lparr>cmd_log := cmd_log w @ [[''xdotool'', ''key'', ''Return'']], typed := typed w @ ''\<newline>''\<rparr>"
  using assms by (simp_all add: run_cmd_def Let_def exec_tool_def)

lemma invite_loop_state:
  assumes "''xdotool'' \<in> set (tools w)"
  shows "invite_loop cs w =
           w\<lparr>cmd_log := cmd_log w @ concat (map (\<lambda>c. [[''xdotool'', ''type'', ''--clearmodifiers'', ''/invite '' @ py_str c],
                                                    [''xdotool'', ''key'', ''Return'']]) cs),
             typed := typed w @ concat (map (\<lambda>c. ''/invite '' @ py_str c @ ''\<newline>'') cs)\<rparr>"
  using assms by (induction cs arbitrary: w) (simp_all add: run_cmd_xdotool)

lemma py_iter_falsy: "py_iter v = Inr cs \<Longrightarrow> \<not> py_truthy v \<Longrightarrow> cs = []"
  by (cases v) auto

subsection \<open>Properties\<close>

text \<open>C14. With \<open>xdotool\<close> installed and a profile whose \<open>characters\<close> entry can be
  iterated, \<open>invite_group\<close> types \<open>/invite NAME\<close> followed by Return for every
  character, in order, and changes neither the windows nor the files.\<close>

theorem invite_group_types:
  assumes "load_profiles pf w = Inr (profiles, a)" "profile_entry profiles name = Inr pd"
    "profile_characters pd = Inr chars" "py_iter chars = Inr cs" "''xdotool'' \<in> set (tools w)"
  shows "\<exists>w'. invite_group pf name w = Inr w' \<and>
              typed w' = typed w @ concat (map (\<lambda>c. ''/invite '' @ py_str c @ ''\<newline>'') cs) \<and>
              wins w' = wins w \<and> files w' = files w"
proof (cases "py_truthy chars")
  case True
  with assms show ?thesis by (simp add: invite_group_def invite_loop_state)
next
  case False
  with assms show ?thesis by (simp add: invite_group_def py_iter_falsy)
qed

lemma tenths_15: "tenths_text 15 = ''1.5''"
  by code_simp

lemma cd_inv_init: "cd_inv (countdown_init cb)"
  by (simp add: cd_inv_def countdown_init_def tenths_15)

lemma cd_inv_update: "cd_inv s \<Longrightarrow> timer_active s \<Longrightarrow> cd_inv (update_countdown s)"
  by (auto simp: cd_inv_def update_countdown_def Let_def)

lemma cd_inv_close: "cd_inv s \<Longrightarrow> cd_inv (s\<lparr>dialog_open := False\<rparr>)"
  by (simp add: cd_inv_def)

lemma cd_step_inv: "cd_step s e s' \<Longrightarrow> cd_inv s \<Longrightarrow> cd_inv s'"
  by (induction rule: cd_step.induct) (simp_all add: cd_inv_update cd_inv_close)

lemma cd_step_callback: "cd_step s e s' \<Longrightarrow> has_callback s' = has_callback s"
  by (induction rule: cd_step.induct) (simp_all add: update_countdown_def Let_def)

lemma cd_reach_inv: "cd_reach cb s \<Longrightarrow> cd_inv s \<and> has_callback s = cb"
  by (induction rule: cd_reach.induct)
     (simp_all add: cd_inv_init cd_step_inv cd_step_callback, simp add: countdown_init_def)

text \<open>From an invariant state with \<open>n\<close> tenths left, \<open>n\<close> timeouts can arrive, and after
  them the timer is stopped and the callback has run once (when one was given).\<close>

lemma cd_ticks_to_end:
  "cd_inv s \<Longrightarrow> counter s = int n \<Longrightarrow>
   \<exists>s'. cd_steps s (replicate n Timeout) s' \<and> \<not> timer_active s' \<and>
        callback_runs s' = (if has_callback s then 1 else 0)"
proof (induction n arbitrary: s)
  case 0
  then show ?case by (intro exI[of _ s]) (auto simp: cd_inv_def intro: cd_steps.none)
next
  case (Suc n)
  then have act: "timer_active s" by (simp add: cd_inv_def)
  let ?s1 = "update_countdown s"
  have "cd_inv ?s1" using Suc.prems(1) act by (rule cd_inv_update)
  moreover have "counter ?s1 = int n" "has_callback ?s1 = has_callback s"
    using Suc.prems(2) by (simp_all add: update_countdown_def Let_def)
  ultimately obtain s' where "cd_steps ?s1 (replicate n Timeout) s'" "\<not> timer_active s'"
      "callback_runs s' = (if has_callback s then 1 else 0)"
    using Suc.IH by metis
  then show ?case using cd_step.tick[OF act] by (auto intro: cd_steps.more)
qed

text \<open>C15. In every reachable state of the countdown dialog the counter lies in
  0..15, the timer runs exactly while the counter is positive, the label shows the
  counter in tenths of a second, an open dialog has a running timer, and the callback
  has run once when the counter reached 0 and never before.\<close>

theorem countdown_reach_inv: "cd_reach cb s \<Longrightarrow> cd_inv s \<and> has_callback s = cb"
  by (rule cd_reach_inv)

lemma countdown_iter:
  "k \<le> 15 \<Longrightarrow> (update_countdown ^^ k) (countdown_init cb) =
     \<lparr>counter = 15 - int k, timer_label = tenths_text (15 - int k), timer_active = (k < 15),
      dialog_open = (k < 15), has_callback = cb, callback_runs = (if k = 15 \<and> cb then 1 else 0)\<rparr>"
proof (induction k)
  case 0
  then show ?case by (simp add: countdown_init_def tenths_15)
next
  case (Suc k)
  then show ?case by (auto simp: update_countdown_def Let_def)
qed

text \<open>C16. The countdown ends: after 15 timeouts the timer is stopped and the callback
  has run exactly once (when one was given), and before that the timer runs and the
  callback has not run.\<close>

theorem countdown_calls_back_once:
  "\<not> timer_active ((update_countdown ^^ 15) (countdown_init cb)) \<and>
   callback_runs ((update_countdown ^^ 15) (countdown_init cb)) = (if cb then 1 else 0) \<and>
   (k < 15 \<longrightarrow> timer_active ((update_countdown ^^ k) (countdown_init cb)) \<and>
               callback_runs ((update_countdown ^^ k) (countdown_init cb)) = 0)"
  using countdown_iter[of 15 cb] countdown_iter[of k cb] by simp

text \<open>C17. Closing the dialog before the end does not cancel the invitation: in any
  reachable state with the dialog open, the user's close leaves the timer running, and
  the remaining timeouts still arrive and run the callback once.\<close>

theorem countdown_close_keeps_timer:
  assumes "cd_reach cb s" "dialog_open s" "cd_step s UserClose s1"
  shows "timer_active s1 \<and>
         (\<exists>s'. cd_steps s1 (replicate (nat (counter s)) Timeout) s' \<and> \<not> timer_active s' \<and>
               callback_runs s' = (if cb then 1 else 0))"
proof -
  have inv: "cd_inv s" "has_callback s = cb" using cd_reach_inv[OF assms(1)] by simp_all
  have s1: "s1 = s\<lparr>dialog_open := False\<rparr>" using assms(3) by (blast elim: cd_step_UserCloseE)
  have "timer_active s" "0 \<le> counter s" using inv(1) assms(2) by (auto simp: cd_inv_def)
  moreover have "cd_inv s1" using cd_inv_close[OF inv(1)] s1 by simp
  moreover have "counter s1 = int (nat (counter s))" using \<open>0 \<le> counter s\<close> s1 by simp
  ultimately show ?thesis using cd_ticks_to_end[of s1 "nat (counter s)"] s1 inv(2) by auto
qed


subsection \<open>Witnesses\<close>

lemma demo_invite_facts:
  "load_profiles (Some demo_profiles_path) demo_store =
     Inr (PDict [(''team'', PDict [(''windows'', PList [PStr ''Cra'', PStr ''Iop'']),
                                   (''characters'', PList [PStr ''Bob'', PStr ''Ana''])])], PStr ''team'')"
  "profile_entry (PDict [(''team'', PDict [(''windows'', PList [PStr ''Cra'', PStr ''Iop'']),
                                   (''characters'', PList [PStr ''Bob'', PStr ''Ana''])])]) ''team'' =
     Inr (PDict [(''windows'', PList [PStr ''Cra'', PStr ''Iop'']), (''characters'', PList [PStr ''Bob'', PStr ''Ana''])])"
  "profile_characters (PDict [(''windows'', PList [PStr ''Cra'', PStr ''Iop'']),
                              (''characters'', PList [PStr ''Bob'', PStr ''Ana''])]) = Inr (PList [PStr ''Bob'', PStr ''Ana''])"
  "py_iter (PList [PStr ''Bob'', PStr ''Ana'']) = Inr [PStr ''Bob'', PStr ''Ana'']"
  by code_simp+

theorem invite_group_types_witness:
  "\<exists>w'. invite_group (Some demo_profiles_path) ''team'' demo_store = Inr w' \<and>
        typed w' = ''/invite Bob\<newline>/invite Ana\<newline>''"
proof -
  have "typed demo_store = []" "''xdotool'' \<in> set (tools demo_store)"
    by (simp_all add: demo_store_def demo_world_def)
  then show ?thesis using invite_group_types[OF demo_invite_facts] by auto
qed

theorem countdown_reach_inv_witness:
  "cd_inv ((update_countdown (countdown_init True))\<lparr>dialog_open := False\<rparr>) \<and>
   has_callback ((update_countdown (countdown_init True))\<lparr>dialog_open := False\<rparr>) = True"
proof -
  have "cd_reach True (update_countdown (countdown_init True))"
    by (rule cd_reach.step[OF cd_reach.init cd_step.tick]) (simp add: countdown_init_def)
  moreover have "dialog_open (update_countdown (countdown_init True))"
    by (simp add: countdown_init_def update_countdown_def Let_def)
  ultimately have "cd_reach True ((update_countdown (countdown_init True))\<lparr>dialog_open := False\<rparr>)"
    by (blast intro: cd_reach.step cd_step.close)
  then show ?thesis by (rule countdown_reach_inv)
qed

theorem countdown_calls_back_once_witness:
  "\<not> timer_active ((update_countdown ^^ 15) (countdown_init True)) \<and>
   callback_runs ((update_countdown ^^ 15) (countdown_init True)) = 1 \<and>
   timer_active ((update_countdown ^^ 3) (countdown_init True)) \<and>
   callback_runs ((update_countdown ^^ 3) (countdown_init True)) = 0"
  using countdown_calls_back_once[of True 3] by simp

theorem countdown_close_keeps_timer_witness:
  "timer_active ((countdown_init True)\<lparr>dialog_open := False\<rparr>) \<and>
   (\<exists>s'. cd_steps ((countdown_init True)\<lparr>dialog_open := False\<rparr>) (replicate 15 Timeout) s' \<and>
         \<not> timer_active s' \<and> callback_runs s' = 1)"
proof -
  have "dialog_open (countdown_init True)" by (simp add: countdown_init_def)
  then have "cd_step (countdown_init True) UserClose ((countdown_init True)\<lparr>dialog_open := False\<rparr>)"
    by (rule cd_step.close)
  from countdown_close_keeps_timer[OF cd_reach.init \<open>dialog_open (countdown_init True)\<close> this]
  show ?thesis by (simp add: countdown_init_def)
qed

end
