(* ===== verification/Widgets.thy ===== *)
theory Widgets
  imports Prelude
begin

text \<open>
  The two widget classes of \<open>src/dofus_control_gui.py\<close>. \<open>ActionButton\<close> (lines
  286--345) is the diamond-shaped button of the main window: its state is whether the
  pointer is over it and whether it is shown active, and \<open>paintEvent\<close> draws a diamond
  and a palette that depend on that state only. \<open>StyledComboBox\<close> (lines 349--419) is the
  profile box: its slot \<open>on_selection_changed\<close> chooses between two style sheets, and
  \<open>showPopup\<close> styles the list it opens. The texts of the style sheets are represented by
  name; the font, cursor and focus settings are not modelled.
\<close>

subsection \<open>\<open>ActionButton\<close>\<close>

text \<open>\<open>self.text()\<close>, \<open>self.size\<close>, \<open>self.is_hovered\<close>, \<open>self.is_active\<close>.\<close>

record action_button =
  ab_text :: string
  ab_size :: int
  is_hovered :: bool
  is_active :: bool

definition action_button_init :: "string \<Rightarrow> int \<Rightarrow> action_button" where
  "action_button_init t sz = \<lparr>ab_text = t, ab_size = sz, is_hovered = False, is_active = False\<rparr>"

definition set_active :: "bool \<Rightarrow> action_button \<Rightarrow> action_button" where
  "set_active a b = b\<lparr>is_active := a\<rparr>"

definition enter_event :: "action_button \<Rightarrow> action_button" where
  "enter_event b = b\<lparr>is_hovered := True\<rparr>"

definition leave_event :: "action_button \<Rightarrow> action_button" where
  "leave_event b = b\<lparr>is_hovered := False\<rparr>"

text \<open>What \<open>paintEvent\<close> draws: the diamond \<open>QPolygon\<close> with \<open>half = self.size // 2\<close>,
  the border (pen width 3), background and text colours, and the text.\<close>

definition diamond_points :: "int \<Rightarrow> (int \<times> int) list" where
  "diamond_points sz =
     (let half = sz div 2 in [(half, 2), (sz - 2, half), (half, sz - 2), (2, half)])"

definition paint_colors :: "action_button \<Rightarrow> string \<times> string \<times> string" where
  "paint_colors b =
     (if is_active b then (''#d4af37'', ''#3d3d2d'', ''#ffda66'')
      else if is_hovered b then (''#c9a961'', ''#2a1810'', ''#d4af37'')
      else (''#8b7355'', ''#1a0f08'', ''#8b7355''))"

record painting =
  pt_polygon :: "(int \<times> int) list"
  pt_pen_width :: int
  pt_colors :: "string \<times> string \<times> string"
  pt_label :: string

definition paint_event :: "action_button \<Rightarrow> painting" where
  "paint_event b =
     \<lparr>pt_polygon = diamond_points (ab_size b), pt_pen_width = 3, pt_colors = paint_colors b,
      pt_label = ab_text b\<rparr>"

text \<open>The events a button receives: the pointer entering or leaving it, and
  \<open>set_active\<close> from its owner.\<close>

datatype button_event = Enter | Leave | SetActive bool

fun button_step :: "button_event \<Rightarrow> action_button \<Rightarrow> action_button" where
  "button_step Enter b = enter_event b"
| "button_step Leave b = leave_event b"
| "button_step (SetActive a) b = set_active a b"

definition button_run :: "button_event list \<Rightarrow> action_button \<Rightarrow> action_button" where
  "button_run es b = fold button_step es b"

text \<open>The intended meaning of a run: the last \<open>set_active\<close> decides the active state
  and the last crossing of the border the hover state.\<close>

fun last_active :: "button_event list \<Rightarrow> bool \<Rightarrow> bool" where
  "last_active [] a = a"
| "last_active (SetActive a' # es) a = last_active es a'"
| "last_active (_ # es) a = last_active es a"

fun last_hover :: "button_event list \<Rightarrow> bool \<Rightarrow> bool" where
  "last_hover [] h = h"
| "last_hover (Enter # es) h = last_hover es True"
| "last_hover (Leave # es) h = last_hover es False"
| "last_hover (SetActive _ # es) h = last_hover es h"

subsection \<open>\<open>StyledComboBox\<close>\<close>

text \<open>The box's style sheet: \<open>self.base_stylesheet\<close>, or the base sheet followed by the
  highlighting block that \<open>on_selection_changed\<close> appends for a non-empty text.\<close>

datatype combo_style = BaseStyle | SelectedStyle

definition on_selection_changed :: "string \<Rightarrow> combo_style" where
  "on_selection_changed text = (if text \<noteq> [] then SelectedStyle else BaseStyle)"

lemmas widget_defs [model_simps] =
  action_button_init_def set_active_def enter_event_def leave_event_def diamond_points_def
  paint_colors_def paint_event_def button_run_def on_selection_changed_def

subsection \<open>Facts\<close>

lemma button_run_Cons [simp]: "button_run (e # es) b = button_run es (button_step e b)"
  by (simp add: button_run_def)

lemma button_run_Nil [simp]: "button_run [] b = b"
  by (simp add: button_run_def)

lemma button_run_state:
  "is_active (button_run es b) = last_active es (is_active b) \<and>
   is_hovered (button_run es b) = last_hover es (is_hovered b) \<and>
   ab_size (button_run es b) = ab_size b \<and> ab_text (button_run es b) = ab_text b"
proof (induction es arbitrary: b)
  case (Cons e es)
  then show ?case
    by (cases e) (simp_all add: enter_event_def leave_event_def set_active_def)
qed simp

subsection \<open>Properties\<close>

text \<open>C32. After any sequence of pointer crossings and \<open>set_active\<close> calls, a button
  is painted in the active palette when the last \<open>set_active\<close> made it active, in the
  hover palette when it is not active and the pointer last entered it, and in the idle
  palette otherwise; its shape and text never change.\<close>

theorem button_paint_after_events:
  "pt_colors (paint_event (button_run es b)) =
     (if last_active es (is_active b) then (''#d4af37'', ''#3d3d2d'', ''#ffda66'')
      else if last_hover es (is_hovered b) then (''#c9a961'', ''#2a1810'', ''#d4af37'')
      else (''#8b7355'', ''#1a0f08'', ''#8b7355'')) \<and>
   pt_polygon (paint_event (button_run es b)) = diamond_points (ab_size b) \<and>
   pt_label (paint_event (button_run es b)) = ab_text b"
  using button_run_state[of es b] by (simp add: paint_event_def paint_colors_def)

end
