(* ===== verification/Controller.thy ===== *)
theory Controller
  imports Scripts Reorganize Invite Widgets "HOL-Library.Word"
begin

unbundle bit_operations_syntax

text \<open>
  The main window \<open>DofusControl\<close> (lines 423--687 of \<open>src/dofus_control_gui.py\<close>)
  and the module globals it rebinds (\<open>PROFILES_FILE\<close>, \<open>SCRIPTS_DIR\<close>,
  \<open>ALWAYS_ON_TOP\<close>). Its state is a record holding the attributes its handlers read and
  write and the parts of the Qt widgets they use: the items, the current index and the
  signal blocking and the style sheet of the profile combo box (\<open>Widgets\<close>), the text of
  the classes label, the window flags and the frame position. Every handler is a function of this record and of the
  world of the other theories; an exception that leaves a slot aborts the application
  (PyQt 5 calls \<open>qFatal\<close>), which is the \<open>Inl\<close> branch of a handler's result. A
  sequence of user events is run by \<open>app_run\<close>.
\<close>

subsection \<open>Qt values\<close>

text \<open>\<open>Qt.WindowFlags\<close> and \<open>Qt.MouseButtons\<close> are 32-bit flag words.\<close>

type_synonym qflags = "32 word"

definition FramelessWindowHint :: qflags where
  "FramelessWindowHint = 0x800"

definition WindowStaysOnTopHint :: qflags where
  "WindowStaysOnTopHint = 0x40000"

definition LeftButton :: qflags where
  "LeftButton = 0x1"

type_synonym point = "int \<times> int"

definition pt_add :: "point \<Rightarrow> point \<Rightarrow> point" where
  "pt_add p q = (fst p + fst q, snd p + snd q)"

definition pt_sub :: "point \<Rightarrow> point \<Rightarrow> point" where
  "pt_sub p q = (fst p - fst q, snd p - snd q)"

subsection \<open>The state\<close>

text \<open>\<open>self.profiles\<close>, \<open>self.active_profile\<close>, \<open>self.drag_start\<close>; the combo box
  (\<open>None\<close> is the index \<open>-1\<close> of an empty box); the label; \<open>self.windowFlags()\<close> and
  \<open>self.frameGeometry().topLeft()\<close>; \<open>self.center_btn.is_active\<close>; the three globals;
  the style sheet of the \<open>StyledComboBox\<close> and whether its popup list has been styled.\<close>

record gui =
  self_profiles :: pyval
  active_profile :: pyval
  combo_items :: "string list"
  combo_index :: "nat option"
  signals_blocked :: bool
  classes_label :: string
  drag_start :: "point option"
  frame_pos :: point
  win_flags :: qflags
  center_active :: bool
  PROFILES_FILE :: "path option"
  SCRIPTS_DIR :: "path option"
  ALWAYS_ON_TOP :: bool
  combo_style :: combo_style
  popup_styled :: bool

subsection \<open>The combo box\<close>

text \<open>\<open>currentText()\<close>, \<open>clear()\<close>, \<open>addItems(xs)\<close> (the first item added to an empty
  box becomes current) and \<open>setCurrentText(t)\<close> (on a non-editable box: the first item
  equal to \<open>t\<close> becomes current; an absent text changes nothing). The program calls the
  last three only between \<open>blockSignals(True)\<close> and \<open>blockSignals(False)\<close> (lines
  618--623), so the \<open>currentTextChanged\<close> they emit reaches no slot and is left out.\<close>

definition combo_text :: "gui \<Rightarrow> string" where
  "combo_text g =
     (case combo_index g of
        None \<Rightarrow> []
      | Some i \<Rightarrow> if i < length (combo_items g) then combo_items g ! i else [])"

definition combo_clear :: "gui \<Rightarrow> gui" where
  "combo_clear g = g\<lparr>combo_items := [], combo_index := None\<rparr>"

definition combo_add_items :: "string list \<Rightarrow> gui \<Rightarrow> gui" where
  "combo_add_items xs g =
     g\<lparr>combo_items := combo_items g @ xs,
       combo_index := (if combo_index g = None \<and> xs \<noteq> [] then Some (length (combo_items g)) else combo_index g)\<rparr>"

fun first_index :: "'a \<Rightarrow> 'a list \<Rightarrow> nat" where
  "first_index x [] = 0"
| "first_index x (y # ys) = (if x = y then 0 else Suc (first_index x ys))"

definition combo_set_text :: "string \<Rightarrow> gui \<Rightarrow> gui" where
  "combo_set_text t g =
     (if t \<in> set (combo_items g) then g\<lparr>combo_index := Some (first_index t (combo_items g))\<rparr> else g)"

subsection \<open>Python operations the handlers use\<close>

text \<open>\<open>name in v\<close> for a string \<open>name\<close>: a key of a dictionary, an item of a list, a
  substring of a string; other values are not containers.\<close>

fun py_contains_str :: "pyval \<Rightarrow> string \<Rightarrow> bool py" where
  "py_contains_str (PDict d) k = Inr (k \<in> set (map fst d))"
| "py_contains_str (PList xs) k = Inr (PStr k \<in> set xs)"
| "py_contains_str (PStr s) k = Inr (py_in k s)"
| "py_contains_str _ k = Inl TypeError"

text \<open>\<open>x in d\<close> for a dictionary \<open>d\<close> of JSON objects, whose keys are strings: an
  unhashable \<open>x\<close> raises \<open>TypeError\<close>, another non-string is no key.\<close>

definition dict_contains :: "(string \<times> pyval) list \<Rightarrow> pyval \<Rightarrow> bool py" where
  "dict_contains d x =
     (if \<not> py_hashable x then Inl TypeError
      else Inr (case x of PStr k \<Rightarrow> k \<in> set (map fst d) | _ \<Rightarrow> False))"

text \<open>\<open>v[name]\<close> for a string \<open>name\<close>.\<close>

fun py_getitem_str :: "pyval \<Rightarrow> string \<Rightarrow> pyval py" where
  "py_getitem_str (PDict d) k = (case map_of d k of Some v \<Rightarrow> Inr v | None \<Rightarrow> Inl KeyError)"
| "py_getitem_str _ k = Inl TypeError"

text \<open>The separator \<open>" \<rightarrow> "\<close> of the classes label, in UTF-8.\<close>

definition arrow_sep :: string where
  "arrow_sep = [CHR '' '', CHR 0xE2, CHR 0x86, CHR 0x92, CHR '' '']"

type_synonym 'a raising = "'a \<times> py_error option"

subsection \<open>Showing the profiles\<close>

text \<open>\<open>display_profile_classes\<close>: the roles of the current profile joined by
  \<open>" \<rightarrow> "\<close> in the label, or an empty label. A raised exception leaves the state as it
  was at the raise, with the error.\<close>

definition display_profile_classes :: "gui \<Rightarrow> gui raising" where
  "display_profile_classes g =
     (let name = combo_text g in
      case py_contains_str (self_profiles g) name of
        Inl e \<Rightarrow> (g, Some e)
      | Inr False \<Rightarrow> (g\<lparr>classes_label := []\<rparr>, None)
      | Inr True \<Rightarrow>
          (case py_getitem_str (self_profiles g) name of
             Inl e \<Rightarrow> (g, Some e)
           | Inr pd \<Rightarrow>
               (case profile_windows pd of
                  Inl e \<Rightarrow> (g, Some e)
                | Inr ws \<Rightarrow>
                    if py_truthy ws
                    then (case py_str_join arrow_sep ws of
                            Inl e \<Rightarrow> (g, Some e)
                          | Inr t \<Rightarrow> (g\<lparr>classes_label := t\<rparr>, None))
                    else (g\<lparr>classes_label := []\<rparr>, None))))"

text \<open>\<open>update_profile_list\<close>: signals blocked, the box cleared and refilled with the
  keys of \<open>self.profiles\<close>, the active profile selected, signals unblocked, the label
  updated. \<open>keys()\<close> raises on a non-dictionary and \<open>in\<close> on an unhashable active
  profile: the signals then stay blocked.\<close>

definition update_profile_list :: "gui \<Rightarrow> gui raising" where
  "update_profile_list g =
     (let g1 = combo_clear (g\<lparr>signals_blocked := True\<rparr>) in
      case self_profiles g1 of
        PDict d \<Rightarrow>
          (let g2 = combo_add_items (map fst d) g1 in
           case dict_contains d (active_profile g2) of
             Inl e \<Rightarrow> (g2, Some e)
           | Inr b \<Rightarrow>
               display_profile_classes
                 ((if b then combo_set_text (py_str (active_profile g2)) g2 else g2)\<lparr>signals_blocked := False\<rparr>))
      | _ \<Rightarrow> (g1, Some AttributeError))"

text \<open>The common \<open>try\<close> block of the two loaders: \<open>self.profiles\<close> and
  \<open>self.active_profile\<close> from the document, then \<open>update_profile_list()\<close>; the bare
  \<open>except: pass\<close> keeps whatever was assigned before the raise.\<close>

definition load_into :: "pyval \<Rightarrow> gui \<Rightarrow> gui" where
  "load_into data g =
     (case py_get data ''profiles'' (PDict []) of
        Inl _ \<Rightarrow> g
      | Inr ps \<Rightarrow>
          (case py_get data ''active'' (PStr []) of
             Inl _ \<Rightarrow> g\<lparr>self_profiles := ps\<rparr>
           | Inr a \<Rightarrow> fst (update_profile_list (g\<lparr>self_profiles := ps, active_profile := a\<rparr>))))"

text \<open>\<open>PROFILES_FILE = p\<close> and \<open>SCRIPTS_DIR = p.parent / "scripts"\<close>.\<close>

definition set_profiles_file :: "path \<Rightarrow> gui \<Rightarrow> gui" where
  "set_profiles_file p g =
     g\<lparr>PROFILES_FILE := Some p, SCRIPTS_DIR := Some (path_join (path_parent p) ''scripts'')\<rparr>"

definition last_profile_file :: "path \<Rightarrow> path" where
  "last_profile_file app = path_join app ''last_profile.txt''"

text \<open>\<open>load_profiles_file\<close>, given \<open>APP_DIR\<close> and the path the file dialog returned
  (empty when cancelled): the path is recorded in \<open>last_profile.txt\<close> and loaded.\<close>

definition load_profiles_file :: "path \<Rightarrow> string \<Rightarrow> gui \<Rightarrow> world \<Rightarrow> gui \<times> world" where
  "load_profiles_file app fp g w =
     (if fp = [] then (g, w)
      else (let p = path_of_str fp;
                w1 = w\<lparr>files := (files w)(last_profile_file app \<mapsto> Text (str_of_path p))\<rparr>
            in (load_into (load_data (Some p) w1) (set_profiles_file p g), w1)))"

text \<open>\<open>p.exists()\<close>: a file of the world, or the working directory \<open>Path('.')\<close> or the
  root, which always exist (a blank \<open>last_profile.txt\<close> names \<open>Path('.')\<close>). Other
  directories are not modelled.\<close>

definition path_exists :: "world \<Rightarrow> path \<Rightarrow> bool" where
  "path_exists w p \<longleftrightarrow> files w p \<noteq> None \<or> p = Path False [] \<or> p = Path True []"

text \<open>\<open>load_initial_profiles\<close>, given \<open>APP_DIR\<close> and \<open>PROFILES_DIR\<close>: the path in
  \<open>last_profile.txt\<close>, stripped, when it exists, else \<open>PROFILES_DIR/profiles.json\<close>.
  The program writes that file as plain text; a JSON document there is taken to name no
  path. Opening a directory fails and \<open>load_data\<close> gives \<open>{}\<close>.\<close>

definition initial_profiles_path :: "path \<Rightarrow> path \<Rightarrow> world \<Rightarrow> path" where
  "initial_profiles_path app pdir w =
     (case files w (last_profile_file app) of
        Some (Text s) \<Rightarrow>
          (let lp = path_of_str (py_strip s) in
           if path_exists w lp then lp else path_join pdir ''profiles.json'')
      | _ \<Rightarrow> path_join pdir ''profiles.json'')"

definition load_initial_profiles :: "path \<Rightarrow> path \<Rightarrow> gui \<Rightarrow> world \<Rightarrow> gui" where
  "load_initial_profiles app pdir g w =
     (let dp = initial_profiles_path app pdir w;
          g1 = set_profiles_file dp g
      in if path_exists w dp then load_into (load_data (Some dp) w) g1 else g1)"

text \<open>\<open>DofusControl()\<close>: the attributes of \<open>__init__\<close>, the flags
  \<open>FramelessWindowHint | WindowStaysOnTopHint\<close>, the widgets of \<open>setup_ui\<close> (an empty
  combo box, an empty label, an inactive lock button), the module globals as the
  module leaves them, then \<open>load_initial_profiles()\<close>. The window manager places the
  frame at \<open>pos\<close>.\<close>

definition dofus_control_init :: "path \<Rightarrow> path \<Rightarrow> point \<Rightarrow> world \<Rightarrow> gui" where
  "dofus_control_init app pdir pos w =
     load_initial_profiles app pdir
       \<lparr>self_profiles = PDict [], active_profile = PStr [], combo_items = [], combo_index = None,
        signals_blocked = False, classes_label = [], drag_start = None, frame_pos = pos,
        win_flags = FramelessWindowHint OR WindowStaysOnTopHint, center_active = False,
        PROFILES_FILE = None, SCRIPTS_DIR = None, ALWAYS_ON_TOP = False,
        combo_style = BaseStyle, popup_styled = False\<rparr> w"

subsection \<open>The window handlers\<close>

text \<open>\<open>toggle_always_on_top\<close>: the global flips, the on-top hint is set or cleared
  in the window flags, and the lock button shows the new state.\<close>

definition toggle_always_on_top :: "gui \<Rightarrow> gui" where
  "toggle_always_on_top g =
     (if \<not> ALWAYS_ON_TOP g
      then g\<lparr>ALWAYS_ON_TOP := True, win_flags := win_flags g OR WindowStaysOnTopHint, center_active := True\<rparr>
      else g\<lparr>ALWAYS_ON_TOP := False, win_flags := win_flags g AND NOT WindowStaysOnTopHint,
             center_active := False\<rparr>)"

text \<open>Dragging the frameless window: \<open>mousePressEvent\<close> with the left button records the
  offset of the cursor from the frame, \<open>mouseMoveEvent\<close> with exactly the left button
  held moves the frame by it, \<open>mouseReleaseEvent\<close> ends the drag.\<close>

definition mouse_press :: "qflags \<Rightarrow> point \<Rightarrow> gui \<Rightarrow> gui" where
  "mouse_press b gp g = (if b = LeftButton then g\<lparr>drag_start := Some (pt_sub gp (frame_pos g))\<rparr> else g)"

definition mouse_move :: "qflags \<Rightarrow> point \<Rightarrow> gui \<Rightarrow> gui" where
  "mouse_move bs gp g =
     (case drag_start g of
        None \<Rightarrow> g
      | Some d \<Rightarrow> if bs = LeftButton then g\<lparr>frame_pos := pt_sub gp d\<rparr> else g)"

definition mouse_release :: "gui \<Rightarrow> gui" where
  "mouse_release g = g\<lparr>drag_start := None\<rparr>"

subsection \<open>The profile handlers\<close>

text \<open>\<open>on_profile_selected\<close>, the slot of the box's \<open>currentTextChanged\<close>: for a
  profile of \<open>self.profiles\<close>, the profile becomes the active one of the file, the
  cycling scripts are regenerated and the label updated.\<close>

definition on_profile_selected :: "string \<Rightarrow> gui \<Rightarrow> world \<Rightarrow> (gui \<times> world) py" where
  "on_profile_selected name g w =
     (if name = [] then Inr (g, w)
      else (case py_contains_str (self_profiles g) name of
              Inl e \<Rightarrow> Inl e
            | Inr False \<Rightarrow> Inr (g, w)
            | Inr True \<Rightarrow>
                (case save_initiative (PROFILES_FILE g) name w of
                   Inl e \<Rightarrow> Inl e
                 | Inr w1 \<Rightarrow>
                     (case update_cycle_scripts (PROFILES_FILE g) (SCRIPTS_DIR g) name w1 of
                        Inl e \<Rightarrow> Inl e
                      | Inr w2 \<Rightarrow>
                          (case display_profile_classes g of
                             (g', None) \<Rightarrow> Inr (g', w2)
                           | (_, Some e) \<Rightarrow> Inl e)))))"

text \<open>The user picks item \<open>i\<close> of the box: the current index changes, and
  \<open>currentTextChanged\<close> reaches \<open>on_profile_selected\<close> when the text changed and the
  signals are not blocked.\<close>

definition select_item :: "nat \<Rightarrow> gui \<Rightarrow> world \<Rightarrow> (gui \<times> world) py" where
  "select_item i g w =
     (if i < length (combo_items g)
      then (let g1 = g\<lparr>combo_index := Some i\<rparr> in
            if \<not> signals_blocked g \<and> combo_text g1 \<noteq> combo_text g
            then on_profile_selected (combo_text g1) g1 w
            else Inr (g1, w))
      else Inr (g, w))"

text \<open>A pick by the user emits \<open>currentTextChanged\<close> to the box's two slots in the order
  they were connected: the box's own \<open>on_selection_changed\<close> (in
  \<open>StyledComboBox.__init__\<close>), then \<open>on_profile_selected\<close> (in \<open>setup_ui\<close>).\<close>

definition emits_text_changed :: "nat \<Rightarrow> gui \<Rightarrow> bool" where
  "emits_text_changed i g \<longleftrightarrow>
     i < length (combo_items g) \<and> \<not> signals_blocked g \<and> combo_items g ! i \<noteq> combo_text g"

definition combo_select :: "nat \<Rightarrow> gui \<Rightarrow> world \<Rightarrow> (gui \<times> world) py" where
  "combo_select i g w =
     (if emits_text_changed i g
      then select_item i (g\<lparr>combo_style := on_selection_changed (combo_items g ! i)\<rparr>) w
      else select_item i g w)"

text \<open>\<open>showPopup\<close>: the popup list is shown and given its style sheet.\<close>

definition show_popup :: "gui \<Rightarrow> gui" where
  "show_popup g = g\<lparr>popup_styled := True\<rparr>"

subsection \<open>The action buttons\<close>

text \<open>The guard \<open>if not PROFILES_FILE or not PROFILES_FILE.exists(): return\<close> (a
  \<open>Path\<close> is always true).\<close>

definition profiles_file_exists :: "gui \<Rightarrow> world \<Rightarrow> bool" where
  "profiles_file_exists g w = (case PROFILES_FILE g of None \<Rightarrow> False | Some p \<Rightarrow> files w p \<noteq> None)"

text \<open>\<open>action_rename\<close> and \<open>action_reorganize\<close>: with a profile file, at least one
  game window and a current profile, the module function on that profile.\<close>

definition action_on_windows ::
  "(path option \<Rightarrow> string \<Rightarrow> world \<Rightarrow> world py) \<Rightarrow> gui \<Rightarrow> world \<Rightarrow> (gui \<times> world) py" where
  "action_on_windows act g w =
     (if \<not> profiles_file_exists g w then Inr (g, w)
      else (case get_dofus_windows w of
              (ws, w1) \<Rightarrow>
                if ws = [] then Inr (g, w1)
                else if combo_text g = [] then Inr (g, w1)
                else (case act (PROFILES_FILE g) (combo_text g) w1 of
                        Inl e \<Rightarrow> Inl e
                      | Inr w2 \<Rightarrow> Inr (g, w2))))"

definition action_rename :: "gui \<Rightarrow> world \<Rightarrow> (gui \<times> world) py" where
  "action_rename = action_on_windows rename_windows"

definition action_reorganize :: "gui \<Rightarrow> world \<Rightarrow> (gui \<times> world) py" where
  "action_reorganize = action_on_windows reorganize_windows"

text \<open>\<open>launch_invites\<close>, the callback the countdown dialog calls.\<close>

definition launch_invites :: "string \<Rightarrow> gui \<Rightarrow> world \<Rightarrow> (gui \<times> world) py" where
  "launch_invites name g w =
     (case invite_group (PROFILES_FILE g) name w of Inl e \<Rightarrow> Inl e | Inr w' \<Rightarrow> Inr (g, w'))"

text \<open>\<open>action_invite_group\<close>: with a profile file and a current profile, the countdown
  dialog runs and calls \<open>launch_invites\<close> once its timer has run out, which it always
  does, once, even when the user closes the dialog (the countdown properties of
  \<open>Invite\<close>). The dialog
  is modal; the events that reach the main window after an early close and before the
  last tick are not interleaved with it here.\<close>

definition action_invite_group :: "gui \<Rightarrow> world \<Rightarrow> (gui \<times> world) py" where
  "action_invite_group g w =
     (if \<not> profiles_file_exists g w then Inr (g, w)
      else if combo_text g = [] then Inr (g, w)
      else launch_invites (combo_text g) g w)"

subsection \<open>Runs of events\<close>

datatype ui_event =
    ChooseFile string
  | SelectItem nat
  | ClickLock
  | ClickRename
  | ClickReorganize
  | ClickInvite
  | Press qflags point
  | Move qflags point
  | Release
  | ShowPopup

text \<open>One event, given \<open>APP_DIR\<close>: the button connections of \<open>setup_ui\<close>.\<close>

fun app_step :: "path \<Rightarrow> ui_event \<Rightarrow> gui \<times> world \<Rightarrow> (gui \<times> world) py" where
  "app_step app (ChooseFile fp) (g, w) = Inr (load_profiles_file app fp g w)"
| "app_step app (SelectItem i) (g, w) = combo_select i g w"
| "app_step app ClickLock (g, w) = Inr (toggle_always_on_top g, w)"
| "app_step app ClickRename (g, w) = action_rename g w"
| "app_step app ClickReorganize (g, w) = action_reorganize g w"
| "app_step app ClickInvite (g, w) = action_invite_group g w"
| "app_step app (Press b p) (g, w) = Inr (mouse_press b p g, w)"
| "app_step app (Move bs p) (g, w) = Inr (mouse_move bs p g, w)"
| "app_step app Release (g, w) = Inr (mouse_release g, w)"
| "app_step app ShowPopup (g, w) = Inr (show_popup g, w)"

fun app_run :: "path \<Rightarrow> ui_event list \<Rightarrow> gui \<times> world \<Rightarrow> (gui \<times> world) py" where
  "app_run app [] s = Inr s"
| "app_run app (e # es) s = (case app_step app e s of Inl err \<Rightarrow> Inl err | Inr s' \<Rightarrow> app_run app es s')"

subsection \<open>Invariant\<close>

text \<open>The combo box's index is valid and absent only for an empty box; while the
  signals flow, the box lists exactly the keys of \<open>self.profiles\<close>, a dictionary; a
  profile file is set and \<open>SCRIPTS_DIR\<close> is its \<open>scripts\<close> sibling; the lock button
  shows \<open>ALWAYS_ON_TOP\<close>.\<close>

definition combo_ok :: "gui \<Rightarrow> bool" where
  "combo_ok g \<longleftrightarrow>
     (case combo_index g of None \<Rightarrow> combo_items g = [] | Some i \<Rightarrow> i < length (combo_items g))"

definition lists_keys :: "gui \<Rightarrow> bool" where
  "lists_keys g \<longleftrightarrow>
     signals_blocked g \<or> (case self_profiles g of PDict d \<Rightarrow> combo_items g = map fst d | _ \<Rightarrow> False)"

definition ui_inv :: "gui \<Rightarrow> bool" where
  "ui_inv g \<longleftrightarrow>
     combo_ok g \<and> lists_keys g \<and>
     (case PROFILES_FILE g of
        None \<Rightarrow> False
      | Some p \<Rightarrow> SCRIPTS_DIR g = Some (path_join (path_parent p) ''scripts'')) \<and>
     center_active g = ALWAYS_ON_TOP g"

text \<open>Two states that differ at most in the profile view: the profiles, the combo box
  and the label.\<close>

definition view_only :: "gui \<Rightarrow> gui \<Rightarrow> bool" where
  "view_only g g' \<longleftrightarrow>
     PROFILES_FILE g' = PROFILES_FILE g \<and> SCRIPTS_DIR g' = SCRIPTS_DIR g \<and> ALWAYS_ON_TOP g' = ALWAYS_ON_TOP g \<and>
     center_active g' = center_active g \<and> win_flags g' = win_flags g \<and> frame_pos g' = frame_pos g \<and>
     drag_start g' = drag_start g"

text \<open>An absolute path as \<open>Path\<close> normalises it and as a file dialog returns it:
  components non-empty, not \<open>.\<close>, free of \<open>/\<close>, and no trailing whitespace.\<close>

definition wf_abs_path :: "path \<Rightarrow> bool" where
  "wf_abs_path p \<longleftrightarrow>
     (case p of
        Path a cs \<Rightarrow> a \<and> (\<forall>c\<in>set cs. c \<noteq> [] \<and> c \<noteq> ''.'' \<and> CHR ''/'' \<notin> set c) \<and>
                     (cs = [] \<or> \<not> py_isspace (last (last cs))))"


text \<open>The example installation of the witnesses: \<open>APP_DIR\<close>, \<open>PROFILES_DIR\<close>, and a
  second profile file whose \<open>active\<close> entry is a list.\<close>

definition demo_app_dir :: path where
  "demo_app_dir = Path True [''opt'', ''toolbox'']"

definition demo_profiles_dir :: path where
  "demo_profiles_dir = Path True [''home'', ''user'', ''profiles'']"

definition demo_bad_path :: path where
  "demo_bad_path = Path True [''home'', ''user'', ''profiles'', ''bad.json'']"

definition demo_gui_world :: world where
  "demo_gui_world =
     demo_store\<lparr>files := (files demo_store)(demo_bad_path \<mapsto>
        Json (PDict [(''profiles'', PDict [(''a'', PList [PStr ''Cra'']), (''b'', PList [PStr ''Iop''])]),
                     (''active'', PList [])]))\<rparr>"

definition demo_two :: world where
  "demo_two =
     demo_store\<lparr>files := [demo_profiles_path \<mapsto>
        Json (PDict [(''profiles'', PDict [(''a'', PList [PStr ''Cra'']), (''b'', PList [])]),
                     (''active'', PStr ''a'')])]\<rparr>"


lemmas controller_defs [model_simps] =
  FramelessWindowHint_def WindowStaysOnTopHint_def LeftButton_def pt_add_def pt_sub_def
  combo_text_def combo_clear_def combo_add_items_def combo_set_text_def dict_contains_def
  arrow_sep_def display_profile_classes_def update_profile_list_def load_into_def
  set_profiles_file_def last_profile_file_def load_profiles_file_def path_exists_def initial_profiles_path_def
  load_initial_profiles_def dofus_control_init_def toggle_always_on_top_def mouse_press_def
  mouse_move_def mouse_release_def on_profile_selected_def select_item_def emits_text_changed_def
  combo_select_def show_popup_def
  profiles_file_exists_def action_on_windows_def action_rename_def action_reorganize_def
  launch_invites_def action_invite_group_def

subsection \<open>Facts\<close>

lemma first_index_less: "x \<in> set xs \<Longrightarrow> first_index x xs < length xs"
  by (induction xs) auto

lemma display_profile_classes_label:
  "display_profile_classes g = (g', r) \<Longrightarrow> g' = g\<lparr>classes_label := classes_label g'\<rparr>"
  by (auto simp: display_profile_classes_def Let_def split: sum.splits bool.splits if_splits)

lemma dict_contains_True: "dict_contains d x = Inr True \<Longrightarrow> py_str x \<in> set (map fst d)"
  by (cases x) (auto simp: dict_contains_def split: if_splits)

lemma update_profile_list_dict:
  assumes "self_profiles g = PDict d" "dict_contains d (active_profile g) = Inr b"
  shows "update_profile_list g =
           display_profile_classes
             (g\<lparr>combo_items := map fst d,
                combo_index := (if b then Some (first_index (py_str (active_profile g)) (map fst d))
                                else if d = [] then None else Some 0),
                signals_blocked := False\<rparr>)"
  using assms dict_contains_True[of d "active_profile g"]
  by (cases b) (auto simp: update_profile_list_def Let_def combo_clear_def combo_add_items_def combo_set_text_def)

lemma display_profile_classes_view:
  assumes "display_profile_classes g = (g', r)"
  shows "combo_ok g' = combo_ok g \<and> lists_keys g' = lists_keys g \<and> view_only g g'"
proof -
  obtain t where "g' = g\<lparr>classes_label := t\<rparr>" using display_profile_classes_label[OF assms] by blast
  then show ?thesis by (simp add: combo_ok_def lists_keys_def view_only_def split: option.split pyval.split)
qed

lemma update_profile_list_view:
  assumes "update_profile_list g = (g', r)"
  shows "combo_ok g' \<and> lists_keys g' \<and> view_only g g'"
proof (cases "\<exists>d. self_profiles g = PDict d")
  case True
  then obtain d where d: "self_profiles g = PDict d" by blast
  show ?thesis
  proof (cases "dict_contains d (active_profile g)")
    case (Inl e)
    with assms d show ?thesis
      by (cases d) (auto simp: update_profile_list_def Let_def combo_clear_def combo_add_items_def
                               combo_ok_def lists_keys_def view_only_def)
  next
    case (Inr b)
    let ?g3 = "g\<lparr>combo_items := map fst d,
                  combo_index := (if b then Some (first_index (py_str (active_profile g)) (map fst d))
                                  else if d = [] then None else Some 0),
                  signals_blocked := False\<rparr>"
    have "combo_ok ?g3 \<and> lists_keys ?g3 \<and> view_only g ?g3"
      using d dict_contains_True[of d "active_profile g"] Inr first_index_less[of _ "map fst d"]
      by (auto simp: combo_ok_def lists_keys_def view_only_def)
    then show ?thesis
      using display_profile_classes_view assms[unfolded update_profile_list_dict[OF d Inr]]
      by (auto simp: view_only_def)
  qed
next
  case False
  with assms show ?thesis
    by (cases "self_profiles g")
       (auto simp: update_profile_list_def Let_def combo_clear_def combo_ok_def lists_keys_def view_only_def)
qed

lemma py_get_both:
  "py_get data k (PDict []) = Inr ps \<Longrightarrow> \<exists>a. py_get data k' dflt = Inr a"
  by (cases data) auto

lemma view_only_refl [simp]: "view_only g g"
  by (simp add: view_only_def)

lemma load_into_view:
  assumes "combo_ok g" "lists_keys g"
  shows "combo_ok (load_into data g) \<and> lists_keys (load_into data g) \<and> view_only g (load_into data g)"
proof (cases "py_get data ''profiles'' (PDict [])")
  case (Inr ps)
  then obtain a where a: "py_get data ''active'' (PStr []) = Inr a" using py_get_both by blast
  obtain g' r where u: "update_profile_list (g\<lparr>self_profiles := ps, active_profile := a\<rparr>) = (g', r)"
    by (cases "update_profile_list (g\<lparr>self_profiles := ps, active_profile := a\<rparr>)")
  show ?thesis
    using update_profile_list_view[OF u] Inr a u by (simp add: load_into_def view_only_def)
qed (use assms in \<open>simp add: load_into_def\<close>)

lemma view_only_set_profiles_file:
  "view_only (set_profiles_file p g) g' \<Longrightarrow>
     PROFILES_FILE g' = Some p \<and> SCRIPTS_DIR g' = Some (path_join (path_parent p) ''scripts'') \<and>
     center_active g' = center_active g \<and> ALWAYS_ON_TOP g' = ALWAYS_ON_TOP g"
  by (simp add: view_only_def set_profiles_file_def)

lemma set_profiles_file_view [simp]:
  "combo_ok (set_profiles_file p g) = combo_ok g" "lists_keys (set_profiles_file p g) = lists_keys g"
  by (simp_all add: set_profiles_file_def combo_ok_def lists_keys_def split: option.split pyval.split)

lemma ui_inv_load:
  assumes "combo_ok g" "lists_keys g" "center_active g = ALWAYS_ON_TOP g"
  shows "ui_inv (load_into data (set_profiles_file p g))"
proof -
  have v: "combo_ok (load_into data (set_profiles_file p g)) \<and> lists_keys (load_into data (set_profiles_file p g)) \<and>
           view_only (set_profiles_file p g) (load_into data (set_profiles_file p g))"
    using load_into_view assms by simp
  show ?thesis using v view_only_set_profiles_file[OF conjunct2[OF conjunct2[OF v]]] assms(3)
    by (simp add: ui_inv_def)
qed

lemma ui_inv_init: "ui_inv (dofus_control_init app pdir pos w)"
proof -
  let ?g0 = "\<lparr>self_profiles = PDict [], active_profile = PStr [], combo_items = [], combo_index = None,
              signals_blocked = False, classes_label = [], drag_start = None, frame_pos = pos,
              win_flags = FramelessWindowHint OR WindowStaysOnTopHint, center_active = False,
              PROFILES_FILE = None, SCRIPTS_DIR = None, ALWAYS_ON_TOP = False,
        combo_style = BaseStyle, popup_styled = False\<rparr>"
  have g0: "combo_ok ?g0" "lists_keys ?g0" "center_active ?g0 = ALWAYS_ON_TOP ?g0"
    by (simp_all add: combo_ok_def lists_keys_def)
  show ?thesis
    using ui_inv_load[OF g0]
    by (simp add: dofus_control_init_def load_initial_profiles_def Let_def ui_inv_def set_profiles_file_def
                  combo_ok_def lists_keys_def)
qed

lemma view_only_trans: "view_only g g1 \<Longrightarrow> view_only g1 g2 \<Longrightarrow> view_only g g2"
  by (simp add: view_only_def)

lemma ui_inv_view: "ui_inv g \<Longrightarrow> view_only g g' \<Longrightarrow> combo_ok g' \<Longrightarrow> lists_keys g' \<Longrightarrow> ui_inv g'"
  by (auto simp: ui_inv_def view_only_def split: option.splits)

lemma on_profile_selected_view:
  assumes "on_profile_selected n g w = Inr (g', w')"
  shows "combo_ok g' = combo_ok g \<and> lists_keys g' = lists_keys g \<and> view_only g g'"
  using assms display_profile_classes_view[of g]
  by (auto simp: on_profile_selected_def split: if_splits sum.splits bool.splits option.splits prod.splits)

lemma select_item_view:
  assumes "select_item i g w = Inr (g', w')"
  shows "(combo_ok g \<longrightarrow> combo_ok g') \<and> lists_keys g' = lists_keys g \<and> view_only g g'"
proof -
  have g1: "combo_ok (g\<lparr>combo_index := Some i\<rparr>) = (i < length (combo_items g))"
    "lists_keys (g\<lparr>combo_index := Some i\<rparr>) = lists_keys g" "view_only g (g\<lparr>combo_index := Some i\<rparr>)"
    by (simp_all add: combo_ok_def lists_keys_def view_only_def split: pyval.split)
  show ?thesis
    using assms g1 on_profile_selected_view[of _ "g\<lparr>combo_index := Some i\<rparr>" w g' w']
      view_only_trans[OF g1(3)]
    by (auto simp: select_item_def Let_def split: if_splits)
qed

lemma combo_select_view:
  assumes "combo_select i g w = Inr (g', w')"
  shows "(combo_ok g \<longrightarrow> combo_ok g') \<and> lists_keys g' = lists_keys g \<and> view_only g g'"
proof -
  let ?g1 = "g\<lparr>combo_style := on_selection_changed (combo_items g ! i)\<rparr>"
  have "combo_ok ?g1 = combo_ok g" "lists_keys ?g1 = lists_keys g" "view_only g ?g1"
    by (simp_all add: combo_ok_def lists_keys_def view_only_def split: option.split pyval.split)
  then show ?thesis
    using assms select_item_view[of i g w g' w'] select_item_view[of i ?g1 w g' w'] view_only_trans
    by (auto simp: combo_select_def split: if_splits)
qed

lemma action_on_windows_gui: "action_on_windows act g w = Inr (g', w') \<Longrightarrow> g' = g"
  by (auto simp: action_on_windows_def split: if_splits prod.splits sum.splits)

lemma action_invite_group_gui: "action_invite_group g w = Inr (g', w') \<Longrightarrow> g' = g"
  by (auto simp: action_invite_group_def launch_invites_def split: if_splits sum.splits)

lemma ui_inv_frame:
  assumes "ui_inv g" "combo_items g' = combo_items g" "combo_index g' = combo_index g"
    "signals_blocked g' = signals_blocked g" "self_profiles g' = self_profiles g"
    "PROFILES_FILE g' = PROFILES_FILE g" "SCRIPTS_DIR g' = SCRIPTS_DIR g" "center_active g' = ALWAYS_ON_TOP g'"
  shows "ui_inv g'"
  using assms by (simp add: ui_inv_def combo_ok_def lists_keys_def cong: option.case_cong pyval.case_cong)

lemma ui_inv_toggle: "ui_inv g \<Longrightarrow> ui_inv (toggle_always_on_top g)"
  by (erule ui_inv_frame) (simp_all add: toggle_always_on_top_def)

lemma ui_inv_center: "ui_inv g \<Longrightarrow> center_active g = ALWAYS_ON_TOP g"
  by (simp add: ui_inv_def)

lemma ui_inv_mouse:
  assumes "ui_inv g"
  shows "ui_inv (mouse_press b p g)" "ui_inv (mouse_move bs p g)" "ui_inv (mouse_release g)"
  using ui_inv_center[OF assms]
  by (auto intro!: ui_inv_frame[OF assms] simp: mouse_press_def mouse_move_def mouse_release_def
           split: option.split)

lemma ui_inv_step:
  assumes "app_step app e (g, w) = Inr (g', w')" "ui_inv g"
  shows "ui_inv g'"
proof (cases e)
  case (ChooseFile fp)
  then show ?thesis
    using assms ui_inv_load[of g] by (auto simp: load_profiles_file_def Let_def ui_inv_def split: if_splits)
next
  case (SelectItem i)
  then show ?thesis
    using assms combo_select_view[of i g w g' w'] ui_inv_view[of g g'] by (auto simp: ui_inv_def)
next
  case ShowPopup
  then show ?thesis
    using assms ui_inv_center[OF assms(2)] by (auto intro!: ui_inv_frame[OF assms(2)] simp: show_popup_def)
qed (use assms in \<open>auto simp: action_rename_def action_reorganize_def ui_inv_toggle ui_inv_mouse
                   dest: action_on_windows_gui action_invite_group_gui\<close>)

lemma ui_inv_run: "app_run app es (g, w) = Inr (g', w') \<Longrightarrow> ui_inv g \<Longrightarrow> ui_inv g'"
proof (induction es arbitrary: g w)
  case (Cons e es)
  then show ?case using ui_inv_step by (auto split: sum.splits)
qed simp

lemma on_top_hint_nonzero: "WindowStaysOnTopHint \<noteq> 0"
  by (simp add: WindowStaysOnTopHint_def)

lemma flags_set_hint:
  "(x OR h) AND h = (h::qflags)" "(x OR h) AND NOT h = x AND NOT (h::qflags)"
  "(x AND NOT h) AND h = (0::qflags)" "(x AND NOT h) AND NOT h = x AND NOT (h::qflags)"
  by (intro bit_eqI; auto simp: bit_simps)+

lemma load_into_view_only: "view_only g (load_into data g)"
proof (cases "py_get data ''profiles'' (PDict [])")
  case (Inr ps)
  then obtain a where a: "py_get data ''active'' (PStr []) = Inr a" using py_get_both by blast
  obtain g' r where u: "update_profile_list (g\<lparr>self_profiles := ps, active_profile := a\<rparr>) = (g', r)"
    by (cases "update_profile_list (g\<lparr>self_profiles := ps, active_profile := a\<rparr>)")
  show ?thesis
    using update_profile_list_view[OF u] Inr a u by (simp add: load_into_def view_only_def)
qed (simp add: load_into_def)

lemma load_initial_profiles_view:
  "view_only (set_profiles_file (initial_profiles_path app pdir w) g) (load_initial_profiles app pdir g w)"
  by (simp add: load_initial_profiles_def Let_def load_into_view_only)

lemma drag_moves:
  "drag_start g = Some d \<Longrightarrow>
   app_run app (map (Move LeftButton) qs) (g, w) =
     Inr (if qs = [] then g else g\<lparr>frame_pos := pt_sub (last qs) d\<rparr>, w)"
  by (induction qs arbitrary: g) (auto simp: mouse_move_def)

lemma py_split_char_append: "d \<notin> set x \<Longrightarrow> py_split_char d (x @ d # r) = x # py_split_char d r"
  by (induction x) (auto simp: Let_def)

lemma py_split_char_join:
  "cs \<noteq> [] \<Longrightarrow> \<forall>c\<in>set cs. d \<notin> set c \<Longrightarrow> py_split_char d (py_join [d] cs) = cs"
proof (induction "[d]" cs rule: py_join.induct)
  case (2 x)
  then show ?case by (simp add: py_split_char_absent)
next
  case (3 x y xs)
  then show ?case by (simp add: py_split_char_append)
qed simp

lemma py_join_ends: "cs \<noteq> [] \<Longrightarrow> \<exists>pre. py_join sep cs = pre @ last cs"
  by (induction sep cs rule: py_join.induct) auto

lemma last_py_join: "cs \<noteq> [] \<Longrightarrow> last cs \<noteq> [] \<Longrightarrow> last (py_join sep cs) = last (last cs)"
  using py_join_ends[of cs sep] by auto

lemma path_of_str_of_path: "wf_abs_path p \<Longrightarrow> path_of_str (str_of_path p) = p"
proof (cases p)
  case (Path a cs)
  assume wf: "wf_abs_path p"
  then have a: "a" and cs: "\<forall>c\<in>set cs. c \<noteq> [] \<and> c \<noteq> ''.'' \<and> CHR ''/'' \<notin> set c"
    using Path by (simp_all add: wf_abs_path_def)
  have "filter (\<lambda>c. c \<noteq> [] \<and> c \<noteq> ''.'') (py_split_char (CHR ''/'') (py_join ''/'' cs)) = cs"
  proof (cases "cs = []")
    case False
    then show ?thesis using cs py_split_char_join[of cs "CHR ''/''"] by (simp add: filter_id_conv)
  qed simp
  then show ?thesis using Path a by (simp add: path_of_str_def Let_def)
qed

lemma str_of_path_strip: "wf_abs_path p \<Longrightarrow> py_strip (str_of_path p) = str_of_path p"
proof (cases p)
  case (Path a cs)
  assume wf: "wf_abs_path p"
  then have a: "a" and cs: "\<forall>c\<in>set cs. c \<noteq> []" and l: "cs = [] \<or> \<not> py_isspace (last (last cs))"
    using Path by (simp_all add: wf_abs_path_def)
  have "\<not> py_isspace (last (str_of_path p))"
    using Path a l cs last_py_join[of cs "''/''"] by (cases "cs = []") (simp_all add: py_isspace_def)
  then show ?thesis using Path a by (intro py_strip_id) (simp_all add: py_isspace_def)
qed

lemma initial_profiles_path_view:
  "PROFILES_FILE (load_initial_profiles app pdir g w) = Some (initial_profiles_path app pdir w)"
  by (simp add: load_initial_profiles_def Let_def load_into_view_only[THEN view_only_def[THEN iffD1]] set_profiles_file_def)

lemma update_cycle_scripts_other_files:
  assumes "update_cycle_scripts pf (Some d) name w = Inr w'"
    "q \<noteq> path_join d ''cycle_windows_dofus.sh''" "q \<noteq> path_join d ''cycle_backward_windows_dofus.sh''"
  shows "files w' q = files w q"
  using assms by (auto simp: update_cycle_scripts_def write_script_def split: sum.splits prod.splits if_splits option.splits)

lemma script_path_not_profile: "path_join (path_join (path_parent p) ''scripts'') n \<noteq> p"
  by (cases p) (auto dest: arg_cong[of _ _ length])

lemma lists_keys_contains:
  "lists_keys g \<Longrightarrow> \<not> signals_blocked g \<Longrightarrow> name \<in> set (combo_items g) \<Longrightarrow> py_contains_str (self_profiles g) name = Inr True"
  by (auto simp: lists_keys_def split: pyval.splits)

lemma save_initiative_dict:
  "files w pf = Some (Json (PDict doc)) \<Longrightarrow>
   save_initiative (Some pf) name w = Inr (w\<lparr>files := (files w)(pf \<mapsto> Json (PDict (alist_set doc ''active'' (PStr name))))\<rparr>)"
  by (simp add: save_initiative_def load_data_def save_data_def)

text \<open>Picking item \<open>i\<close> while the signals flow runs \<open>on_profile_selected\<close> on a
  profile of \<open>self.profiles\<close>: the active profile is saved, the scripts regenerated,
  the label updated.\<close>

lemma select_item_unfold:
  assumes "ui_inv g" "\<not> signals_blocked g" "i < length (combo_items g)" "combo_items g ! i \<noteq> combo_text g"
    "combo_items g ! i \<noteq> []" "PROFILES_FILE g = Some pf" "files w pf = Some (Json (PDict doc))"
  shows "select_item i g w =
           (case update_cycle_scripts (Some pf) (SCRIPTS_DIR g) (combo_items g ! i)
                   (w\<lparr>files := (files w)(pf \<mapsto> Json (PDict (alist_set doc ''active'' (PStr (combo_items g ! i)))))\<rparr>) of
              Inl e \<Rightarrow> Inl e
            | Inr w2 \<Rightarrow> (case display_profile_classes (g\<lparr>combo_index := Some i\<rparr>) of
                           (g', None) \<Rightarrow> Inr (g', w2) | (_, Some e) \<Rightarrow> Inl e))"
proof -
  let ?n = "combo_items g ! i"
  have t1: "combo_text (g\<lparr>combo_index := Some i\<rparr>) = ?n" using assms(3) by (simp add: combo_text_def)
  have c: "py_contains_str (self_profiles g) ?n = Inr True"
    using lists_keys_contains[of g ?n] assms(1-3) by (simp add: ui_inv_def)
  show ?thesis
    using assms(2-7) t1 c by (simp add: select_item_def on_profile_selected_def save_initiative_dict)
qed

lemma select_item_fires:
  assumes "ui_inv g" "\<not> signals_blocked g" "i < length (combo_items g)" "combo_items g ! i \<noteq> combo_text g"
    "combo_items g ! i \<noteq> []" "PROFILES_FILE g = Some pf" "files w pf = Some (Json (PDict doc))"
    "select_item i g w = Inr (g', w')"
  shows "combo_text g' = combo_items g ! i \<and>
         update_cycle_scripts (Some pf) (SCRIPTS_DIR g) (combo_items g ! i)
           (w\<lparr>files := (files w)(pf \<mapsto> Json (PDict (alist_set doc ''active'' (PStr (combo_items g ! i)))))\<rparr>) = Inr w'"
proof -
  have u: "update_cycle_scripts (Some pf) (SCRIPTS_DIR g) (combo_items g ! i)
           (w\<lparr>files := (files w)(pf \<mapsto> Json (PDict (alist_set doc ''active'' (PStr (combo_items g ! i)))))\<rparr>) = Inr w'"
    and d: "display_profile_classes (g\<lparr>combo_index := Some i\<rparr>) = (g', None)"
    using assms(8)[unfolded select_item_unfold[OF assms(1-7)]]
    by (auto split: sum.splits prod.splits option.splits)
  obtain t where "g' = g\<lparr>combo_index := Some i, classes_label := t\<rparr>"
    using display_profile_classes_label[OF d] by auto
  then show ?thesis using u assms(3) by (simp add: combo_text_def)
qed

lemma display_profile_classes_style:
  "display_profile_classes g = (g', r) \<Longrightarrow> combo_style g' = combo_style g \<and> combo_index g' = combo_index g \<and>
                                         combo_items g' = combo_items g"
  by (drule display_profile_classes_label) (metis gui.select_convs(4,3) gui.surjective gui.update_convs(6) gui.select_convs(14))

lemma on_profile_selected_keeps:
  "on_profile_selected n g w = Inr (g', w') \<Longrightarrow>
   combo_style g' = combo_style g \<and> combo_index g' = combo_index g \<and> combo_items g' = combo_items g"
  using display_profile_classes_style[of g]
  by (auto simp: on_profile_selected_def split: if_splits sum.splits bool.splits option.splits prod.splits)

lemma select_item_keeps:
  "select_item i g w = Inr (g', w') \<Longrightarrow> i < length (combo_items g) \<Longrightarrow>
   combo_style g' = combo_style g \<and> combo_index g' = Some i \<and> combo_items g' = combo_items g"
  using on_profile_selected_keeps[of _ "g\<lparr>combo_index := Some i\<rparr>" w g' w']
  by (auto simp: select_item_def Let_def split: if_splits)

text \<open>While the box's signals are blocked, a pick only moves the current index.\<close>

lemma combo_select_blocked:
  "signals_blocked g \<Longrightarrow>
   combo_select i g w = Inr (if i < length (combo_items g) then g\<lparr>combo_index := Some i\<rparr> else g, w)"
  by (simp add: combo_select_def emits_text_changed_def select_item_def Let_def)

lemma picks_while_blocked:
  "signals_blocked g \<Longrightarrow> \<exists>g2. app_run app (map SelectItem is) (g, w) = Inr (g2, w) \<and> signals_blocked g2"
proof (induction "is" arbitrary: g)
  case (Cons i "is")
  then show ?case by (simp add: combo_select_blocked)
qed simp


lemma demo_two_init:
  "signals_blocked (dofus_control_init demo_app_dir demo_profiles_dir (0, 0) demo_two) = False"
  "combo_items (dofus_control_init demo_app_dir demo_profiles_dir (0, 0) demo_two) = [''a'', ''b'']"
  "combo_text (dofus_control_init demo_app_dir demo_profiles_dir (0, 0) demo_two) = ''a''"
  "PROFILES_FILE (dofus_control_init demo_app_dir demo_profiles_dir (0, 0) demo_two) = Some demo_profiles_path"
  by code_simp+

lemma demo_run_ok:
  "\<not> isl (app_run demo_app_dir [SelectItem 1, ClickLock]
            (dofus_control_init demo_app_dir demo_profiles_dir (0, 0) demo_two, demo_two))"
  "\<not> isl (select_item 1 (dofus_control_init demo_app_dir demo_profiles_dir (0, 0) demo_two) demo_two)"
  by code_simp+

subsection \<open>Properties\<close>

text \<open>C22. Every state of the main window reached from start-up by a run of user events
  satisfies the invariant: the combo box's index is valid, the box lists exactly the
  keys of \<open>self.profiles\<close> whenever its signals are not blocked, a profile file is set
  with \<open>SCRIPTS_DIR\<close> its \<open>scripts\<close> sibling, and the lock button shows \<open>ALWAYS_ON_TOP\<close>.\<close>

theorem ui_inv_reachable:
  "app_run app es (dofus_control_init app pdir pos w, w) = Inr (g', w') \<Longrightarrow> ui_inv g'"
  using ui_inv_run ui_inv_init by blast

text \<open>C23. In an invariant state whose signals flow, picking another, non-empty profile
  in the combo box makes it the box's current text and records it as the active
  profile of the profile file, whose other entries stay as they were.\<close>

theorem select_item_saves_active:
  assumes "ui_inv g" "\<not> signals_blocked g" "i < length (combo_items g)" "combo_items g ! i \<noteq> combo_text g"
    "combo_items g ! i \<noteq> []" "PROFILES_FILE g = Some pf" "files w pf = Some (Json (PDict doc))"
    "select_item i g w = Inr (g', w')"
  shows "combo_text g' = combo_items g ! i \<and>
         load_data (Some pf) w' = PDict (alist_set doc ''active'' (PStr (combo_items g ! i)))"
proof -
  have sd: "SCRIPTS_DIR g = Some (path_join (path_parent pf) ''scripts'')"
    using assms(1,6) by (simp add: ui_inv_def)
  note f = select_item_fires[OF assms]
  have "files w' pf = Some (Json (PDict (alist_set doc ''active'' (PStr (combo_items g ! i)))))"
    using update_cycle_scripts_other_files[OF conjunct2[OF f, unfolded sd] not_sym[OF script_path_not_profile]
                                             not_sym[OF script_path_not_profile]]
    by simp
  then show ?thesis using f by (simp add: load_data_def)
qed

text \<open>C24. A profile file whose \<open>active\<close> entry is a list or a dictionary makes
  \<open>update_profile_list\<close> raise after blocking the box's signals, and the bare
  \<open>except\<close> leaves them blocked: the box lists the file's profiles, but no pick made
  afterwards changes anything in the world (no profile is saved as active and no script is
  written), and the signals stay blocked.\<close>

theorem blocked_signals_lose_selection:
  assumes "fp \<noteq> []" "files w (path_of_str fp) = Some (Json (PDict doc))"
    "path_of_str fp \<noteq> last_profile_file app"
    "map_of doc ''profiles'' = Some (PDict d)" "map_of doc ''active'' = Some a" "\<not> py_hashable a"
    "load_profiles_file app fp g w = (g1, w1)"
  shows "signals_blocked g1 \<and> combo_items g1 = map fst d \<and>
         (\<forall>is. \<exists>g2. app_run app (map SelectItem is) (g1, w1) = Inr (g2, w1) \<and> signals_blocked g2)"
proof -
  let ?p = "path_of_str fp"
  have w1: "w1 = w\<lparr>files := (files w)(last_profile_file app \<mapsto> Text (str_of_path ?p))\<rparr>"
    and g1: "g1 = load_into (load_data (Some ?p) w1) (set_profiles_file ?p g)"
    using assms(1,7) by (auto simp: load_profiles_file_def Let_def)
  have "load_data (Some ?p) w1 = PDict doc" using assms(2,3) w1 by (simp add: load_data_def)
  then have "signals_blocked g1 \<and> combo_items g1 = map fst d"
    using g1 assms(4-6)
    by (simp add: load_into_def update_profile_list_def Let_def combo_clear_def combo_add_items_def
                  dict_contains_def)
  then show ?thesis using picks_while_blocked[of g1] by blast
qed

text \<open>C25. The profile file chosen with the load button is recorded in
  \<open>last_profile.txt\<close> so that the next start of the program opens the same file: the
  path written by \<open>str(PROFILES_FILE)\<close> reads back, stripped, as the same path.\<close>

theorem last_profile_roundtrip:
  assumes "wf_abs_path p" "files w p \<noteq> None" "load_profiles_file app (str_of_path p) g w = (g1, w1)"
  shows "PROFILES_FILE g1 = Some p \<and> PROFILES_FILE (dofus_control_init app pdir pos w1) = Some p"
proof -
  have ne: "str_of_path p \<noteq> []" using assms(1) by (cases p) (simp add: wf_abs_path_def)
  have w1: "w1 = w\<lparr>files := (files w)(last_profile_file app \<mapsto> Text (str_of_path p))\<rparr>"
       and g1: "g1 = load_into (load_data (Some p) w1) (set_profiles_file p g)"
    using assms(3) ne by (auto simp: load_profiles_file_def Let_def path_of_str_of_path[OF assms(1)])
  have "files w1 p \<noteq> None" using assms(2) w1 by simp
  then have "initial_profiles_path app pdir w1 = p"
    using w1 by (simp add: initial_profiles_path_def path_exists_def str_of_path_strip[OF assms(1)]
                           path_of_str_of_path[OF assms(1)])
  moreover have "PROFILES_FILE g1 = Some p"
    using load_into_view_only[of "set_profiles_file p g"] g1 by (simp add: view_only_def set_profiles_file_def)
  ultimately show ?thesis by (simp add: dofus_control_init_def initial_profiles_path_view)
qed
text \<open>C26. The lock button flips \<open>ALWAYS_ON_TOP\<close>, sets the 32-bit
  \<open>WindowStaysOnTopHint\<close> bit of the window flags exactly when it is now true, keeps
  every other flag bit, and shows the new state on the button.\<close>

theorem toggle_on_top_bits:
  "(win_flags (toggle_always_on_top g) AND WindowStaysOnTopHint \<noteq> 0 \<longleftrightarrow> ALWAYS_ON_TOP (toggle_always_on_top g)) \<and>
   win_flags (toggle_always_on_top g) AND NOT WindowStaysOnTopHint = win_flags g AND NOT WindowStaysOnTopHint \<and>
   ALWAYS_ON_TOP (toggle_always_on_top g) = (\<not> ALWAYS_ON_TOP g) \<and>
   center_active (toggle_always_on_top g) = ALWAYS_ON_TOP (toggle_always_on_top g)"
  by (simp add: toggle_always_on_top_def flags_set_hint on_top_hint_nonzero)

text \<open>C27. At start-up the window is created with \<open>WindowStaysOnTopHint\<close> while
  \<open>ALWAYS_ON_TOP\<close> is \<open>False\<close>: the first click on the lock button marks it locked
  but leaves the window flags as they were.\<close>

theorem lock_first_click_no_effect:
  "ALWAYS_ON_TOP (dofus_control_init app pdir pos w) = False \<and>
   win_flags (dofus_control_init app pdir pos w) AND WindowStaysOnTopHint \<noteq> 0 \<and>
   win_flags (toggle_always_on_top (dofus_control_init app pdir pos w)) = win_flags (dofus_control_init app pdir pos w) \<and>
   center_active (toggle_always_on_top (dofus_control_init app pdir pos w))"
proof -
  have v: "win_flags (dofus_control_init app pdir pos w) = FramelessWindowHint OR WindowStaysOnTopHint"
          "ALWAYS_ON_TOP (dofus_control_init app pdir pos w) = False"
    using load_initial_profiles_view[of app pdir w] by (simp_all add: dofus_control_init_def view_only_def set_profiles_file_def)
  have "(FramelessWindowHint OR WindowStaysOnTopHint) OR WindowStaysOnTopHint = FramelessWindowHint OR WindowStaysOnTopHint"
    by (simp add: or.assoc)
  then show ?thesis using v by (simp add: toggle_always_on_top_def flags_set_hint on_top_hint_nonzero)
qed

text \<open>C28. Pressing the left button at \<open>p\<close> and moving with only the left button held
  keeps the window at the same offset from the cursor: after moves to \<open>q\<^sub>1 \<dots> q\<^sub>n\<close>
  the frame has moved by \<open>q\<^sub>n - p\<close>.\<close>

theorem drag_follows_cursor:
  "app_run app (Press LeftButton p # map (Move LeftButton) qs) (g, w) =
     Inr (g\<lparr>drag_start := Some (pt_sub p (frame_pos g)),
            frame_pos := (if qs = [] then frame_pos g else pt_add (frame_pos g) (pt_sub (last qs) p))\<rparr>, w)"
  using drag_moves[of "mouse_press LeftButton p g" "pt_sub p (frame_pos g)" app qs w]
  by (auto simp: mouse_press_def pt_add_def pt_sub_def)


text \<open>C33. A pick of item \<open>i\<close> by the user makes it the current item, and restyles the
  box only when \<open>currentTextChanged\<close> fires (the signals flow and the text changes):
  highlighted for a non-empty text, base style for an empty one; otherwise the style
  stays as it was.\<close>

theorem combo_select_style:
  assumes "combo_select i g w = Inr (g', w')" "i < length (combo_items g)"
  shows "combo_style g' = (if signals_blocked g \<or> combo_items g ! i = combo_text g then combo_style g
                           else if combo_items g ! i = [] then BaseStyle else SelectedStyle) \<and>
         combo_text g' = combo_items g ! i"
proof (cases "emits_text_changed i g")
  case True
  then have "select_item i (g\<lparr>combo_style := on_selection_changed (combo_items g ! i)\<rparr>) w = Inr (g', w')"
    using assms(1) by (simp add: combo_select_def)
  from select_item_keeps[OF this] assms(2) True show ?thesis
    by (simp add: combo_text_def on_selection_changed_def emits_text_changed_def)
next
  case False
  then have "select_item i g w = Inr (g', w')" using assms(1) by (simp add: combo_select_def)
  from select_item_keeps[OF this assms(2)] False assms(2) show ?thesis
    by (auto simp: combo_text_def emits_text_changed_def)
qed

text \<open>C36. A blank \<open>last_profile.txt\<close> (empty, or only whitespace) names \<open>Path('.')\<close>,
  the working directory, which exists: the program takes it as its profile file instead of
  the default one, shows no profile (opening a directory fails, so nothing loads), and
  puts \<open>SCRIPTS_DIR\<close> at the relative directory \<open>scripts\<close>.\<close>

theorem blank_last_profile_uses_cwd:
  assumes "files w (last_profile_file app) = Some (Text s)" "py_strip s = []" "files w (Path False []) = None"
  shows "PROFILES_FILE (dofus_control_init app pdir pos w) = Some (Path False []) \<and>
         SCRIPTS_DIR (dofus_control_init app pdir pos w) = Some (Path False [''scripts'']) \<and>
         combo_items (dofus_control_init app pdir pos w) = [] \<and>
         self_profiles (dofus_control_init app pdir pos w) = PDict []"
proof -
  have "initial_profiles_path app pdir w = Path False []"
    using assms(1,2) by (simp add: initial_profiles_path_def path_exists_def path_of_str_def)
  then show ?thesis using assms(3)
    by (simp add: dofus_control_init_def load_initial_profiles_def Let_def path_exists_def set_profiles_file_def
                  load_data_def load_into_def update_profile_list_def combo_clear_def combo_add_items_def
                  dict_contains_def display_profile_classes_def combo_text_def)
qed

subsection \<open>Witnesses\<close>

theorem ui_inv_reachable_witness:
  "\<exists>g' w'. app_run demo_app_dir [SelectItem 1, ClickLock]
             (dofus_control_init demo_app_dir demo_profiles_dir (0, 0) demo_two, demo_two) = Inr (g', w') \<and> ui_inv g'"
proof -
  obtain g' w' where r: "app_run demo_app_dir [SelectItem 1, ClickLock]
      (dofus_control_init demo_app_dir demo_profiles_dir (0, 0) demo_two, demo_two) = Inr (g', w')"
    using demo_run_ok(1) by (cases "app_run demo_app_dir [SelectItem 1, ClickLock]
      (dofus_control_init demo_app_dir demo_profiles_dir (0, 0) demo_two, demo_two)") auto
  then show ?thesis using ui_inv_reachable[OF r] by blast
qed

theorem select_item_saves_active_witness:
  "\<exists>g' w'. select_item 1 (dofus_control_init demo_app_dir demo_profiles_dir (0, 0) demo_two) demo_two = Inr (g', w') \<and>
     combo_text g' = ''b'' \<and>
     load_data (Some demo_profiles_path) w' =
       PDict [(''profiles'', PDict [(''a'', PList [PStr ''Cra'']), (''b'', PList [])]), (''active'', PStr ''b'')]"
proof -
  let ?g = "dofus_control_init demo_app_dir demo_profiles_dir (0, 0) demo_two"
  obtain g' w' where r: "select_item 1 ?g demo_two = Inr (g', w')"
    using demo_run_ok(2) by (cases "select_item 1 ?g demo_two") auto
  have f: "files demo_two demo_profiles_path =
     Some (Json (PDict [(''profiles'', PDict [(''a'', PList [PStr ''Cra'']), (''b'', PList [])]),
                        (''active'', PStr ''a'')]))"
    by (simp add: demo_two_def)
  show ?thesis
    using select_item_saves_active[OF ui_inv_init _ _ _ _ demo_two_init(4) f r] demo_two_init(1-3) r by simp
qed

theorem last_profile_roundtrip_witness:
  "\<exists>g1 w1. load_profiles_file demo_app_dir (str_of_path demo_bad_path)
              (dofus_control_init demo_app_dir demo_profiles_dir (0, 0) demo_gui_world) demo_gui_world = (g1, w1) \<and>
            PROFILES_FILE g1 = Some demo_bad_path \<and>
            PROFILES_FILE (dofus_control_init demo_app_dir demo_profiles_dir (0, 0) w1) = Some demo_bad_path"
proof -
  have wf: "wf_abs_path demo_bad_path" by (simp add: wf_abs_path_def demo_bad_path_def py_isspace_def)
  have ex: "files demo_gui_world demo_bad_path \<noteq> None" by (simp add: demo_gui_world_def)
  obtain g1 w1 where r: "load_profiles_file demo_app_dir (str_of_path demo_bad_path)
              (dofus_control_init demo_app_dir demo_profiles_dir (0, 0) demo_gui_world) demo_gui_world = (g1, w1)"
    by (cases "load_profiles_file demo_app_dir (str_of_path demo_bad_path)
              (dofus_control_init demo_app_dir demo_profiles_dir (0, 0) demo_gui_world) demo_gui_world")
  show ?thesis using last_profile_roundtrip[OF wf ex r] r by blast
qed


lemma demo_select_ok:
  "\<not> isl (combo_select 1 (dofus_control_init demo_app_dir demo_profiles_dir (0, 0) demo_two) demo_two)"
  by code_simp

theorem combo_select_style_witness:
  "\<exists>g' w'. combo_select 1 (dofus_control_init demo_app_dir demo_profiles_dir (0, 0) demo_two) demo_two = Inr (g', w') \<and>
          combo_style g' = SelectedStyle \<and> combo_text g' = ''b''"
proof -
  let ?g = "dofus_control_init demo_app_dir demo_profiles_dir (0, 0) demo_two"
  obtain g' w' where r: "combo_select 1 ?g demo_two = Inr (g', w')"
    using demo_select_ok(1) by (cases "combo_select 1 ?g demo_two") auto
  have "1 < length (combo_items ?g)" by (simp add: demo_two_init(2))
  from combo_select_style[OF r this] show ?thesis using demo_two_init r by simp
qed

theorem blocked_signals_lose_selection_witness:
  "\<exists>g1 w1. load_profiles_file demo_app_dir ''/home/user/profiles/bad.json''
              (dofus_control_init demo_app_dir demo_profiles_dir (0, 0) demo_gui_world) demo_gui_world = (g1, w1) \<and>
     signals_blocked g1 \<and> combo_items g1 = [''a'', ''b''] \<and>
     (\<exists>g2. app_run demo_app_dir [SelectItem 1] (g1, w1) = Inr (g2, w1) \<and> signals_blocked g2)"
proof -
  let ?doc = "[(''profiles'', PDict [(''a'', PList [PStr ''Cra'']), (''b'', PList [PStr ''Iop''])]),
               (''active'', PList [])]"
  have p: "path_of_str ''/home/user/profiles/bad.json'' = demo_bad_path" by code_simp
  have h: "''/home/user/profiles/bad.json'' \<noteq> []"
    "files demo_gui_world (path_of_str ''/home/user/profiles/bad.json'') = Some (Json (PDict ?doc))"
    "path_of_str ''/home/user/profiles/bad.json'' \<noteq> last_profile_file demo_app_dir"
    "map_of ?doc ''profiles'' = Some (PDict [(''a'', PList [PStr ''Cra'']), (''b'', PList [PStr ''Iop''])])"
    "map_of ?doc ''active'' = Some (PList [])" "\<not> py_hashable (PList [])"
    unfolding p by (simp_all add: demo_gui_world_def demo_bad_path_def last_profile_file_def demo_app_dir_def)
  obtain g1 w1 where r: "load_profiles_file demo_app_dir ''/home/user/profiles/bad.json''
              (dofus_control_init demo_app_dir demo_profiles_dir (0, 0) demo_gui_world) demo_gui_world = (g1, w1)"
    by fastforce
  from blocked_signals_lose_selection[OF h r] have a: "signals_blocked g1" "combo_items g1 = [''a'', ''b'']"
    and b: "\<forall>is. \<exists>g2. app_run demo_app_dir (map SelectItem is) (g1, w1) = Inr (g2, w1) \<and> signals_blocked g2"
    by simp_all
  from b have "\<exists>g2. app_run demo_app_dir (map SelectItem [1]) (g1, w1) = Inr (g2, w1) \<and> signals_blocked g2"
    by (rule spec)
  then have "\<exists>g2. app_run demo_app_dir [SelectItem 1] (g1, w1) = Inr (g2, w1) \<and> signals_blocked g2"
    by (simp only: list.map)
  with a r show ?thesis by blast
qed

theorem blank_last_profile_uses_cwd_witness:
  "PROFILES_FILE (dofus_control_init demo_app_dir demo_profiles_dir (0, 0)
      (demo_world\<lparr>files := [last_profile_file demo_app_dir \<mapsto> Text ''\<newline>'']\<rparr>)) = Some (Path False []) \<and>
   SCRIPTS_DIR (dofus_control_init demo_app_dir demo_profiles_dir (0, 0)
      (demo_world\<lparr>files := [last_profile_file demo_app_dir \<mapsto> Text ''\<newline>'']\<rparr>)) = Some (Path False [''scripts''])"
proof -
  have h: "files (demo_world\<lparr>files := [last_profile_file demo_app_dir \<mapsto> Text ''\<newline>'']\<rparr>) (last_profile_file demo_app_dir) =
             Some (Text ''\<newline>'')"
    "py_strip ''\<newline>'' = []"
    "files (demo_world\<lparr>files := [last_profile_file demo_app_dir \<mapsto> Text ''\<newline>'']\<rparr>) (Path False []) = None"
    by (simp_all add: last_profile_file_def demo_app_dir_def py_strip_def py_lstrip_def py_rstrip_def py_isspace_def)
  from blank_last_profile_uses_cwd[OF h, of demo_profiles_dir "(0, 0)"] show ?thesis by simp
qed

end
