(* ===== verification/Startup.thy ===== *)
theory Startup
  imports Controller
begin

text \<open>
  Start-up of \<open>src/dofus_control_gui.py\<close>: the module-level code (lines 17--33) that
  requires the \<open>.env\<close> file next to the program, loads it into the environment and
  derives \<open>DISPLAY\<close> and \<open>PROFILES_DIR\<close>, and \<open>main\<close> (lines 689--693), which creates
  the main window and runs the Qt event loop. The assignments python-dotenv reads from
  the \<open>.env\<close> file are a parameter (the library's parser is not modelled);
  \<open>load_dotenv\<close> keeps a variable the process environment already has.
\<close>

subsection \<open>Module initialisation\<close>

text \<open>\<open>load_dotenv(ENV_FILE)\<close> with its default \<open>override=False\<close>.\<close>

definition load_dotenv :: "(string \<times> string) list \<Rightarrow> (string \<Rightarrow> string option) \<Rightarrow> string \<Rightarrow> string option" where
  "load_dotenv vars env = (\<lambda>k. case env k of Some v \<Rightarrow> Some v | None \<Rightarrow> map_of vars k)"

text \<open>\<open>str(Path.home() / ".config/dofus_linux_toolbox")\<close>: the joined string is split
  into two components.\<close>

definition default_profiles_dir :: "path \<Rightarrow> path" where
  "default_profiles_dir home = path_join (path_join home ''.config'') ''dofus_linux_toolbox''"

record startup_cfg =
  cfg_environ :: "string \<Rightarrow> string option"
  cfg_display :: string
  cfg_profiles_dir :: path

text \<open>The module body, given \<open>APP_DIR\<close>, the \<open>.env\<close> assignments, the process
  environment and the home directory: \<open>None\<close> is \<open>sys.exit(1)\<close> after the warning.\<close>

definition module_init ::
  "path \<Rightarrow> (string \<times> string) list \<Rightarrow> (string \<Rightarrow> string option) \<Rightarrow> path \<Rightarrow> world \<Rightarrow> startup_cfg option" where
  "module_init app vars env home w =
     (if files w (path_join app ''.env'') = None then None
      else (let env1 = load_dotenv vars env;
                disp = (case env1 ''DISPLAY'' of Some d \<Rightarrow> d | None \<Rightarrow> '':0'');
                pdir = path_of_str (case env1 ''PROFILES_DIR'' of
                                      Some d \<Rightarrow> d
                                    | None \<Rightarrow> str_of_path (default_profiles_dir home))
            in Some \<lparr>cfg_environ = env1(''DISPLAY'' \<mapsto> disp), cfg_display = disp, cfg_profiles_dir = pdir\<rparr>))"

subsection \<open>\<open>main\<close>\<close>

text \<open>How a run of the program ends: the exit status of \<open>sys.exit\<close>, an exception that
  aborted the event loop, or the window still open after the given user events.\<close>

datatype program_end = ExitStatus int | Aborted py_error | Running gui world

definition main_run ::
  "path \<Rightarrow> (string \<times> string) list \<Rightarrow> (string \<Rightarrow> string option) \<Rightarrow> path \<Rightarrow> point \<Rightarrow> ui_event list \<Rightarrow> world \<Rightarrow>
   program_end" where
  "main_run app vars env home pos es w =
     (case module_init app vars env home w of
        None \<Rightarrow> ExitStatus 1
      | Some cfg \<Rightarrow>
          (case app_run app es (dofus_control_init app (cfg_profiles_dir cfg) pos w, w) of
             Inl e \<Rightarrow> Aborted e
           | Inr (g, w') \<Rightarrow> Running g w'))"

text \<open>The example installation: the program in \<open>/opt/toolbox\<close> with its \<open>.env\<close>, no
  \<open>last_profile.txt\<close>, home \<open>/home/user\<close>, and a profile file in the default
  directory.\<close>

definition demo_home :: path where
  "demo_home = Path True [''home'', ''user'']"

definition demo_installed :: world where
  "demo_installed =
     demo_world\<lparr>files := [path_join demo_app_dir ''.env'' \<mapsto> Text ''DISPLAY=:1'',
                          path_join (default_profiles_dir demo_home) ''profiles.json'' \<mapsto>
                            Json (PDict [(''profiles'', PDict []), (''active'', PStr [])])]\<rparr>"

lemmas startup_defs [model_simps] = load_dotenv_def default_profiles_dir_def module_init_def main_run_def

subsection \<open>Facts\<close>

lemma wf_abs_path_join:
  "wf_abs_path p \<Longrightarrow> c \<noteq> [] \<Longrightarrow> c \<noteq> ''.'' \<Longrightarrow> CHR ''/'' \<notin> set c \<Longrightarrow> \<not> py_isspace (last c) \<Longrightarrow>
   wf_abs_path (path_join p c)"
  by (cases p) (auto simp: wf_abs_path_def)

lemma wf_default_profiles_dir: "wf_abs_path home \<Longrightarrow> wf_abs_path (default_profiles_dir home)"
  unfolding default_profiles_dir_def
  by (intro wf_abs_path_join) (simp_all add: py_isspace_def)

subsection \<open>Properties\<close>

text \<open>C34. Without a \<open>.env\<close> file next to the program, the program exits with status 1
  before any window exists, whatever the user would do.\<close>

theorem main_without_env_exits:
  "files w (path_join app ''.env'') = None \<Longrightarrow> main_run app vars env home pos es w = ExitStatus 1"
  by (simp add: main_run_def module_init_def)

text \<open>C35. When neither the environment nor \<open>.env\<close> sets \<open>PROFILES_DIR\<close>, the profile
  directory is \<open>~/.config/dofus_linux_toolbox\<close>, and a first start (no
  \<open>last_profile.txt\<close>) opens \<open>profiles.json\<close> there.\<close>

theorem startup_default_profiles:
  assumes "files w (path_join app ''.env'') \<noteq> None" "env ''PROFILES_DIR'' = None"
    "map_of vars ''PROFILES_DIR'' = None" "wf_abs_path home" "files w (last_profile_file app) = None"
  shows "\<exists>cfg. module_init app vars env home w = Some cfg \<and>
              cfg_profiles_dir cfg = path_join (path_join home ''.config'') ''dofus_linux_toolbox'' \<and>
              PROFILES_FILE (dofus_control_init app (cfg_profiles_dir cfg) pos w) =
                Some (path_join (path_join (path_join home ''.config'') ''dofus_linux_toolbox'') ''profiles.json'')"
proof -
  have "path_of_str (str_of_path (default_profiles_dir home)) = default_profiles_dir home"
    using path_of_str_of_path[OF wf_default_profiles_dir[OF assms(4)]] .
  then have m: "module_init app vars env home w =
                  Some \<lparr>cfg_environ = (load_dotenv vars env)(''DISPLAY'' \<mapsto>
                           (case load_dotenv vars env ''DISPLAY'' of Some d \<Rightarrow> d | None \<Rightarrow> '':0'')),
                        cfg_display = (case load_dotenv vars env ''DISPLAY'' of Some d \<Rightarrow> d | None \<Rightarrow> '':0''),
                        cfg_profiles_dir = default_profiles_dir home\<rparr>"
    using assms(1-3) by (simp add: module_init_def Let_def load_dotenv_def)
  have "PROFILES_FILE (dofus_control_init app (default_profiles_dir home) pos w) =
          Some (path_join (default_profiles_dir home) ''profiles.json'')"
    using assms(5) initial_profiles_path_view
    by (simp add: dofus_control_init_def initial_profiles_path_def)
  with m show ?thesis by (simp add: default_profiles_dir_def)
qed

subsection \<open>Witnesses\<close>

theorem main_without_env_exits_witness:
  "main_run demo_app_dir [] Map.empty demo_home (0, 0) [ClickLock] demo_world = ExitStatus 1"
proof -
  have "files demo_world (path_join demo_app_dir ''.env'') = None" by (simp add: demo_world_def)
  then show ?thesis by (rule main_without_env_exits)
qed

theorem startup_default_profiles_witness:
  "\<exists>cfg. module_init demo_app_dir [(''DISPLAY'', '':1'')] Map.empty demo_home demo_installed = Some cfg \<and>
     cfg_profiles_dir cfg = Path True [''home'', ''user'', ''.config'', ''dofus_linux_toolbox''] \<and>
     PROFILES_FILE (dofus_control_init demo_app_dir (cfg_profiles_dir cfg) (0, 0) demo_installed) =
       Some (Path True [''home'', ''user'', ''.config'', ''dofus_linux_toolbox'', ''profiles.json''])"
proof -
  have h: "files demo_installed (path_join demo_app_dir ''.env'') \<noteq> None"
    "wf_abs_path demo_home" "files demo_installed (last_profile_file demo_app_dir) = None"
    by (simp_all add: demo_installed_def demo_app_dir_def demo_home_def wf_abs_path_def py_isspace_def
                      last_profile_file_def default_profiles_dir_def)
  have "(Map.empty :: string \<Rightarrow> string option) ''PROFILES_DIR'' = None"
       "map_of [(''DISPLAY'', '':1'')] ''PROFILES_DIR'' = None" by simp_all
  from startup_default_profiles[OF h(1) this h(2,3), of "(0, 0)"] show ?thesis
    by (simp add: default_profiles_dir_def demo_home_def)
qed

end
