(* ===== verification/Spec2Isabelle.thy ===== *)
theory Spec2Isabelle
  imports Startup
begin

text \<open>
  \<^bold>\<open>A verification development for the Dofus multi-boxing toolbox.\<close>
  It models \<open>src/dofus_control_gui.py\<close> (one PyQt 5 program) as a shallow embedding in HOL.

  \<^bold>\<open>The program.\<close> The toolbox helps a player who runs several game clients at
  once. Its module functions drive command-line tools through \<open>run_cmd\<close>:
  \<^item> \<open>get_dofus_windows\<close> lists the game windows with \<open>wmctrl -l -p\<close>.
  \<^item> \<open>update_cycle_scripts\<close> writes two bash scripts. Bound to hotkeys, they move the focus
    through the profile's windows, forward and backward.
  \<^item> \<open>rename_windows\<close> titles the windows by role and tries to mute all but the first
    through \<open>pactl\<close>.
  \<^item> \<open>reorganize_windows\<close> moves the windows to the other desktop and back, in profile
    order.
  \<^item> \<open>invite_group\<close> types \<open>/invite NAME\<close> into the focused client.

  Profiles live in a JSON file (\<open>load_data\<close>, \<open>save_data\<close>, \<open>load_profiles\<close>,
  \<open>save_initiative\<close>). The main window \<open>DofusControl\<close> calls all of these from its
  buttons, its profile combo box and a \<open>CountdownDialog\<close>.

  \<^bold>\<open>The theories\<close>, in import order:
  \<^item> \<open>Prelude\<close>, \<open>PyStr\<close>, \<open>Values\<close>: generic facts. They model Python's string
    methods as \<open>string\<close> functions and JSON values as the datatype \<open>pyval\<close>. An
    exception is the \<open>Inl\<close> side of a result \<open>'a py = py_error + 'a\<close>.
  \<^item> \<open>World\<close>: the environment, as a record \<open>world\<close> of:
    \<^item> files, as a map from paths;
    \<^item> windows and desktops;
    \<^item> audio sink inputs;
    \<^item> typed keystrokes, installed tools and the log of commands run.

    \<open>exec_tool\<close> gives each tool's output and effect. \<open>run_cmd\<close> is lines 57--62.
  \<^item> \<open>Store\<close>: the profile file (lines 37--55).
  \<^item> \<open>Shell\<close>: the bash and text-tool semantics the generated scripts and the
    background mute script rely on. This is the part modelled from the tools'
    documentation, not from \<open>src/\<close>. It covers:
    \<^item> \<open>%\<close>, array subscripts, word splitting;
    \<^item> the value a variable's content has in \<open>$(( ))\<close> (\<open>bash_read_number\<close>: blanks,
      a sign, decimal, octal and hexadecimal constants, unset names; other expressions
      are outside the model and read as an error);
    \<^item> the quoting of an array literal (\<open>bash_array_words\<close>: single and double quotes,
      backslashes, with \<open>Unterminated\<close> for a syntax error and \<open>Unmodelled\<close> for
      expansions and operators);
    \<^item> \<open>grep\<close>, \<open>awk\<close>, \<open>cut\<close>, \<open>pactl\<close> and \<open>xargs\<close>;
    \<^item> \<open>popen_bash\<close>, which reads a \<open>bash -c\<close> script of \<open>&&\<close>-chained pipelines
      command by command and runs it.
  \<^item> \<open>Demo\<close>: the example desktops at which witnesses instantiate the theorems.
  \<^item> \<open>Cycle\<close>: what a generated script does when run (\<open>cycle_script\<close>), refined
    against the contract \<open>next_available\<close>.
  \<^item> \<open>Scripts\<close>: the generation of the scripts (\<open>update_cycle_scripts\<close>, lines 78--122).
  \<^item> \<open>Windows\<close>: \<open>get_dofus_windows\<close> and \<open>rename_windows\<close> (lines 64--162).
  \<^item> \<open>Reorganize\<close>: \<open>reorganize_windows\<close> (lines 164--208).
  \<^item> \<open>Invite\<close>: \<open>invite_group\<close> and the countdown dialog (lines 210--282). The dialog is an
    inductive step relation with its reachable states.
  \<^item> \<open>Widgets\<close>: \<open>ActionButton\<close> (lines 286--345) and \<open>StyledComboBox\<close> (lines
    349--419). It covers the button's hover and active state, what \<open>paintEvent\<close> draws,
    and the box's two style sheets.
  \<^item> \<open>Controller\<close>: the main window (lines 423--687).
    \<^item> Its state is the record \<open>gui\<close>: the attributes, the combo box, the label, the
      32-bit window flags, the frame position, and the globals \<open>PROFILES_FILE\<close>,
      \<open>SCRIPTS_DIR\<close> and \<open>ALWAYS_ON_TOP\<close>.
    \<^item> Each handler is one definition.
    \<^item> \<open>app_step\<close> and \<open>app_run\<close> run sequences of user events.
    \<^item> An exception that leaves a slot ends the program (PyQt 5 aborts).
  \<^item> \<open>Startup\<close>: the module body (lines 17--33) and \<open>main\<close> (lines 689--693). The
    module body exits without \<open>.env\<close>, loads it, and derives \<open>DISPLAY\<close> and
    \<open>PROFILES_DIR\<close>. \<open>main\<close> runs the main window over a list of user events.

  \<^bold>\<open>What the theorems show\<close> (claims C1--C36; each is stated in the theory of its
  definitions, and the properties that span theories are stated here):
  \<^item> \<open>Cycle\<close> (C1--C6). One hotkey press focuses the next role with a window and stores
    its position. The index file stays well formed. Forward then backward returns to the
    same role. It also covers the exit statuses without windows and without a matching
    role, and that a role with a dash can never be focused.
  \<^item> \<open>Windows\<close> (C7--C10). The listing reads back as the game windows. Renaming titles the
    k-th window by the k-th role. The background script, read by the shell as written at
    line 160, never mutes anything, because its \<open>awk\<close> stage passes \<open>#N\<close> to
    \<open>pactl\<close>. The process ids come from \<open>xprop\<close>.
  \<^item> \<open>Reorganize\<close> (C11--C13). The windows end on their desktops and are restored in
    profile order. When the first role occurs in every title (\<open>Bob\<close> in \<open>Dofus-Bob\<close>
    and \<open>Dofus-Bobby\<close>), only the last listed window comes back.
  \<^item> \<open>Invite\<close> (C14--C17). The typed invites. The invariant of the countdown's reachable
    states. The callback runs exactly once. A close by the user in any reachable state
    leaves the timer running, and the remaining ticks still run the callback.
  \<^item> \<open>Scripts\<close> (C18--C21). The \<open>CLASS_INI\<close> literal reads back as the roles. For roles
    of plain characters and single quotes, the literal is a syntax error exactly when the
    quotes are odd in number, and any quote spoils the read-back. Both scripts are
    written, executable. The backward script is the forward one with exactly its
    \<open>NEXT\<close> line replaced.
  \<^item> \<open>Controller\<close> (C22--C29, C33, C36):
    \<^item> the invariant of every reachable main-window state;
    \<^item> that picking a profile saves it as active;
    \<^item> that an unhashable \<open>active\<close> entry leaves the combo box's signals blocked, so
      every later pick is lost;
    \<^item> that the \<open>last_profile.txt\<close> round trip reopens the chosen file;
    \<^item> that the lock button sets and clears exactly the on-top bit;
    \<^item> that at start-up the window is on top though \<open>ALWAYS_ON_TOP\<close> is false;
    \<^item> that a drag keeps the window under the cursor;
    \<^item> that the buttons are guarded when no window is listed;
    \<^item> that a pick restyles the box exactly when \<open>currentTextChanged\<close> fires (C33);
    \<^item> that a blank \<open>last_profile.txt\<close> makes the working directory the profile file
      (C36).
  \<^item> This theory (C30, C31). Picking a profile in the main window writes a forward
    script whose array reads back in bash as the profile's roles. A role that is not a
    string aborts the application instead.
  \<^item> \<open>Widgets\<close> (C32). The palette follows the last \<open>set_active\<close> and the last pointer
    crossing.
  \<^item> \<open>Startup\<close> (C34, C35). Without \<open>.env\<close> the program exits with status 1. By
    default, a first start opens \<open>~/.config/dofus_linux_toolbox/profiles.json\<close>.

  \<^bold>\<open>Bounds.\<close> There is no fuel. Every loop of the program is a structural recursion
  over a finite list: the bash counter loop \<open>for ((i=1; i<=TOTAL; i++))\<close> is
  \<open>cycle_loop\<close> with \<open>TOTAL\<close> iterations, one per role, and the shell's readers recur
  on the text they read. The
  countdown takes 15 ticks of 100 ms from \<open>1.5\<close>, and its step relation shows that it
  stops at 0. Window flags and mouse buttons are \<open>32 word\<close>, as Qt's \<open>int\<close> flags are.
  Screen coordinates are unbounded integers, since moves stay far from the 32-bit range.

  \<^bold>\<open>Not modelled.\<close>
  \<^item> Widget layout and configuration: \<open>setup_ui\<close>, fonts (the button font size
    \<open>int(size * 0.28)\<close> is a float product), fixed sizes, cursors. The text of the
    style sheets is represented by name.
  \<^item> The close button and \<open>show()\<close>.
  \<^item> \<open>time.sleep\<close> and \<open>print\<close>.
  \<^item> The \<open>.env\<close> parser of python-dotenv, a library. The assignments it returns
    are a parameter of \<open>module_init\<close>, as are \<open>APP_DIR\<close> and the home directory.
  \<^item> The timeout of \<open>subprocess.run\<close>.
  \<^item> Directories in the file map (\<open>path_exists\<close> knows only the working directory
    and the root), and JSON numbers with a fraction.
  \<^item> \<open>currentTextChanged\<close> on the programmatic changes of the combo box
    (\<open>clear\<close>, \<open>addItems\<close>, \<open>setCurrentText\<close>): \<open>update_profile_list\<close> makes them
    with the box's signals blocked, so the signal never reaches a slot.
  \<^item> Shell input outside what \<open>Shell\<close> reads: arithmetic expressions in the index
    file, expansions and operators in a role, commands of the background script other
    than the forms it lists (they fail like a command that is not installed).
  \<^item> Events that reach the main window while a closed countdown still ticks.
\<close>

subsection \<open>Properties across components\<close>

text \<open>Two example profile files for the witnesses below: profile \<open>b\<close> holds the role
  \<open>Iop\<close>, or the role \<open>Iop\<close> and the number 2.\<close>

definition demo_pair :: world where
  "demo_pair =
     demo_store\<lparr>files := [demo_profiles_path \<mapsto>
        Json (PDict [(''profiles'', PDict [(''a'', PList [PStr ''Cra'']), (''b'', PList [PStr ''Iop''])]),
                     (''active'', PStr ''a'')])]\<rparr>"

definition demo_mixed :: world where
  "demo_mixed =
     demo_store\<lparr>files := [demo_profiles_path \<mapsto>
        Json (PDict [(''profiles'', PDict [(''a'', PList [PStr ''Cra'']), (''b'', PList [PStr ''Iop'', PInt 2])]),
                     (''active'', PStr ''a'')])]\<rparr>"

text \<open>C30. Picking a profile in the main window regenerates the forward cycling script
  under \<open>SCRIPTS_DIR\<close>, and its \<open>CLASS_INI\<close> array reads back in bash as exactly the
  profile's roles, when the roles hold no single quote (main window, script
  generation and bash quoting together).\<close>

theorem select_profile_scripts_read_back:
  assumes "ui_inv g" "\<not> signals_blocked g" "i < length (combo_items g)" "combo_items g ! i \<noteq> combo_text g"
    "combo_items g ! i \<noteq> []" "PROFILES_FILE g = Some pf" "files w pf = Some (Json (PDict doc))"
    "select_item i g w = Inr (g', w')"
    and ps: "map_of doc ''profiles'' = Some (PDict profs)" "map_of profs (combo_items g ! i) = Some pd"
    and roles: "profile_windows pd = Inr (PList (map PStr roles))" "roles \<noteq> []" "\<forall>r\<in>set roles. CHR 0x27 \<notin> set r"
  shows "\<exists>cs. files w' (path_join (path_join (path_parent pf) ''scripts'') ''cycle_windows_dofus.sh'') =
                Some (Text (script_content cs)) \<and> bash_array_words cs = Words roles"
proof -
  let ?n = "combo_items g ! i"
  let ?w1 = "w\<lparr>files := (files w)(pf \<mapsto> Json (PDict (alist_set doc ''active'' (PStr ?n))))\<rparr>"
  let ?cs = "CHR 0x27 # py_join [CHR 0x27, CHR '' '', CHR 0x27] roles @ [CHR 0x27]"
  let ?d = "path_join (path_parent pf) ''scripts''"
  have sd: "SCRIPTS_DIR g = Some ?d" using assms(1,6) by (simp add: ui_inv_def)
  have lp: "load_profiles (Some pf) ?w1 = Inr (PDict profs, PStr ?n)"
    using ps(1) by (simp add: load_profiles_def load_data_def)
  have pe: "profile_entry (PDict profs) ?n = Inr pd" using ps(2) by (simp add: profile_entry_def)
  have "update_cycle_scripts (Some pf) (SCRIPTS_DIR g) ?n ?w1 = Inr w'"
    using select_item_fires[OF assms(1-8)] by simp
  then have "w' = write_script (path_join ?d ''cycle_backward_windows_dofus.sh'') (script_content_back ?cs)
                    (write_script (path_join ?d ''cycle_windows_dofus.sh'') (script_content ?cs) ?w1)"
    using update_cycle_scripts_run[OF lp pe roles(1,2), of ?d] sd by simp
  then have "files w' (path_join ?d ''cycle_windows_dofus.sh'') = Some (Text (script_content ?cs))"
    using script_paths_differ[of ?d] by (simp add: write_script_def)
  moreover have "bash_array_words ?cs = Words roles"
    using arr_words_join[OF roles(2,3)] by (simp add: bash_array_words_def)
  ultimately show ?thesis by blast
qed



text \<open>C31. Picking a profile whose \<open>windows\<close> entry is a list holding a non-string
  aborts the application: \<open>update_cycle_scripts\<close> raises \<open>TypeError\<close> inside the slot
  \<open>on_profile_selected\<close>, where nothing catches it.\<close>

theorem select_non_string_role_aborts:
  assumes "ui_inv g" "\<not> signals_blocked g" "i < length (combo_items g)" "combo_items g ! i \<noteq> combo_text g"
    "combo_items g ! i \<noteq> []" "PROFILES_FILE g = Some pf" "files w pf = Some (Json (PDict doc))"
    and ps: "map_of doc ''profiles'' = Some (PDict profs)" "map_of profs (combo_items g ! i) = Some pd"
    and roles: "profile_windows pd = Inr (PList xs)" "\<exists>x\<in>set xs. \<forall>s. x \<noteq> PStr s"
  shows "select_item i g w = Inl TypeError"
proof -
  let ?n = "combo_items g ! i"
  let ?w1 = "w\<lparr>files := (files w)(pf \<mapsto> Json (PDict (alist_set doc ''active'' (PStr ?n))))\<rparr>"
  have sd: "SCRIPTS_DIR g = Some (path_join (path_parent pf) ''scripts'')" using assms(1,6) by (simp add: ui_inv_def)
  have ne: "xs \<noteq> []" using roles(2) by auto
  have cs: "classes_str (PList xs) = Inl TypeError"
    using roles(2) by (auto simp: classes_str_def py_str_join_def the_strs_eq)
  have "update_cycle_scripts (Some pf) (SCRIPTS_DIR g) ?n ?w1 = Inl TypeError"
    using ps roles(1) ne cs sd by (simp add: update_cycle_scripts_def load_profiles_def load_data_def profile_entry_def)
  then show ?thesis using select_item_unfold[OF assms(1-7)] by simp
qed


subsection \<open>Witnesses\<close>

lemma demo_pair_facts:
  "signals_blocked (dofus_control_init demo_app_dir demo_profiles_dir (0, 0) demo_pair) = False"
  "combo_items (dofus_control_init demo_app_dir demo_profiles_dir (0, 0) demo_pair) = [''a'', ''b'']"
  "combo_text (dofus_control_init demo_app_dir demo_profiles_dir (0, 0) demo_pair) = ''a''"
  "PROFILES_FILE (dofus_control_init demo_app_dir demo_profiles_dir (0, 0) demo_pair) = Some demo_profiles_path"
  "SCRIPTS_DIR (dofus_control_init demo_app_dir demo_profiles_dir (0, 0) demo_pair) =
     Some (path_join (path_parent demo_profiles_path) ''scripts'')"
  "self_profiles (dofus_control_init demo_app_dir demo_profiles_dir (0, 0) demo_pair) =
     PDict [(''a'', PList [PStr ''Cra'']), (''b'', PList [PStr ''Iop''])]"
  "snd (display_profile_classes ((dofus_control_init demo_app_dir demo_profiles_dir (0, 0) demo_pair)\<lparr>combo_index := Some 1\<rparr>)) = None"
  by code_simp+

lemma demo_pair_select:
  "\<exists>s. select_item 1 (dofus_control_init demo_app_dir demo_profiles_dir (0, 0) demo_pair) demo_pair = Inr s"
proof -
  let ?g = "dofus_control_init demo_app_dir demo_profiles_dir (0, 0) demo_pair"
  let ?doc = "[(''profiles'', PDict [(''a'', PList [PStr ''Cra'']), (''b'', PList [PStr ''Iop''])]), (''active'', PStr ''a'')]"
  let ?w1 = "demo_pair\<lparr>files := (files demo_pair)(demo_profiles_path \<mapsto> Json (PDict (alist_set ?doc ''active'' (PStr ''b''))))\<rparr>"
  have f: "files demo_pair demo_profiles_path = Some (Json (PDict ?doc))" by (simp add: demo_pair_def)
  have lp: "load_profiles (Some demo_profiles_path) ?w1 =
              Inr (PDict [(''a'', PList [PStr ''Cra'']), (''b'', PList [PStr ''Iop''])], PStr ''b'')"
    by (simp add: load_profiles_def load_data_def)
  have pe: "profile_entry (PDict [(''a'', PList [PStr ''Cra'']), (''b'', PList [PStr ''Iop''])]) ''b'' = Inr (PList [PStr ''Iop''])"
    by (simp add: profile_entry_def)
  have pw: "profile_windows (PList [PStr ''Iop'']) = Inr (PList (map PStr [''Iop'']))"
    by (simp add: profile_windows_def)
  obtain w2 where u: "update_cycle_scripts (Some demo_profiles_path) (SCRIPTS_DIR ?g) ''b'' ?w1 = Inr w2"
    using update_cycle_scripts_run[OF lp pe pw] demo_pair_facts(5) by simp
  obtain g2 where d: "display_profile_classes (?g\<lparr>combo_index := Some 1\<rparr>) = (g2, None)"
    using demo_pair_facts(7) by (metis prod.collapse)
  have "select_item 1 ?g demo_pair = Inr (g2, w2)"
    using demo_pair_facts u d f
    by (simp add: select_item_def combo_text_def on_profile_selected_def save_initiative_dict)
  then show ?thesis by blast
qed

theorem select_profile_scripts_read_back_witness:
  "\<exists>g' w' cs. select_item 1 (dofus_control_init demo_app_dir demo_profiles_dir (0, 0) demo_pair) demo_pair = Inr (g', w') \<and>
     files w' (path_join (path_join (path_parent demo_profiles_path) ''scripts'') ''cycle_windows_dofus.sh'') =
       Some (Text (script_content cs)) \<and> bash_array_words cs = Words [''Iop'']"
proof -
  let ?g = "dofus_control_init demo_app_dir demo_profiles_dir (0, 0) demo_pair"
  obtain g' w' where r: "select_item 1 ?g demo_pair = Inr (g', w')" using demo_pair_select by auto
  have f: "files demo_pair demo_profiles_path =
    Some (Json (PDict [(''profiles'', PDict [(''a'', PList [PStr ''Cra'']), (''b'', PList [PStr ''Iop''])]),
                       (''active'', PStr ''a'')]))" by (simp add: demo_pair_def)
  have "\<exists>cs. files w' (path_join (path_join (path_parent demo_profiles_path) ''scripts'') ''cycle_windows_dofus.sh'') =
                Some (Text (script_content cs)) \<and> bash_array_words cs = Words [''Iop'']"
    using select_profile_scripts_read_back[OF ui_inv_init _ _ _ _ demo_pair_facts(4) f r, of
            "[(''a'', PList [PStr ''Cra'']), (''b'', PList [PStr ''Iop''])]" "PList [PStr ''Iop'']" "[''Iop'']"]
          demo_pair_facts(1-3)
    by (simp add: profile_windows_def)
  then show ?thesis using r by blast
qed

lemma demo_mixed_facts:
  "signals_blocked (dofus_control_init demo_app_dir demo_profiles_dir (0, 0) demo_mixed) = False"
  "combo_items (dofus_control_init demo_app_dir demo_profiles_dir (0, 0) demo_mixed) = [''a'', ''b'']"
  "combo_text (dofus_control_init demo_app_dir demo_profiles_dir (0, 0) demo_mixed) = ''a''"
  "PROFILES_FILE (dofus_control_init demo_app_dir demo_profiles_dir (0, 0) demo_mixed) = Some demo_profiles_path"
  by code_simp+

theorem select_non_string_role_aborts_witness:
  "select_item 1 (dofus_control_init demo_app_dir demo_profiles_dir (0, 0) demo_mixed) demo_mixed = Inl TypeError"
proof -
  have f: "files demo_mixed demo_profiles_path =
    Some (Json (PDict [(''profiles'', PDict [(''a'', PList [PStr ''Cra'']), (''b'', PList [PStr ''Iop'', PInt 2])]),
                       (''active'', PStr ''a'')]))" by (simp add: demo_mixed_def)
  show ?thesis
    using select_non_string_role_aborts[OF ui_inv_init _ _ _ _ demo_mixed_facts(4) f,
            where i = 1 and profs = "[(''a'', PList [PStr ''Cra'']), (''b'', PList [PStr ''Iop'', PInt 2])]"
            and pd = "PList [PStr ''Iop'', PInt 2]" and xs = "[PStr ''Iop'', PInt 2]"]
          demo_mixed_facts(1-3)
    by (simp add: profile_windows_def)
qed

end
